(* ===== verification/Prelude.thy ===== *)
theory Prelude
  imports Main "HOL-Library.Word" "HOL-Library.AList" "HOL-Library.Sublist"
begin

text \<open>
  What every component of the model shares: the Python exceptions the source raises or lets
  through, the result type of a fallible computation and its sequencing, a state-and-exception
  form of it for code that mutates objects, byte strings with Python's slicing, and insertion
  ordered dictionaries.
\<close>

unbundle bit_operations_syntax

section \<open>Collections\<close>

named_theorems result_simps \<open>equations for sequencing fallible computations\<close>
named_theorems codec_simps \<open>what a decoder returns on the bytes an encoder produced\<close>
named_theorems handler_defs \<open>definitions of the protocol's handlers\<close>
named_theorems broker_defs \<open>definitions of the operations of the broker's state\<close>
named_theorems sender_defs \<open>definitions of the functions that write frames\<close>

section \<open>Exceptions and results\<close>

text \<open>
  The exception classes that the modelled code raises itself or lets through from the language
  and its standard library. \<open>TimestampError\<close> stands for the ValueError, OverflowError or OSError
  with which \<open>datetime.utcfromtimestamp\<close> rejects a timestamp, \<open>ProtocolError\<close> for those of the package h11.
\<close>

datatype py_error =
    StructError
  | UnicodeDecodeError
  | UnicodeEncodeError
  | FrameSyntaxError
  | InvalidFrameError
  | IndexError
  | KeyError
  | TypeError
  | ValueError
  | AttributeError
  | NameError
  | OverflowError
  | TimestampError
  | WaitTimeout
  | ProtocolError

type_synonym 'a result = "py_error + 'a"

definition bindE :: "'a result \<Rightarrow> ('a \<Rightarrow> 'b result) \<Rightarrow> 'b result" where
  "bindE m f = (case m of Inl e \<Rightarrow> Inl e | Inr x \<Rightarrow> f x)"

lemma bindE_Inl [simp, result_simps]: "bindE (Inl e) f = Inl e"
  and bindE_Inr [simp, result_simps]: "bindE (Inr x) f = f x"
  by (simp_all add: bindE_def)

lemma bindE_cong [fundef_cong]:
  "m = m' \<Longrightarrow> (\<And>x. m' = Inr x \<Longrightarrow> f x = g x) \<Longrightarrow> bindE m f = bindE m' g"
  by (cases m') (auto simp: bindE_def)

lemma bindE_eq_Inr: "bindE m f = Inr y \<longleftrightarrow> (\<exists>x. m = Inr x \<and> f x = Inr y)"
  by (cases m) (auto simp: bindE_def)

lemma bindE_eq_Inl: "bindE m f = Inl e \<longleftrightarrow> m = Inl e \<or> (\<exists>x. m = Inr x \<and> f x = Inl e)"
  by (cases m) (auto simp: bindE_def)

lemma bindE_InrE [elim]:
  assumes "bindE m f = Inr y"
  obtains x where "m = Inr x" and "f x = Inr y"
  using assms by (auto simp: bindE_eq_Inr)

lemma bindE_assoc [result_simps]: "bindE (bindE m f) g = bindE m (\<lambda>x. bindE (f x) g)"
  by (cases m) simp_all

lemma bindE_Inr_right [simp]: "bindE m Inr = m"
  by (cases m) simp_all

section \<open>Computations on a state that may raise\<close>

text \<open>
  A method that mutates an object and may raise is a function from the state to the outcome and
  the state after it: what was mutated before an exception stays mutated.
\<close>

type_synonym ('s, 'a) eff = "'s \<Rightarrow> 'a result \<times> 's"

definition returnS :: "'a \<Rightarrow> ('s, 'a) eff" where
  "returnS x s = (Inr x, s)"

definition raiseS :: "py_error \<Rightarrow> ('s, 'a) eff" where
  "raiseS e s = (Inl e, s)"

definition bindS :: "('s, 'a) eff \<Rightarrow> ('a \<Rightarrow> ('s, 'b) eff) \<Rightarrow> ('s, 'b) eff" where
  "bindS m f s = (case m s of (Inl e, s') \<Rightarrow> (Inl e, s') | (Inr x, s') \<Rightarrow> f x s')"

definition liftE :: "'a result \<Rightarrow> ('s, 'a) eff" where
  "liftE r s = (r, s)"

definition modifyS :: "('s \<Rightarrow> 's) \<Rightarrow> ('s, unit) eff" where
  "modifyS f s = (Inr (), f s)"

definition getS :: "('s \<Rightarrow> 'a) \<Rightarrow> ('s, 'a) eff" where
  "getS f s = (Inr (f s), s)"

abbreviation thenS :: "('s, unit) eff \<Rightarrow> ('s, 'b) eff \<Rightarrow> ('s, 'b) eff" where
  "thenS m k \<equiv> bindS m (\<lambda>_. k)"

lemma returnS_apply [simp, result_simps]: "returnS x s = (Inr x, s)"
  and raiseS_apply [simp, result_simps]: "raiseS e s = (Inl e, s)"
  and liftE_apply [simp, result_simps]: "liftE r s = (r, s)"
  and modifyS_apply [simp, result_simps]: "modifyS f s = (Inr (), f s)"
  and getS_apply [simp, result_simps]: "getS g s = (Inr (g s), s)"
  by (simp_all add: returnS_def raiseS_def liftE_def modifyS_def getS_def)

lemma bindS_apply: "bindS m f s = (case fst (m s) of Inl e \<Rightarrow> (Inl e, snd (m s)) | Inr x \<Rightarrow> f x (snd (m s)))"
  by (simp add: bindS_def split: prod.split sum.split)

lemma bindS_Inr: "m s = (Inr x, s') \<Longrightarrow> bindS m f s = f x s'"
  and bindS_Inl: "m s = (Inl e, s') \<Longrightarrow> bindS m f s = (Inl e, s')"
  by (simp_all add: bindS_def)

lemma bindS_simps [simp, result_simps]:
  "bindS (returnS x) f = f x"
  "bindS (raiseS e) f = raiseS e"
  "bindS (modifyS g) h s = h () (g s)"
  "bindS (liftE (Inr x)) f = f x"
  "bindS (liftE (Inl e)) f = raiseS e"
  "bindS (getS h') f s = f (h' s) s"
  by (auto simp: bindS_def returnS_def raiseS_def liftE_def modifyS_def getS_def fun_eq_iff)

lemma bindS_InrE:
  assumes "bindS m f s = (Inr y, s')"
  obtains x s1 where "m s = (Inr x, s1)" and "f x s1 = (Inr y, s')"
  using assms by (auto simp: bindS_def split: prod.splits sum.splits)

text \<open>
  A postcondition of the state alone, whatever the outcome: the shape of every invariant proof,
  composed along \<open>bindS\<close>.
\<close>

definition keeps :: "('s \<Rightarrow> bool) \<Rightarrow> ('s, 'a) eff \<Rightarrow> bool" where
  "keeps P m \<longleftrightarrow> (\<forall>s. P s \<longrightarrow> P (snd (m s)))"

lemma keepsI: "(\<And>s. P s \<Longrightarrow> P (snd (m s))) \<Longrightarrow> keeps P m"
  by (simp add: keeps_def)

lemma keepsD: "keeps P m \<Longrightarrow> P s \<Longrightarrow> P (snd (m s))"
  by (simp add: keeps_def)

lemma keeps_returnS [intro]: "keeps P (returnS x)"
  and keeps_raiseS [intro]: "keeps P (raiseS e)"
  and keeps_liftE [intro]: "keeps P (liftE r)"
  and keeps_getS [intro]: "keeps P (getS g)"
  by (simp_all add: keeps_def)

lemma keeps_bindS [intro]: "keeps P m \<Longrightarrow> (\<And>x. keeps P (f x)) \<Longrightarrow> keeps P (bindS m f)"
  by (auto simp: keeps_def bindS_apply split: sum.split)

lemma keeps_if: "keeps P a \<Longrightarrow> keeps P b \<Longrightarrow> keeps P (if c then a else b)"
  and keeps_Let: "(\<And>x. keeps P (f x)) \<Longrightarrow> keeps P (let x = v in f x)"
  and keeps_case_prod: "(\<And>a b. keeps P (g a b)) \<Longrightarrow> keeps P (case z of (a, b) \<Rightarrow> g a b)"
  by (simp_all add: Let_def split_def)

lemmas keeps_rules = keeps_bindS keeps_if keeps_Let keeps_case_prod keeps_returnS keeps_raiseS
  keeps_liftE keeps_getS

text \<open>
  A computation returns, with a value and a state that satisfy a postcondition: no exception.
\<close>

definition returns :: "('s, 'a) eff \<Rightarrow> ('a \<Rightarrow> 's \<Rightarrow> bool) \<Rightarrow> 's \<Rightarrow> bool" where
  "returns m Q s = (case m s of (Inl _, _) \<Rightarrow> False | (Inr x, s') \<Rightarrow> Q x s')"

lemma returns_simps [simp, result_simps]:
  "returns (returnS x) Q1 s = Q1 x s"
  "returns (raiseS e) Q2 s = False"
  "returns (bindS m f) Q3 s = returns m (\<lambda>x. returns (f x) Q3) s"
  "returns (getS g) Q4 s = Q4 (g s) s"
  "returns (modifyS h) Q5 s = Q5 () (h s)"
  "returns (liftE (Inr y)) Q6 s = Q6 y s"
  "returns (liftE (Inl e)) Q7 s = False"
  by (cases "m s"; simp add: returns_def bindS_def split: sum.split)+

lemma returns_fst: "fst (m s) = Inr x \<Longrightarrow> returns m Q s = Q x (snd (m s))"
  by (cases "m s") (simp add: returns_def)

lemma returnsE:
  assumes "returns m Q s"
  obtains x s' where "m s = (Inr x, s')" and "Q x s'"
  using assms by (auto simp: returns_def split: prod.splits sum.splits)

text \<open>
  A change of the state that a computation neither sees nor disturbs: it gives the same outcome, and
  the change can as well be made afterwards.
\<close>

definition commutes :: "('s \<Rightarrow> 's) \<Rightarrow> ('s, 'a) eff \<Rightarrow> bool" where
  "commutes g m \<longleftrightarrow> (\<forall>s. m (g s) = (fst (m s), g (snd (m s))))"

lemma commutesD: "commutes g m \<Longrightarrow> m (g s) = (fst (m s), g (snd (m s)))"
  by (simp add: commutes_def)

lemma commutes_returnS: "commutes g (returnS x)"
  and commutes_raiseS: "commutes g (raiseS e)"
  and commutes_liftE: "commutes g (liftE r)"
  by (simp_all add: commutes_def)

lemma commutes_getS: "(\<And>s. f (g s) = f s) \<Longrightarrow> commutes g (getS f)"
  by (simp add: commutes_def)

lemma commutes_bindS: "commutes g m \<Longrightarrow> (\<And>x. commutes g (f x)) \<Longrightarrow> commutes g (bindS m f)"
  by (simp add: commutes_def bindS_apply split: sum.split)

lemma commutes_if: "commutes g a \<Longrightarrow> commutes g b \<Longrightarrow> commutes g (if c then a else b)"
  and commutes_Let: "(\<And>x. commutes g (f x)) \<Longrightarrow> commutes g (let x = v in f x)"
  and commutes_case_prod: "(\<And>a b. commutes g (k a b)) \<Longrightarrow> commutes g (case z of (a, b) \<Rightarrow> k a b)"
  by (simp_all add: Let_def split_def)

lemmas commutes_rules = commutes_bindS commutes_if commutes_Let commutes_case_prod commutes_returnS
  commutes_raiseS commutes_liftE

section \<open>Byte strings\<close>

type_synonym byte = "8 word"
type_synonym bytes = "byte list"

definition py_slice :: "bytes \<Rightarrow> nat \<Rightarrow> nat \<Rightarrow> bytes" where
  \<comment> \<open>\<open>buf[i:j]\<close>: truncated, never an error, when it runs past the end\<close>
  "py_slice buf i j = take (j - i) (drop i buf)"

definition byte_at :: "bytes \<Rightarrow> nat \<Rightarrow> byte result" where
  \<comment> \<open>\<open>buf[i]\<close>\<close>
  "byte_at buf i = (if i < length buf then Inr (buf ! i) else Inl IndexError)"

lemma length_py_slice [simp]: "length (py_slice buf i j) = min (j - i) (length buf - i)"
  by (simp add: py_slice_def)

lemma py_slice_append_left: "j \<le> length a \<Longrightarrow> py_slice (a @ b) i j = py_slice a i j"
  by (simp add: py_slice_def)

lemma py_slice_mid [codec_simps]: "i = length a \<Longrightarrow> j = i + length b \<Longrightarrow> py_slice (a @ b @ c) i j = b"
  by (simp add: py_slice_def)

lemma py_slice_prefix [codec_simps]: "j = length b \<Longrightarrow> py_slice (b @ c) 0 j = b"
  by (simp add: py_slice_def)

lemma byte_at_Inr: "byte_at buf i = Inr b \<longleftrightarrow> i < length buf \<and> b = buf ! i"
  by (auto simp: byte_at_def)

lemma byte_at_append_left: "byte_at a i = Inr v \<Longrightarrow> byte_at (a @ b) i = Inr v"
  by (auto simp: byte_at_def nth_append split: if_splits)

lemma byte_at_mid [codec_simps]: "i = length a \<Longrightarrow> byte_at (a @ b # c) i = Inr b"
  by (simp add: byte_at_def nth_append)

text \<open>
  A buffer holds a byte string at an offset: the form in which decoders are applied to what an
  encoder wrote, wherever it stands.
\<close>

definition holds_at :: "bytes \<Rightarrow> nat \<Rightarrow> bytes \<Rightarrow> bool" where
  "holds_at buf off bs \<longleftrightarrow> off \<le> length buf \<and> prefix bs (drop off buf)"

lemma holds_at_append [simp]:
  "holds_at buf off (x @ y) \<longleftrightarrow> holds_at buf off x \<and> holds_at buf (off + length x) y"
proof
  assume "holds_at buf off (x @ y)"
  then obtain z where z: "off \<le> length buf" "drop off buf = (x @ y) @ z"
    by (auto simp: holds_at_def prefix_def)
  then have "drop (off + length x) buf = drop (length x) ((x @ y) @ z)"
    by (metis add.commute drop_drop)
  moreover have "length buf = off + length x + length (y @ z)"
  proof -
    have "length (drop off buf) = length ((x @ y) @ z)" using z by simp
    with z(1) show ?thesis by simp
  qed
  ultimately show "holds_at buf off x \<and> holds_at buf (off + length x) y"
    using z by (auto simp: holds_at_def)
next
  assume h: "holds_at buf off x \<and> holds_at buf (off + length x) y"
  then obtain z1 z2 where z: "drop off buf = x @ z1" "drop (off + length x) buf = y @ z2"
    by (auto simp: holds_at_def prefix_def)
  have "drop (off + length x) buf = drop (length x) (drop off buf)"
    by (simp add: add.commute)
  with z have "z1 = y @ z2" by simp
  with z h show "holds_at buf off (x @ y)" by (simp add: holds_at_def)
qed

lemma holds_at_Nil [simp]: "holds_at buf off [] \<longleftrightarrow> off \<le> length buf"
  by (simp add: holds_at_def)

lemma holds_at_split:
  assumes "holds_at buf off bs"
  obtains a c where "buf = a @ bs @ c" and "length a = off"
proof -
  from assms obtain c where "off \<le> length buf" "drop off buf = bs @ c"
    by (auto simp: holds_at_def prefix_def)
  then show ?thesis
    using that [of "take off buf" c] by (metis append_take_drop_id length_take min.absorb2)
qed

lemma holds_at_mid [simp]: "holds_at (a @ bs @ c) (length a) bs"
  by (simp add: holds_at_def)

lemma holds_at_start [simp]: "holds_at (bs @ c) 0 bs" "holds_at bs 0 bs"
  by (simp_all add: holds_at_def)

lemma py_slice_at: "holds_at buf off bs \<Longrightarrow> j = off + length bs \<Longrightarrow> py_slice buf off j = bs"
  by (erule holds_at_split) (simp add: py_slice_def)

lemma byte_at_at: "holds_at buf off [b] \<Longrightarrow> byte_at buf off = Inr b"
  by (erule holds_at_split) (auto simp: byte_at_def nth_append)

lemma holds_at_Cons:
  "holds_at buf off (b # y) \<longleftrightarrow> byte_at buf off = Inr b \<and> holds_at buf (off + 1) y"
proof
  assume "holds_at buf off (b # y)"
  then have "holds_at buf off ([b] @ y)" by simp
  then show "byte_at buf off = Inr b \<and> holds_at buf (off + 1) y"
    unfolding holds_at_append by (simp add: byte_at_at)
next
  assume "byte_at buf off = Inr b \<and> holds_at buf (off + 1) y"
  then show "holds_at buf off (b # y)"
    by (auto simp: holds_at_def byte_at_Inr Cons_nth_drop_Suc [symmetric])
qed

section \<open>Dictionaries in insertion order\<close>

text \<open>
  Python's \<open>d[k] = v\<close> keeps the place of a key that is already there and appends a new key:
  \<open>AList.update\<close>.
\<close>

lemma update_new: "k \<notin> fst ` set d \<Longrightarrow> AList.update k v d = d @ [(k, v)]"
  by (induction d) auto

lemma map_of_Some_mem: "map_of d k = Some v \<Longrightarrow> k \<in> fst ` set d"
  by (induction d) (auto split: if_splits)

section \<open>Splitting and replacing\<close>

text \<open>\<open>s.split(sep, maxsplit)\<close> with a separator of one element, and \<open>s.replace(old, new)\<close> with an empty \<open>new\<close>.\<close>

fun py_split :: "'a \<Rightarrow> 'a list \<Rightarrow> nat \<Rightarrow> 'a list list" where
  "py_split sep s 0 = [s]"
| "py_split sep s (Suc n) =
     (if sep \<in> set s
      then takeWhile (\<lambda>c. c \<noteq> sep) s # py_split sep (tl (dropWhile (\<lambda>c. c \<noteq> sep) s)) n
      else [s])"

fun remove_all :: "'a list \<Rightarrow> 'a list \<Rightarrow> 'a list" where
  "remove_all old [] = []"
| "remove_all old (x # xs) =
     (if old \<noteq> [] \<and> prefix old (x # xs) then remove_all old (drop (length old - 1) xs)
      else x # remove_all old xs)"

lemma py_split_no_sep: "sep \<notin> set s \<Longrightarrow> py_split sep s n = [s]"
  by (cases n) simp_all

lemma py_split_sep: "sep \<notin> set a \<Longrightarrow> py_split sep (a @ sep # b) (Suc n) = a # py_split sep b n"
proof -
  assume "sep \<notin> set a"
  then have "takeWhile (\<lambda>c. c \<noteq> sep) (a @ sep # b) = a" "dropWhile (\<lambda>c. c \<noteq> sep) (a @ sep # b) = sep # b"
    by (induction a) auto
  then show ?thesis by simp
qed

lemma py_split_single: "py_split sep s (Suc n) = [x] \<Longrightarrow> sep \<notin> set s \<and> x = s"
  by (cases "n") (auto split: if_splits)

lemma py_split_Cons:
  assumes "py_split sep s (Suc n) = a # x # xs"
  obtains b where "s = a @ sep # b" and "sep \<notin> set a" and "py_split sep b n = x # xs"
proof -
  from assms have m: "sep \<in> set s" and a: "a = takeWhile (\<lambda>c. c \<noteq> sep) s"
    and r: "py_split sep (tl (dropWhile (\<lambda>c. c \<noteq> sep) s)) n = x # xs"
    by (auto split: if_splits)
  from m have "dropWhile (\<lambda>c. c \<noteq> sep) s \<noteq> []" by auto
  then obtain y b where d: "dropWhile (\<lambda>c. c \<noteq> sep) s = y # b" by (cases "dropWhile (\<lambda>c. c \<noteq> sep) s") auto
  then have "y = sep" using hd_dropWhile [of "\<lambda>c. c \<noteq> sep" s] by simp
  with d a takeWhile_dropWhile_id [of "\<lambda>c. c \<noteq> sep" s] have "s = a @ sep # b" by simp
  moreover have "sep \<notin> set a" using a by (auto dest: set_takeWhileD)
  ultimately show ?thesis using that r d by simp
qed

end
