(* ===== verification/Utf8.thy ===== *)
theory Utf8
  imports Prelude
begin

text \<open>
  Python's text strings and the UTF-8 codec the source calls: \<open>s.encode('utf-8', 'surrogatepass')\<close>
  and \<open>b.decode('utf-8', 'surrogatepass')\<close> (\<open>_str_to_bytes\<close>, \<open>_bytes_to_str\<close>, \<open>loads\<close>,
  \<open>dumps\<close>), and the strict forms of \<open>state.py\<close>, \<open>protocol.py\<close> and \<open>http_protocol.py\<close>. A string is
  the list of its code points. The flag \<open>sp\<close> is the error handler: True for \<open>surrogatepass\<close>.
\<close>

section \<open>Strings\<close>

type_synonym pystr = "nat list"

definition lit :: "string \<Rightarrow> pystr" where
  \<comment> \<open>an ASCII literal of the source\<close>
  "lit s = map of_char s"

lemma lit_inject [simp]: "lit s = lit t \<longleftrightarrow> s = t"
  unfolding lit_def by (rule inj_map_eq_map) (auto intro: injI)

lemma lit_Nil [simp]: "lit [] = []"
  and lit_eq_Nil [simp]: "lit s = [] \<longleftrightarrow> s = []"
  and Nil_eq_lit [simp]: "[] = lit s \<longleftrightarrow> s = []"
  by (simp_all add: lit_def)

definition is_surrogate :: "nat \<Rightarrow> bool" where
  "is_surrogate c \<longleftrightarrow> 0xD800 \<le> c \<and> c < 0xE000"

definition valid_cp :: "bool \<Rightarrow> nat \<Rightarrow> bool" where
  "valid_cp sp c \<longleftrightarrow> c < 0x110000 \<and> (sp \<or> \<not> is_surrogate c)"

abbreviation valid_str :: "bool \<Rightarrow> pystr \<Rightarrow> bool" where
  "valid_str sp \<equiv> list_all (valid_cp sp)"

section \<open>Encoding\<close>

definition byte_of :: "nat \<Rightarrow> byte" where
  "byte_of n = word_of_nat n"

definition tag :: "char \<Rightarrow> byte" where
  \<comment> \<open>the byte of an ASCII character, as in \<open>b'S'\<close>\<close>
  "tag c = byte_of (of_char c)"

lemma tag_inject [simp]: "tag c = tag d \<longleftrightarrow> c = d"
proof
  assume "tag c = tag d"
  then have "unat (tag c) = unat (tag d)" by simp
  then have "of_char c = (of_char d :: nat)"
    by (simp add: tag_def byte_of_def unat_of_nat)
  then show "c = d" by simp
qed simp

definition utf8_encode_cp :: "nat \<Rightarrow> bytes" where
  "utf8_encode_cp c =
     (if c < 0x80 then [byte_of c]
      else if c < 0x800 then [byte_of (0xC0 + c div 64), byte_of (0x80 + c mod 64)]
      else if c < 0x10000 then
        [byte_of (0xE0 + c div 4096), byte_of (0x80 + c div 64 mod 64), byte_of (0x80 + c mod 64)]
      else
        [byte_of (0xF0 + c div 262144), byte_of (0x80 + c div 4096 mod 64),
         byte_of (0x80 + c div 64 mod 64), byte_of (0x80 + c mod 64)])"

fun utf8_encode :: "bool \<Rightarrow> pystr \<Rightarrow> bytes result" where
  "utf8_encode sp [] = Inr []"
| "utf8_encode sp (c # cs) =
     (if valid_cp sp c
      then bindE (utf8_encode sp cs) (\<lambda>bs. Inr (utf8_encode_cp c @ bs))
      else Inl UnicodeEncodeError)"

section \<open>Decoding\<close>

definition cont_byte :: "byte \<Rightarrow> bool" where
  "cont_byte b \<longleftrightarrow> 0x80 \<le> unat b \<and> unat b < 0xC0"

text \<open>
  One character: its code point and the bytes after it. Continuation bytes are required, the
  shortest form is required, and a surrogate only passes under \<open>surrogatepass\<close>.
\<close>

definition utf8_step :: "bool \<Rightarrow> bytes \<Rightarrow> (nat \<times> bytes) result" where
  "utf8_step sp bs =
     (case bs of
        [] \<Rightarrow> Inl UnicodeDecodeError
      | b # r \<Rightarrow>
          if unat b < 0x80 then Inr (unat b, r)
          else if 0xC0 \<le> unat b \<and> unat b < 0xE0 then
            (case r of
               c1 # r1 \<Rightarrow>
                 (let c = (unat b - 0xC0) * 64 + (unat c1 - 0x80)
                  in if cont_byte c1 \<and> 0x80 \<le> c then Inr (c, r1) else Inl UnicodeDecodeError)
             | _ \<Rightarrow> Inl UnicodeDecodeError)
          else if 0xE0 \<le> unat b \<and> unat b < 0xF0 then
            (case r of
               c1 # c2 # r2 \<Rightarrow>
                 (let c = (unat b - 0xE0) * 4096 + (unat c1 - 0x80) * 64 + (unat c2 - 0x80)
                  in if cont_byte c1 \<and> cont_byte c2 \<and> 0x800 \<le> c \<and> (sp \<or> \<not> is_surrogate c)
                     then Inr (c, r2) else Inl UnicodeDecodeError)
             | _ \<Rightarrow> Inl UnicodeDecodeError)
          else if 0xF0 \<le> unat b \<and> unat b < 0xF8 then
            (case r of
               c1 # c2 # c3 # r3 \<Rightarrow>
                 (let c = (unat b - 0xF0) * 262144 + (unat c1 - 0x80) * 4096
                          + (unat c2 - 0x80) * 64 + (unat c3 - 0x80)
                  in if cont_byte c1 \<and> cont_byte c2 \<and> cont_byte c3
                        \<and> 0x10000 \<le> c \<and> c < 0x110000
                     then Inr (c, r3) else Inl UnicodeDecodeError)
             | _ \<Rightarrow> Inl UnicodeDecodeError)
          else Inl UnicodeDecodeError)"

lemma utf8_step_shorter: "utf8_step sp bs = Inr (c, r) \<Longrightarrow> length r < length bs"
  by (auto simp: utf8_step_def Let_def split: list.splits if_splits)

function utf8_decode :: "bool \<Rightarrow> bytes \<Rightarrow> pystr result" where
  "utf8_decode sp bs =
     (if bs = [] then Inr []
      else bindE (utf8_step sp bs) (\<lambda>(c, r). bindE (utf8_decode sp r) (\<lambda>cs. Inr (c # cs))))"
  by pat_completeness auto
termination
  by (relation "measure (\<lambda>(sp, bs). length bs)") (auto dest: utf8_step_shorter)

declare utf8_decode.simps [simp del]

lemma utf8_decode_Nil [simp]: "utf8_decode sp [] = Inr []"
  by (simp add: utf8_decode.simps)

lemma utf8_decode_Cons:
  "utf8_decode sp (b # bs) =
     bindE (utf8_step sp (b # bs)) (\<lambda>(c, r). bindE (utf8_decode sp r) (\<lambda>cs. Inr (c # cs)))"
  by (simp add: utf8_decode.simps [of sp "b # bs"])

lemma utf8_step_error: "utf8_step sp bs = Inl e \<Longrightarrow> e = UnicodeDecodeError"
  by (auto simp: utf8_step_def Let_def split: list.splits if_splits)

lemma utf8_decode_error: "utf8_decode sp bs = Inl e \<Longrightarrow> e = UnicodeDecodeError"
proof (induction sp bs rule: utf8_decode.induct)
  case (1 sp bs)
  then show ?case
    by (subst (asm) (2) utf8_decode.simps) (auto simp: bindE_eq_Inl dest: utf8_step_error split: if_splits)
qed

section \<open>The two directions agree\<close>

lemma unat_byte_of [simp]: "n < 256 \<Longrightarrow> unat (byte_of n) = n"
  by (simp add: byte_of_def unat_of_nat)

lemma byte_of_unat [simp]: "byte_of (unat b) = b"
  by (simp add: byte_of_def)

lemma utf8_encode_cp_nonempty: "utf8_encode_cp c \<noteq> []"
  by (simp add: utf8_encode_cp_def)

text \<open>The decoder's step on each length of sequence.\<close>

lemma utf8_step1: "c < 0x80 \<Longrightarrow> utf8_step sp (byte_of c # r) = Inr (c, r)"
  by (simp add: utf8_step_def)

lemma utf8_step2:
  assumes "a < 32" "b < 64" "c = a * 64 + b" "0x80 \<le> c"
  shows "utf8_step sp (byte_of (0xC0 + a) # byte_of (0x80 + b) # r) = Inr (c, r)"
  using assms by (simp add: utf8_step_def cont_byte_def)

lemma utf8_step3:
  assumes "a < 16" "b < 64" "d < 64" "c = a * 4096 + b * 64 + d" "0x800 \<le> c"
    and "sp \<or> \<not> is_surrogate c"
  shows "utf8_step sp (byte_of (0xE0 + a) # byte_of (0x80 + b) # byte_of (0x80 + d) # r)
    = Inr (c, r)"
  using assms by (simp add: utf8_step_def cont_byte_def)

lemma utf8_step4:
  assumes "a < 8" "b < 64" "d < 64" "e < 64" "c = a * 262144 + b * 4096 + d * 64 + e"
    and "0x10000 \<le> c" "c < 0x110000"
  shows "utf8_step sp
      (byte_of (0xF0 + a) # byte_of (0x80 + b) # byte_of (0x80 + d) # byte_of (0x80 + e) # r)
    = Inr (c, r)"
  using assms by (simp add: utf8_step_def cont_byte_def)

lemma split_base64_3: "(c::nat) = c div 4096 * 4096 + c div 64 mod 64 * 64 + c mod 64"
proof -
  have "c = c div 64 * 64 + c mod 64" and "c div 64 = c div 64 div 64 * 64 + c div 64 mod 64"
    by (rule div_mult_mod_eq [symmetric])+
  moreover have "c div 64 div 64 = c div 4096"
    by (simp flip: div_mult2_eq)
  ultimately show ?thesis by linarith
qed

lemma split_base64_4:
  "(c::nat) = c div 262144 * 262144 + c div 4096 mod 64 * 4096 + c div 64 mod 64 * 64 + c mod 64"
proof -
  have "c div 4096 = c div 4096 div 64 * 64 + c div 4096 mod 64"
    by (rule div_mult_mod_eq [symmetric])
  moreover have "c div 4096 div 64 = c div 262144"
    by (simp flip: div_mult2_eq)
  ultimately show ?thesis using split_base64_3 [of c] by linarith
qed

lemma utf8_step_encode_cp:
  assumes "valid_cp sp c"
  shows "utf8_step sp (utf8_encode_cp c @ r) = Inr (c, r)"
proof -
  consider "c < 0x80" | "0x80 \<le> c" "c < 0x800" | "0x800 \<le> c" "c < 0x10000" | "0x10000 \<le> c"
    by linarith
  then show ?thesis
  proof cases
    case 1
    then show ?thesis by (simp add: utf8_encode_cp_def utf8_step1)
  next
    case 2
    have "utf8_step sp (byte_of (0xC0 + c div 64) # byte_of (0x80 + c mod 64) # r) = Inr (c, r)"
      by (rule utf8_step2) (use 2 in auto)
    with 2 show ?thesis by (simp add: utf8_encode_cp_def)
  next
    case 3
    have "utf8_step sp (byte_of (0xE0 + c div 4096) # byte_of (0x80 + c div 64 mod 64)
        # byte_of (0x80 + c mod 64) # r) = Inr (c, r)"
      by (rule utf8_step3 [OF _ _ _ split_base64_3]) (use 3 assms in \<open>auto simp: valid_cp_def\<close>)
    with 3 show ?thesis by (simp add: utf8_encode_cp_def)
  next
    case 4
    have "utf8_step sp (byte_of (0xF0 + c div 262144) # byte_of (0x80 + c div 4096 mod 64)
        # byte_of (0x80 + c div 64 mod 64) # byte_of (0x80 + c mod 64) # r) = Inr (c, r)"
      by (rule utf8_step4 [OF _ _ _ _ split_base64_4]) (use 4 assms in \<open>auto simp: valid_cp_def\<close>)
    with 4 show ?thesis by (simp add: utf8_encode_cp_def)
  qed
qed

lemma utf8_decode_encode:
  "utf8_encode sp s = Inr bs \<Longrightarrow> utf8_decode sp bs = Inr s"
proof (induction s arbitrary: bs)
  case Nil
  then show ?case by simp
next
  case (Cons c cs)
  then obtain bs' where v: "valid_cp sp c" and bs': "utf8_encode sp cs = Inr bs'"
    and bs: "bs = utf8_encode_cp c @ bs'"
    by (auto split: if_splits)
  have "bs \<noteq> []"
    by (simp add: bs utf8_encode_cp_nonempty)
  with utf8_step_encode_cp [OF v, of bs'] Cons.IH [OF bs'] show ?case
    by (simp add: bs utf8_decode.simps [of sp "utf8_encode_cp c @ bs'"] utf8_encode_cp_nonempty)
qed

lemma utf8_encode_total: "valid_str sp s \<longleftrightarrow> (\<exists>bs. utf8_encode sp s = Inr bs)"
  by (induction s) (auto simp: bindE_eq_Inr)

text \<open>
  And back: a step's character encodes to the bytes the step consumed, so that encoding a decoded
  string gives the bytes it was decoded from.
\<close>

lemma utf8_encode_cp2:
  assumes "b < 64" "0x80 \<le> a * 64 + b" "a < 32"
  shows "utf8_encode_cp (a * 64 + b) = [byte_of (0xC0 + a), byte_of (0x80 + b)]"
  using assms by (simp add: utf8_encode_cp_def)

lemma base64_mod: "d < 64 \<Longrightarrow> (q * 64 + d) mod 64 = (d::nat)"
  and base64_div: "d < 64 \<Longrightarrow> (q * 64 + d) div 64 = (q::nat)"
  by (simp_all only: mod_mult_self3 mod_less)

lemma div_4096: "(c::nat) div 4096 = c div 64 div 64"
  and div_262144: "(c::nat) div 262144 = c div 64 div 64 div 64"
  by (simp_all flip: div_mult2_eq)

lemma utf8_encode_cp3:
  assumes "b < 64" "d < 64" "0x800 \<le> a * 4096 + b * 64 + d" "a < 16"
  shows "utf8_encode_cp (a * 4096 + b * 64 + d)
    = [byte_of (0xE0 + a), byte_of (0x80 + b), byte_of (0x80 + d)]"
proof -
  define c where "c = a * 4096 + b * 64 + d"
  have c: "c = (a * 64 + b) * 64 + d" by (simp add: c_def)
  then have "c mod 64 = d" and "c div 64 = a * 64 + b"
    using assms by (simp_all only: base64_mod base64_div)
  moreover have "c < 0x10000" "0x800 \<le> c" using assms by (simp_all add: c_def)
  ultimately show ?thesis
    using assms base64_mod [of b a] base64_div [of b a]
    by (simp add: utf8_encode_cp_def div_4096 flip: c_def)
qed

lemma utf8_encode_cp4:
  assumes "b < 64" "d < 64" "e < 64" "0x10000 \<le> a * 262144 + b * 4096 + d * 64 + e"
  shows "utf8_encode_cp (a * 262144 + b * 4096 + d * 64 + e)
    = [byte_of (0xF0 + a), byte_of (0x80 + b), byte_of (0x80 + d), byte_of (0x80 + e)]"
proof -
  define c where "c = a * 262144 + b * 4096 + d * 64 + e"
  define q where "q = (a * 64 + b) * 64 + d"
  have c: "c = q * 64 + e" by (simp add: c_def q_def)
  then have "c mod 64 = e" and "c div 64 = q"
    using assms by (simp_all only: base64_mod base64_div)
  moreover have "q mod 64 = d" and "q div 64 = a * 64 + b"
    using assms by (simp_all only: q_def base64_mod base64_div)
  moreover have "0x10000 \<le> c" using assms by (simp add: c_def)
  ultimately show ?thesis
    using assms base64_mod [of b a] base64_div [of b a]
    by (simp add: utf8_encode_cp_def div_4096 div_262144 flip: c_def)
qed

lemma cont_byteE:
  assumes "cont_byte b"
  obtains d where "d < 64" and "unat b = 0x80 + d" and "b = byte_of (0x80 + d)"
proof
  show "unat b - 0x80 < 64" and "unat b = 0x80 + (unat b - 0x80)"
    using assms by (auto simp: cont_byte_def)
  show "b = byte_of (0x80 + (unat b - 0x80))"
    using assms by (simp add: cont_byte_def)
qed

lemma lead_byteE:
  assumes "k \<le> unat b" and "unat b < k + n"
  obtains a where "a < n" and "unat b = k + a" and "b = byte_of (k + a)"
proof
  show "unat b - k < n" and "unat b = k + (unat b - k)" and "b = byte_of (k + (unat b - k))"
    using assms by auto
qed

lemma utf8_step_inv:
  assumes "utf8_step sp bs = Inr (c, r)"
  shows "bs = utf8_encode_cp c @ r"
proof -
  from assms obtain b t where bs: "bs = b # t"
    by (auto simp: utf8_step_def split: list.splits)
  consider "unat b < 0x80" | "0xC0 \<le> unat b" "unat b < 0xC0 + 32"
    | "0xE0 \<le> unat b" "unat b < 0xE0 + 16" | "0xF0 \<le> unat b" "unat b < 0xF0 + 8"
    using assms by (force simp: utf8_step_def bs split: if_splits)
  then show ?thesis
  proof cases
    case 1
    with assms show ?thesis by (auto simp: utf8_step_def bs utf8_encode_cp_def)
  next
    case 2
    then obtain a where a: "a < 32" "unat b = 0xC0 + a" "b = byte_of (0xC0 + a)"
      by (rule lead_byteE)
    with assms show ?thesis
      by (auto simp: utf8_step_def bs Let_def utf8_encode_cp2
          split: list.splits if_splits elim!: cont_byteE)
  next
    case 3
    then obtain a where a: "a < 16" "unat b = 0xE0 + a" "b = byte_of (0xE0 + a)"
      by (rule lead_byteE)
    with assms show ?thesis
      by (auto simp: utf8_step_def bs Let_def utf8_encode_cp3
          split: list.splits if_splits elim!: cont_byteE)
  next
    case 4
    then obtain a where a: "a < 8" "unat b = 0xF0 + a" "b = byte_of (0xF0 + a)"
      by (rule lead_byteE)
    with assms show ?thesis
      by (auto simp: utf8_step_def bs Let_def utf8_encode_cp4
          split: list.splits if_splits elim!: cont_byteE)
  qed
qed

lemma utf8_step_valid:
  assumes "utf8_step sp bs = Inr (c, r)"
  shows "valid_cp sp c"
proof -
  from assms obtain b t where bs: "bs = b # t"
    by (auto simp: utf8_step_def split: list.splits)
  show ?thesis
    using assms unfolding bs
    by (auto simp: utf8_step_def valid_cp_def is_surrogate_def Let_def
        split: list.splits if_splits elim!: cont_byteE)
qed

lemma utf8_encode_decode:
  "utf8_decode sp bs = Inr s \<Longrightarrow> utf8_encode sp s = Inr bs"
proof (induction sp bs arbitrary: s rule: utf8_decode.induct)
  case (1 sp bs)
  show ?case
  proof (cases "bs = []")
    case True
    with "1.prems" show ?thesis by simp
  next
    case False
    with "1.prems" obtain c r cs where step: "utf8_step sp bs = Inr (c, r)"
      and cs: "utf8_decode sp r = Inr cs" and s: "s = c # cs"
      by (auto simp: utf8_decode.simps [of sp bs] elim!: bindE_InrE)
    have "utf8_encode sp cs = Inr r"
      by (rule "1.IH" [OF False step refl cs])
    with utf8_step_inv [OF step] utf8_step_valid [OF step] show ?thesis by (simp add: s)
  qed
qed

lemma utf8_decode_valid: "utf8_decode sp bs = Inr s \<Longrightarrow> valid_str sp s"
  using utf8_encode_decode utf8_encode_total by blast

end
