(* ===== verification/Struct_Codec.thy ===== *)
theory Struct_Codec
  imports Prelude
begin

text \<open>
  The part of Python's \<open>struct\<close> module the source calls: \<open>pack\<close> and \<open>unpack_from\<close> with one
  big-endian integer of 1, 2, 4 or 8 bytes (\<open>>B >H >I >Q\<close> unsigned, \<open>>b >h >i >q\<close> two's
  complement), and the IEEE formats \<open>>f\<close> and \<open>>d\<close>. The interface \<open>int_codec\<close> is what the
  serializer relies on; it is interpreted for each width.
\<close>

section \<open>Big-endian integers\<close>

fun be_int :: "bytes \<Rightarrow> int \<Rightarrow> int" where
  "be_int [] acc = acc"
| "be_int (b # bs) acc = be_int bs (acc * 256 + uint b)"

fun be_bytes :: "nat \<Rightarrow> int \<Rightarrow> bytes" where
  "be_bytes 0 v = []"
| "be_bytes (Suc n) v = be_bytes n (v div 256) @ [word_of_int v]"

lemma length_be_bytes [simp]: "length (be_bytes n v) = n"
  by (induction n arbitrary: v) auto

lemma be_bytes_eval:
  "be_bytes 1 v = [word_of_int v]"
  "be_bytes (Suc 0) v = [word_of_int v]"
  "be_bytes 2 v = [word_of_int (v div 256), word_of_int v]"
  "be_bytes 4 v = [word_of_int (v div 256 div 256 div 256), word_of_int (v div 256 div 256),
     word_of_int (v div 256), word_of_int v]"
  "be_bytes 8 v = be_bytes 4 (v div 256 div 256 div 256 div 256) @ be_bytes 4 v"
  by (simp_all add: numeral_eq_Suc)

lemma be_int_append: "be_int (a @ b) acc = be_int b (be_int a acc)"
  by (induction a arbitrary: acc) auto

lemma be_int_acc: "be_int bs acc = acc * 256 ^ length bs + be_int bs 0"
proof (induction bs arbitrary: acc)
  case Nil
  then show ?case by simp
next
  case (Cons b bs)
  show ?case
    using Cons [of "acc * 256 + uint b"] Cons [of "uint b"] by (simp add: algebra_simps)
qed

lemma be_int_bounds: "0 \<le> be_int bs 0 \<and> be_int bs 0 < 256 ^ length bs"
proof (induction bs rule: rev_induct)
  case Nil
  then show ?case by simp
next
  case (snoc b bs)
  have "0 \<le> uint b" and "uint b < 256"
    using uint_bounded [of b] by simp_all
  with snoc show ?case by (simp add: be_int_append)
qed

lemma be_int_be_bytes: "be_int (be_bytes n v) 0 = v mod 256 ^ n"
proof (induction n arbitrary: v)
  case 0
  then show ?case by simp
next
  case (Suc n)
  have "v mod (256 * 256 ^ n) = 256 * (v div 256 mod 256 ^ n) + v mod 256"
    by (rule zmod_zmult2_eq) simp
  then show ?case
    by (simp add: be_int_append Suc uint_word_of_int)
qed

lemma be_bytes_be_int: "be_bytes (length bs) (be_int bs 0) = bs"
proof (induction bs rule: rev_induct)
  case Nil
  then show ?case by simp
next
  case (snoc b bs)
  have "0 \<le> uint b" and "uint b < 256"
    using uint_bounded [of b] by simp_all
  moreover have "word_of_int (be_int bs 0 * 256 + uint b) = b"
  proof -
    have "(256 :: byte) = 0" by simp
    then show ?thesis by (simp only: of_int_add of_int_mult of_int_numeral word_of_int_uint) simp
  qed
  ultimately show ?case using snoc by (simp add: be_int_append)
qed

section \<open>pack and unpack\<close>

definition unpack_u :: "nat \<Rightarrow> bytes \<Rightarrow> nat \<Rightarrow> int result" where
  "unpack_u n buf off =
     (if off + n \<le> length buf then Inr (be_int (py_slice buf off (off + n)) 0)
      else Inl StructError)"

definition unpack_s :: "nat \<Rightarrow> bytes \<Rightarrow> nat \<Rightarrow> int result" where
  "unpack_s n buf off =
     bindE (unpack_u n buf off)
       (\<lambda>v. Inr (if 2 * v < 256 ^ n then v else v - 256 ^ n))"

definition pack_u :: "nat \<Rightarrow> int \<Rightarrow> bytes result" where
  "pack_u n v = (if 0 \<le> v \<and> v < 256 ^ n then Inr (be_bytes n v) else Inl StructError)"

definition pack_s :: "nat \<Rightarrow> int \<Rightarrow> bytes result" where
  "pack_s n v =
     (if - (256 ^ n) \<le> 2 * v \<and> 2 * v < 256 ^ n then Inr (be_bytes n (v mod 256 ^ n))
      else Inl StructError)"

section \<open>The interface of a fixed-width integer format\<close>

locale int_codec =
  fixes width :: nat
    and ok :: "int \<Rightarrow> bool"
    and pack :: "int \<Rightarrow> bytes result"
    and unpack :: "bytes \<Rightarrow> nat \<Rightarrow> int result"
  assumes pack_ok: "ok v \<Longrightarrow> \<exists>bs. pack v = Inr bs \<and> length bs = width"
    and pack_bad: "\<not> ok v \<Longrightarrow> pack v = Inl StructError"
    and unpack_pack: "pack v = Inr bs \<Longrightarrow> unpack (a @ bs @ c) (length a) = Inr v"
    and unpack_short: "length buf < off + width \<Longrightarrow> unpack buf off = Inl StructError"
    and unpack_ok: "off + width \<le> length buf \<Longrightarrow> \<exists>v. unpack buf off = Inr v \<and> ok v"
    and unpack_ext: "off + width \<le> length buf \<Longrightarrow> unpack (buf @ c) off = unpack buf off"
begin

lemma pack_Inr_ok: "pack v = Inr bs \<Longrightarrow> ok v"
  using pack_bad [of v] by (cases "ok v") auto

lemma pack_length: "pack v = Inr bs \<Longrightarrow> length bs = width"
  using pack_ok [of v] pack_bad [of v] by (cases "ok v") auto

lemma unpack_at: "pack v = Inr bs \<Longrightarrow> holds_at buf off bs \<Longrightarrow> unpack buf off = Inr v"
  by (erule holds_at_split) (auto simp: unpack_pack)

lemma field_at:
  "pack v = Inr bs \<Longrightarrow>
     (\<forall>buf off. holds_at buf off bs \<longrightarrow> unpack buf off = Inr v) \<and> length bs = width"
  using unpack_at pack_length by blast

lemma tagged_field:
  assumes "bindE (pack v) (\<lambda>d. Inr (t # d)) = Inr bs" and "holds_at buf off bs"
  shows "byte_at buf off = Inr t \<and> unpack buf (off + 1) = Inr v \<and> length bs = width + 1"
proof -
  from assms(1) obtain d where d: "pack v = Inr d" and bs: "bs = t # d"
    by (auto simp: bindE_eq_Inr)
  with assms(2) have "byte_at buf off = Inr t" and h: "holds_at buf (off + 1) d"
    by (auto simp: holds_at_Cons)
  with unpack_at [OF d h] pack_length [OF d] show ?thesis by (simp add: bs)
qed

lemma unpack_pack_first: "pack v = Inr bs \<Longrightarrow> unpack (bs @ c) 0 = Inr v"
  using unpack_pack [of v bs "[]" c] by simp

lemma unpack_Inr_iff: "(\<exists>v. unpack buf off = Inr v) \<longleftrightarrow> off + width \<le> length buf"
  using unpack_ok [of off buf] unpack_short [of buf off] by (cases "off + width \<le> length buf") auto

lemma unpack_InrD: "unpack buf off = Inr v \<Longrightarrow> off + width \<le> length buf \<and> ok v"
  using unpack_ok [of off buf] unpack_short [of buf off]
  by (cases "off + width \<le> length buf") auto

lemma unpack_error: "unpack buf off = Inl e \<Longrightarrow> e = StructError"
  using unpack_ok [of off buf] unpack_short [of buf off]
  by (cases "off + width \<le> length buf") auto

lemma pack_inject: "pack v = Inr bs \<Longrightarrow> pack w = Inr bs \<Longrightarrow> v = w"
  using unpack_pack_first [of v bs "[]"] unpack_pack_first [of w bs "[]"] by simp

end

lemma unpack_u_mid: "unpack_u (length bs) (a @ bs @ c) (length a) = Inr (be_int bs 0)"
  by (simp add: unpack_u_def py_slice_def)

lemma unpack_u_ext: "off + n \<le> length buf \<Longrightarrow> unpack_u n (buf @ c) off = unpack_u n buf off"
  by (simp add: unpack_u_def py_slice_append_left)

lemma unpack_u_bounds: "unpack_u n buf off = Inr v \<Longrightarrow> 0 \<le> v \<and> v < 256 ^ n"
  using be_int_bounds [of "py_slice buf off (off + n)"]
  by (auto simp: unpack_u_def split: if_splits)

lemma unpack_u_pack_u: "pack_u n v = Inr bs \<Longrightarrow> unpack_u n (a @ bs @ c) (length a) = Inr v"
  using unpack_u_mid [of "be_bytes n v" a c]
  by (auto simp: pack_u_def be_int_be_bytes split: if_splits)

lemma int_codec_unsigned:
  "int_codec n (\<lambda>v. 0 \<le> v \<and> v < 256 ^ n) (pack_u n) (unpack_u n)"
proof
  show "\<exists>v. unpack_u n buf off = Inr v \<and> 0 \<le> v \<and> v < 256 ^ n" if "off + n \<le> length buf" for off buf
    using that unpack_u_bounds [of n buf off] by (auto simp: unpack_u_def)
qed (auto simp: pack_u_def unpack_u_pack_u unpack_u_ext, auto simp: unpack_u_def)

lemma mod_neg: "- m \<le> 2 * v \<Longrightarrow> v < 0 \<Longrightarrow> v mod m = v + (m::int)"
  using mod_pos_pos_trivial [of "v + m" m] by simp

lemma unpack_s_pack_s:
  assumes "pack_s n v = Inr bs"
  shows "unpack_s n (a @ bs @ c) (length a) = Inr v"
proof -
  have v: "- (256 ^ n) \<le> 2 * v" "2 * v < 256 ^ n" and bs: "bs = be_bytes n (v mod 256 ^ n)"
    using assms by (auto simp: pack_s_def split: if_splits)
  have "unpack_u n (a @ bs @ c) (length a) = Inr (v mod 256 ^ n)"
    using unpack_u_mid [of bs a c] by (simp add: bs be_int_be_bytes)
  moreover have "v mod 256 ^ n = (if 0 \<le> v then v else v + 256 ^ n)"
    using v by (auto intro: mod_pos_pos_trivial mod_neg)
  ultimately show ?thesis using v by (auto simp: unpack_s_def)
qed

lemma int_codec_signed:
  "int_codec n (\<lambda>v. - (256 ^ n) \<le> 2 * v \<and> 2 * v < 256 ^ n) (pack_s n) (unpack_s n)"
proof
  show "\<exists>v. unpack_s n buf off = Inr v \<and> - (256 ^ n) \<le> 2 * v \<and> 2 * v < 256 ^ n"
    if "off + n \<le> length buf" for off buf
  proof -
    from that obtain v where "unpack_u n buf off = Inr v" by (auto simp: unpack_u_def)
    with unpack_u_bounds [OF this] show ?thesis by (auto simp: unpack_s_def)
  qed
  show "unpack_s n (a @ bs @ c) (length a) = Inr v" if "pack_s n v = Inr bs" for v bs a c
    by (rule unpack_s_pack_s [OF that])
qed (auto simp: pack_s_def unpack_s_def unpack_u_def py_slice_append_left)

text \<open>The formats the source uses, by their letter.\<close>

definition unpack_B :: "bytes \<Rightarrow> nat \<Rightarrow> int result" where "unpack_B = unpack_u 1"
definition unpack_H :: "bytes \<Rightarrow> nat \<Rightarrow> int result" where "unpack_H = unpack_u 2"
definition unpack_I :: "bytes \<Rightarrow> nat \<Rightarrow> int result" where "unpack_I = unpack_u 4"
definition unpack_Q :: "bytes \<Rightarrow> nat \<Rightarrow> int result" where "unpack_Q = unpack_u 8"
definition unpack_b :: "bytes \<Rightarrow> nat \<Rightarrow> int result" where "unpack_b = unpack_s 1"
definition unpack_h :: "bytes \<Rightarrow> nat \<Rightarrow> int result" where "unpack_h = unpack_s 2"
definition unpack_i :: "bytes \<Rightarrow> nat \<Rightarrow> int result" where "unpack_i = unpack_s 4"
definition unpack_q :: "bytes \<Rightarrow> nat \<Rightarrow> int result" where "unpack_q = unpack_s 8"
definition pack_B :: "int \<Rightarrow> bytes result" where "pack_B = pack_u 1"
definition pack_H :: "int \<Rightarrow> bytes result" where "pack_H = pack_u 2"
definition pack_I :: "int \<Rightarrow> bytes result" where "pack_I = pack_u 4"
definition pack_Q :: "int \<Rightarrow> bytes result" where "pack_Q = pack_u 8"
definition pack_i :: "int \<Rightarrow> bytes result" where "pack_i = pack_s 4"
definition pack_q :: "int \<Rightarrow> bytes result" where "pack_q = pack_s 8"

interpretation u8: int_codec 1 "\<lambda>v. 0 \<le> v \<and> v < 256 ^ 1" pack_B unpack_B
  unfolding pack_B_def unpack_B_def by (rule int_codec_unsigned)

interpretation u16: int_codec 2 "\<lambda>v. 0 \<le> v \<and> v < 256 ^ 2" pack_H unpack_H
  unfolding pack_H_def unpack_H_def by (rule int_codec_unsigned)

interpretation u32: int_codec 4 "\<lambda>v. 0 \<le> v \<and> v < 256 ^ 4" pack_I unpack_I
  unfolding pack_I_def unpack_I_def by (rule int_codec_unsigned)

interpretation u64: int_codec 8 "\<lambda>v. 0 \<le> v \<and> v < 256 ^ 8" pack_Q unpack_Q
  unfolding pack_Q_def unpack_Q_def by (rule int_codec_unsigned)

interpretation i8: int_codec 1 "\<lambda>v. - (256 ^ 1) \<le> 2 * v \<and> 2 * v < 256 ^ 1" "pack_s 1" unpack_b
  unfolding unpack_b_def by (rule int_codec_signed)

interpretation i16: int_codec 2 "\<lambda>v. - (256 ^ 2) \<le> 2 * v \<and> 2 * v < 256 ^ 2" "pack_s 2" unpack_h
  unfolding unpack_h_def by (rule int_codec_signed)

interpretation i32: int_codec 4 "\<lambda>v. - (256 ^ 4) \<le> 2 * v \<and> 2 * v < 256 ^ 4" pack_i unpack_i
  unfolding pack_i_def unpack_i_def by (rule int_codec_signed)

interpretation i64: int_codec 8 "\<lambda>v. - (256 ^ 8) \<le> 2 * v \<and> 2 * v < 256 ^ 8" pack_q unpack_q
  unfolding pack_q_def unpack_q_def by (rule int_codec_signed)

end
