(* ===== verification/Ieee.thy ===== *)
theory Ieee
  imports Struct_Codec
begin

text \<open>
  The IEEE formats of \<open>struct\<close> on bit patterns: a Python float is the 64-bit pattern of its
  double. \<open>>d\<close> moves the pattern as it is; \<open>>f\<close> widens a single exactly when it is read and
  rounds to the nearest single, ties to even, when it is written, where a finite float out of
  range is an OverflowError.
\<close>

type_synonym float_bits = "64 word"

fun bitlen :: "nat \<Rightarrow> nat" where
  "bitlen n = (if n = 0 then 0 else Suc (bitlen (n div 2)))"

declare bitlen.simps [simp del]

definition round_half_even :: "nat \<Rightarrow> nat \<Rightarrow> nat" where
  "round_half_even num den =
     (let q = num div den; r = num mod den
      in if den < 2 * r \<or> (den = 2 * r \<and> odd q) then q + 1 else q)"

lemma bitlen_eval:
  "bitlen 0 = 0"
  "bitlen (Suc 0) = 1"
  "bitlen (numeral k) = Suc (bitlen (numeral k div 2))"
proof -
  show zero: "bitlen 0 = 0" by (simp add: bitlen.simps)
  show "bitlen (Suc 0) = 1" by (simp add: zero bitlen.simps [of "Suc 0"])
  show "bitlen (numeral k) = Suc (bitlen (numeral k div 2))"
    by (simp add: bitlen.simps [of "numeral k"])
qed

text \<open>A factor of \<open>2 ^ k\<close>, for a positive \<open>k\<close>.\<close>

definition scaled :: "nat \<Rightarrow> int \<Rightarrow> nat" where
  "scaled n k = n * 2 ^ nat k"

text \<open>
  The pattern of \<open>num / den * 2 ^ k\<close> without its sign bit, in a format with \<open>mb\<close> fraction bits
  and \<open>eb\<close> exponent bits; None when it rounds past the largest finite value. The leading bit of
  the significand is added into the exponent field, so that a subnormal result and a carry out
  of rounding need no case of their own.
\<close>

definition ieee_round :: "nat \<Rightarrow> nat \<Rightarrow> nat \<Rightarrow> nat \<Rightarrow> int \<Rightarrow> nat option" where
  "ieee_round mb eb num den k =
     (if num = 0 then Some 0
      else
        (let d = int (bitlen num) - int (bitlen den);
             e = k + (if scaled den d \<le> scaled num (- d) then d else d - 1);
             emin = 2 - 2 ^ (eb - 1);
             q = max e emin - int mb - k;
             n = round_half_even (scaled num (- q)) (scaled den q);
             bits = nat (max e emin - emin) * 2 ^ mb + n
         in if bits < (2 ^ eb - 1) * 2 ^ mb then Some bits else None))"

text \<open>Reading \<open>>f\<close>: the double with the value of a 32-bit pattern; a NaN is made quiet.\<close>

definition f64_of_f32 :: "int \<Rightarrow> float_bits" where
  "f64_of_f32 v =
     (let sign = v div 2 ^ 31; e = nat (v div 2 ^ 23 mod 2 ^ 8); f = nat (v mod 2 ^ 23);
          mag = (if e = 255 then
                   2047 * 2 ^ 52 + (if f = 0 then 0 else 2 ^ 51 + f mod 2 ^ 22 * 2 ^ 29)
                 else if e \<noteq> 0 then (e + 896) * 2 ^ 52 + f * 2 ^ 29
                 else if f = 0 then 0
                 else (let k = bitlen f
                       in (k + 873) * 2 ^ 52 + (f - 2 ^ (k - 1)) * 2 ^ (53 - k)))
      in word_of_int (sign * 2 ^ 63 + int mag))"

text \<open>Writing \<open>>f\<close>: the 32-bit pattern nearest to a double.\<close>

definition f32_of_f64 :: "float_bits \<Rightarrow> int result" where
  "f32_of_f64 w =
     (let v = uint w; sign = v div 2 ^ 63; e = nat (v div 2 ^ 52 mod 2 ^ 11); f = nat (v mod 2 ^ 52)
      in if e = 2047 then
           Inr (sign * 2 ^ 31 + 255 * 2 ^ 23
                + (if f = 0 then 0 else 2 ^ 22 + int (f div 2 ^ 29 mod 2 ^ 22)))
         else
           (case ieee_round 23 8 (if e = 0 then f else f + 2 ^ 52) 1 (int (max e 1) - 1075) of
              Some mag \<Rightarrow> Inr (sign * 2 ^ 31 + int mag)
            | None \<Rightarrow> Inl OverflowError))"

text \<open>The double nearest to \<open>num / den\<close>, negated if \<open>neg\<close>.\<close>

definition f64_of_ratio :: "bool \<Rightarrow> nat \<Rightarrow> nat \<Rightarrow> float_bits option" where
  "f64_of_ratio neg num den =
     map_option (\<lambda>mag. word_of_int ((if neg then 2 ^ 63 else 0) + int mag)) (ieee_round 52 11 num den 0)"

lemma widen_examples:
  "f64_of_f32 0x3FC00000 = 0x3FF8000000000000"
  "f64_of_f32 0x00000001 = 0x36A0000000000000"
  "f64_of_f32 0xFF800000 = 0xFFF0000000000000"
  by (simp_all add: f64_of_f32_def bitlen_eval)

end
