(* ===== verification/Py_Value.thy ===== *)
theory Py_Value
  imports Utf8 Ieee
begin

text \<open>
  The Python values that flow through the serializer, the broker's state and the protocols, with
  the operations of the language that the source applies to them: truth value, \<open>int()\<close>, \<open>in\<close>,
  subscription, and the conversions of \<open>Decimal\<close> and \<open>datetime\<close> used on table fields.
\<close>

section \<open>Values\<close>

text \<open>
  A float is the pattern of its double; a decimal its sign, coefficient and exponent; a datetime
  the seconds of the naive UTC time since the epoch (the source only makes whole seconds); a
  dictionary its items in insertion order (the source's keys are strings); a tuple is a list.
  \<open>PObj\<close> is any object of another class.
\<close>

datatype pyval =
    PNone
  | PBool bool
  | PInt int
  | PFloat float_bits
  | PStr pystr
  | PBytes bytes
  | PDecimal bool nat int
  | PDatetime int
  | PDict "(pystr \<times> pyval) list"
  | PList "pyval list"
  | PObj nat

type_synonym pydict = "(pystr \<times> pyval) list"

fun truthy :: "pyval \<Rightarrow> bool" where
  "truthy PNone = False"
| "truthy (PBool b) = b"
| "truthy (PInt i) = (i \<noteq> 0)"
| "truthy (PFloat w) = (w AND 0x7FFFFFFFFFFFFFFF \<noteq> 0)"
| "truthy (PStr s) = (s \<noteq> [])"
| "truthy (PBytes b) = (b \<noteq> [])"
| "truthy (PDecimal _ c _) = (c \<noteq> 0)"
| "truthy (PDatetime _) = True"
| "truthy (PDict d) = (d \<noteq> [])"
| "truthy (PList l) = (l \<noteq> [])"
| "truthy (PObj _) = True"

definition or_else :: "pyval \<Rightarrow> pyval \<Rightarrow> pyval" where
  \<comment> \<open>\<open>v or w\<close>\<close>
  "or_else v w = (if truthy v then v else w)"

section \<open>Integers\<close>

text \<open>An argument of an integer format of \<open>pack\<close>: an int or a bool, anything else is a struct.error.\<close>

fun as_index :: "pyval \<Rightarrow> int result" where
  "as_index (PInt i) = Inr i"
| "as_index (PBool b) = Inr (of_bool b)"
| "as_index _ = Inl StructError"

text \<open>
  \<open>int(s)\<close> on text: surrounding white space (of Unicode for a string, of ASCII for bytes), a sign,
  decimal digits with single underscores between them. Digits outside ASCII are not modelled: they
  are errors here.
\<close>

definition is_space :: "nat \<Rightarrow> bool" where
  "is_space c \<longleftrightarrow> c \<in> {9, 10, 11, 12, 13, 28, 29, 30, 31, 32, 0x85, 0xA0, 0x1680, 0x2028, 0x2029,
     0x202F, 0x205F, 0x3000} \<or> (0x2000 \<le> c \<and> c \<le> 0x200A)"

definition is_ascii_space :: "nat \<Rightarrow> bool" where
  "is_ascii_space c \<longleftrightarrow> c \<in> {9, 10, 11, 12, 13, 32}"

definition strip :: "(nat \<Rightarrow> bool) \<Rightarrow> pystr \<Rightarrow> pystr" where
  "strip sp s = rev (dropWhile sp (rev (dropWhile sp s)))"

definition digit_value :: "nat \<Rightarrow> int result" where
  "digit_value c = (if 48 \<le> c \<and> c < 58 then Inr (int c - 48) else Inl ValueError)"

fun digits_value :: "pystr \<Rightarrow> int \<Rightarrow> int result" where
  "digits_value [] acc = Inl ValueError"
| "digits_value [c] acc = bindE (digit_value c) (\<lambda>d. Inr (acc * 10 + d))"
| "digits_value (c # c' # cs) acc =
     bindE (digit_value c) (\<lambda>d.
       if c' = 95 then digits_value cs (acc * 10 + d) else digits_value (c' # cs) (acc * 10 + d))"

definition int_of_str :: "(nat \<Rightarrow> bool) \<Rightarrow> pystr \<Rightarrow> int result" where
  "int_of_str sp s =
     (case strip sp s of
        [] \<Rightarrow> Inl ValueError
      | c # cs \<Rightarrow>
          if c = 43 then digits_value cs 0
          else if c = 45 then bindE (digits_value cs 0) (\<lambda>v. Inr (- v))
          else digits_value (c # cs) 0)"

text \<open>\<open>int(f)\<close>: the truncation of a float, an error for an infinity or a NaN.\<close>

definition int_of_float :: "float_bits \<Rightarrow> int result" where
  "int_of_float w =
     (let v = uint w; e = v div 2 ^ 52 mod 2 ^ 11; f = v mod 2 ^ 52;
          m = (if e = 0 then f else f + 2 ^ 52); k = max e 1 - 1075;
          a = (if 0 \<le> k then m * 2 ^ nat k else m div 2 ^ nat (- k))
      in if e = 2047 then Inl (if f = 0 then OverflowError else ValueError)
         else Inr (if v < 2 ^ 63 then a else - a))"

fun py_int :: "pyval \<Rightarrow> int result" where
  "py_int (PInt i) = Inr i"
| "py_int (PBool b) = Inr (of_bool b)"
| "py_int (PFloat w) = int_of_float w"
| "py_int (PStr s) = int_of_str is_space s"
| "py_int (PBytes b) = int_of_str is_ascii_space (map unat b)"
| "py_int (PDecimal neg c e) =
     (let a = (if 0 \<le> e then int c * 10 ^ nat e else int c div 10 ^ nat (- e))
      in Inr (if neg then - a else a))"
| "py_int _ = Inl TypeError"

text \<open>
  An argument of a float format of \<open>pack\<close>: a float, an int or bool that fits a double, or a decimal
  through its nearest double.
\<close>

fun as_float :: "pyval \<Rightarrow> float_bits result" where
  "as_float (PFloat w) = Inr w"
| "as_float (PInt i) =
     (case f64_of_ratio (i < 0) (nat \<bar>i\<bar>) 1 of Some w \<Rightarrow> Inr w | None \<Rightarrow> Inl StructError)"
| "as_float (PBool b) =
     (case f64_of_ratio False (of_bool b) 1 of Some w \<Rightarrow> Inr w | None \<Rightarrow> Inl StructError)"
| "as_float (PDecimal neg c e) =
     (case f64_of_ratio neg (c * 10 ^ nat e) (10 ^ nat (- e)) of
        Some w \<Rightarrow> Inr w
      | None \<Rightarrow> Inr (if neg then 0xFFF0000000000000 else 0x7FF0000000000000))"
| "as_float _ = Inl StructError"

section \<open>Decimals\<close>

text \<open>
  \<open>Decimal(n) / Decimal(10 ** d)\<close> for an \<open>n\<close> of at most ten digits: the quotient is exact and gets
  the exponent closest to 0, so trailing zeros go while the exponent is negative.
\<close>

fun strip_zeros :: "nat \<Rightarrow> nat \<Rightarrow> nat \<times> nat" where
  "strip_zeros c 0 = (c, 0)"
| "strip_zeros c (Suc d) = (if c mod 10 = 0 then strip_zeros (c div 10) d else (c, Suc d))"

definition decimal_of :: "int \<Rightarrow> nat \<Rightarrow> pyval" where
  "decimal_of n d =
     (let (c, k) = strip_zeros (nat \<bar>n\<bar>) d in PDecimal (n < 0) c (- int k))"

section \<open>Timestamps\<close>

definition utcfromtimestamp :: "int \<Rightarrow> pyval result" where
  \<comment> \<open>the last second of the year 9999 is 253402300799\<close>
  "utcfromtimestamp v = (if v \<le> 253402300799 then Inr (PDatetime v) else Inl TimestampError)"

section \<open>Containers\<close>

definition py_get :: "pydict \<Rightarrow> pystr \<Rightarrow> pyval result" where
  \<comment> \<open>\<open>d[k]\<close> on a dictionary\<close>
  "py_get d k = (case map_of d k of Some v \<Rightarrow> Inr v | None \<Rightarrow> Inl KeyError)"

definition py_has :: "pyval \<Rightarrow> pystr \<Rightarrow> bool result" where
  \<comment> \<open>\<open>k in v\<close>\<close>
  "py_has v k =
     (case v of
        PDict d \<Rightarrow> Inr (k \<in> fst ` set d)
      | PList l \<Rightarrow> Inr (PStr k \<in> set l)
      | PStr s \<Rightarrow> Inr (sublist k s)
      | _ \<Rightarrow> Inl TypeError)"

definition py_getitem :: "pyval \<Rightarrow> pystr \<Rightarrow> pyval result" where
  \<comment> \<open>\<open>v[k]\<close> with a string subscript\<close>
  "py_getitem v k = (case v of PDict d \<Rightarrow> py_get d k | _ \<Rightarrow> Inl TypeError)"

lemma py_get_simps [simp]:
  "py_get [] k = Inl KeyError"
  "py_get ((k', v) # d) k = (if k = k' then Inr v else py_get d k)"
  by (auto simp: py_get_def)

lemma py_get_Inr: "py_get d k = Inr v \<longleftrightarrow> map_of d k = Some v"
  by (simp add: py_get_def split: option.splits)

end
