(* ===== verification/Loads.thy ===== *)
theory Loads
  imports Py_Value
begin

text \<open>
  The reading half of \<open>service/serialization.py\<close>: \<open>_read_item\<close> (one tagged field of a table or an
  array), \<open>loads\<close> (a sequence of arguments described by a format string) and
  \<open>decode_properties_basic\<close>.
\<close>

section \<open>Strings and the untagged container loops\<close>

definition bytes_to_str :: "bytes \<Rightarrow> pystr result" where
  \<comment> \<open>\<open>_bytes_to_str\<close>\<close>
  "bytes_to_str b = utf8_decode True b"

section \<open>Tagged items\<close>

text \<open>
  The tags that hold no further item. The offset is the one after the tag; the result is the value
  and the offset after it. A long string takes the bytes that are there, and moves the offset by
  the length it announces.
\<close>

definition read_scalar :: "byte \<Rightarrow> bytes \<Rightarrow> nat \<Rightarrow> (pyval \<times> nat) result" where
  "read_scalar ftype buf offset =
     (if ftype = tag CHR ''S'' then
        bindE (unpack_I buf offset) (\<lambda>slen.
        bindE (bytes_to_str (py_slice buf (offset + 4) (offset + 4 + nat slen))) (\<lambda>val.
        Inr (PStr val, offset + 4 + nat slen)))
      else if ftype = tag CHR ''b'' then
        bindE (unpack_B buf offset) (\<lambda>val. Inr (PInt val, offset + 1))
      else if ftype = tag CHR ''B'' then
        bindE (unpack_b buf offset) (\<lambda>val. Inr (PInt val, offset + 1))
      else if ftype = tag CHR ''U'' \<or> ftype = tag CHR ''s'' then
        bindE (unpack_h buf offset) (\<lambda>val. Inr (PInt val, offset + 2))
      else if ftype = tag CHR ''u'' then
        bindE (unpack_H buf offset) (\<lambda>val. Inr (PInt val, offset + 2))
      else if ftype = tag CHR ''I'' then
        bindE (unpack_i buf offset) (\<lambda>val. Inr (PInt val, offset + 4))
      else if ftype = tag CHR ''i'' then
        bindE (unpack_I buf offset) (\<lambda>val. Inr (PInt val, offset + 4))
      else if ftype = tag CHR ''L'' then
        bindE (unpack_q buf offset) (\<lambda>val. Inr (PInt val, offset + 8))
      else if ftype = tag CHR ''l'' then
        bindE (unpack_Q buf offset) (\<lambda>val. Inr (PInt val, offset + 8))
      else if ftype = tag CHR ''f'' then
        bindE (unpack_I buf offset) (\<lambda>val. Inr (PFloat (f64_of_f32 val), offset + 4))
      else if ftype = tag CHR ''d'' then
        bindE (unpack_Q buf offset) (\<lambda>val. Inr (PFloat (word_of_int val), offset + 8))
      else if ftype = tag CHR ''D'' then
        bindE (unpack_B buf offset) (\<lambda>d.
        bindE (unpack_i buf (offset + 1)) (\<lambda>n.
        Inr (decimal_of n (nat d), offset + 5)))
      else if ftype = tag CHR ''t'' then
        bindE (unpack_B buf offset) (\<lambda>val. Inr (PBool (val \<noteq> 0), offset + 1))
      else if ftype = tag CHR ''T'' then
        bindE (unpack_Q buf offset) (\<lambda>val.
        bindE (utcfromtimestamp val) (\<lambda>t. Inr (t, offset + 8)))
      else if ftype = tag CHR ''V'' then Inr (PNone, offset)
      else Inl FrameSyntaxError)"

text \<open>
  \<open>_read_item\<close> with its two loops: \<open>read_table\<close> is \<open>while offset < limit\<close> of the tag \<open>F\<close> (and of
  the format letter \<open>F\<close> of \<open>loads\<close>), \<open>read_array\<close> the loop of the tag \<open>A\<close>; \<open>val\<close> is the container
  built so far. Each result carries the offset at which reading stopped.
\<close>

function (sequential)
  read_item :: "bytes \<Rightarrow> nat \<Rightarrow> (pyval \<times> nat) result"
  and read_table :: "bytes \<Rightarrow> nat \<Rightarrow> nat \<Rightarrow> pydict \<Rightarrow> (pydict \<times> nat) result"
  and read_array :: "bytes \<Rightarrow> nat \<Rightarrow> nat \<Rightarrow> pyval list \<Rightarrow> (pyval list \<times> nat) result"
where
  "read_item buf offset =
     bindE (byte_at buf offset) (\<lambda>ftype.
       if ftype = tag CHR ''F'' then
         bindE (unpack_I buf (offset + 1)) (\<lambda>tlen.
         bindE (read_table buf (offset + 5) (offset + 5 + nat tlen) []) (\<lambda>(val, offset').
         Inr (PDict val, offset')))
       else if ftype = tag CHR ''A'' then
         bindE (unpack_I buf (offset + 1)) (\<lambda>alen.
         bindE (read_array buf (offset + 5) (offset + 5 + nat alen) []) (\<lambda>(val, offset').
         Inr (PList val, offset')))
       else read_scalar ftype buf (offset + 1))"
| "read_table buf offset limit val =
     (if offset < limit then
        bindE (unpack_B buf offset) (\<lambda>keylen.
        bindE (bytes_to_str (py_slice buf (offset + 1) (offset + 1 + nat keylen))) (\<lambda>key.
        bindE (read_item buf (offset + 1 + nat keylen)) (\<lambda>(v, offset').
        read_table buf offset' limit (AList.update key v val))))
      else Inr (val, offset))"
| "read_array buf offset limit val =
     (if offset < limit then
        bindE (read_item buf offset) (\<lambda>(v, offset').
        read_array buf offset' limit (val @ [v]))
      else Inr (val, offset))"
  by pat_completeness auto

lemma read_scalar_progress: "read_scalar ftype buf offset = Inr (v, offset') \<Longrightarrow> offset \<le> offset'"
  by (auto simp: read_scalar_def elim!: bindE_InrE split: if_splits)


text \<open>
  Termination: an item that is read starts inside the buffer and ends after its start, so each
  round of a loop leaves fewer bytes; reading past the end of the buffer raises.
\<close>

lemma read_progress_dom:
  "read_item_read_table_read_array_dom (Inl (buf, offset)) \<Longrightarrow>
     read_item buf offset = Inr (v, offset') \<Longrightarrow> offset < offset' \<and> offset < length buf"
  "read_item_read_table_read_array_dom (Inr (Inl (buf, offset, limit, val))) \<Longrightarrow>
     read_table buf offset limit val = Inr (d, off2) \<Longrightarrow> offset \<le> off2"
  "read_item_read_table_read_array_dom (Inr (Inr (buf, offset, limit, l))) \<Longrightarrow>
     read_array buf offset limit l = Inr (l', off3) \<Longrightarrow> offset \<le> off3"
proof (induction buf offset and buf offset limit val and buf offset limit l
    arbitrary: v offset' and d off2 and l' off3 rule: read_item_read_table_read_array.pinduct)
  case (1 buf offset)
  then show ?case
    by (fastforce simp: read_item.psimps byte_at_Inr elim!: bindE_InrE split: if_splits
        dest: read_scalar_progress)
next
  case (2 buf offset limit val)
  then show ?case
    by (fastforce simp: read_table.psimps elim!: bindE_InrE split: if_splits prod.splits)
next
  case (3 buf offset limit l)
  then show ?case
    by (fastforce simp: read_array.psimps elim!: bindE_InrE split: if_splits prod.splits)
qed

termination read_item
proof (relation "measure (\<lambda>x. case x of
    Inl (buf, offset) \<Rightarrow> 2 * (length buf - offset)
  | Inr (Inl (buf, offset, limit, val)) \<Rightarrow> 2 * (length buf - offset)
  | Inr (Inr (buf, offset, limit, l)) \<Rightarrow> 2 * (length buf - offset) + 1)", goal_cases)
qed (auto simp: byte_at_Inr dest!: u8.unpack_InrD u32.unpack_InrD read_progress_dom(1))

declare read_item.simps [simp del] read_table.simps [simp del] read_array.simps [simp del]

lemma read_progress:
  "read_item buf offset = Inr (v, offset') \<Longrightarrow> offset < offset' \<and> offset < length buf"
  "read_table buf offset limit val = Inr (d, off2) \<Longrightarrow> offset \<le> off2"
  "read_array buf offset limit l = Inr (l', off3) \<Longrightarrow> offset \<le> off3"
proof (induction buf offset and buf offset limit val and buf offset limit l
    arbitrary: v offset' and d off2 and l' off3 rule: read_item_read_table_read_array.induct)
  case (1 buf offset)
  then show ?case
    by (fastforce simp: read_item.simps [of buf offset] byte_at_Inr elim!: bindE_InrE
        split: if_splits dest: read_scalar_progress)
next
  case (2 buf offset limit val)
  then show ?case
    by (fastforce simp: read_table.simps [of buf offset] elim!: bindE_InrE
        split: if_splits prod.splits)
next
  case (3 buf offset limit l)
  then show ?case
    by (fastforce simp: read_array.simps [of buf offset] elim!: bindE_InrE
        split: if_splits prod.splits)
qed

lemmas read_item_progress = read_progress(1)
  and read_table_progress = read_progress(2)
  and read_array_progress = read_progress(3)

section \<open>Arguments described by a format\<close>

text \<open>
  The state of the loop of \<open>loads\<close> is the offset, \<open>bitcount\<close> and \<open>bits\<close>. One letter of the format
  reads one value. Every \<open>b\<close> sets \<open>bitcount\<close> to 8 before it counts one down, as the code does.
\<close>

definition ord_at :: "bytes \<Rightarrow> nat \<Rightarrow> nat result" where
  \<comment> \<open>\<open>ord(buf[offset:offset + 1])\<close>\<close>
  "ord_at buf offset =
     (case py_slice buf offset (offset + 1) of [b] \<Rightarrow> Inr (unat b) | _ \<Rightarrow> Inl TypeError)"

definition loads_field ::
  "char \<Rightarrow> bytes \<Rightarrow> nat \<Rightarrow> nat \<Rightarrow> nat \<Rightarrow> (pyval \<times> nat \<times> nat \<times> nat) result" where
  "loads_field p buf offset bitcount bits =
     (if p = CHR ''b'' then
        bindE (if bitcount = 0
               then bindE (ord_at buf offset) (\<lambda>bits. Inr (bits, offset + 1))
               else Inr (bits, offset)) (\<lambda>(bits, offset).
        Inr (PBool (bits AND 1 = 1), offset, 8 - 1, drop_bit 1 bits))
      else if p = CHR ''o'' then
        bindE (unpack_B buf offset) (\<lambda>val. Inr (PInt val, offset + 1, 0, 0))
      else if p = CHR ''B'' then
        bindE (unpack_H buf offset) (\<lambda>val. Inr (PInt val, offset + 2, 0, 0))
      else if p = CHR ''l'' then
        bindE (unpack_I buf offset) (\<lambda>val. Inr (PInt val, offset + 4, 0, 0))
      else if p = CHR ''L'' then
        bindE (unpack_Q buf offset) (\<lambda>val. Inr (PInt val, offset + 8, 0, 0))
      else if p = CHR ''f'' then
        bindE (unpack_I buf offset) (\<lambda>val. Inr (PFloat (f64_of_f32 val), offset + 4, 0, 0))
      else if p = CHR ''s'' then
        bindE (unpack_B buf offset) (\<lambda>slen.
        bindE (utf8_decode True (py_slice buf (offset + 1) (offset + 1 + nat slen))) (\<lambda>val.
        Inr (PStr val, offset + 1 + nat slen, 0, 0)))
      else if p = CHR ''S'' then
        bindE (unpack_I buf offset) (\<lambda>slen.
        bindE (utf8_decode True (py_slice buf (offset + 4) (offset + 4 + nat slen))) (\<lambda>val.
        Inr (PStr val, offset + 4 + nat slen, 0, 0)))
      else if p = CHR ''F'' then
        bindE (unpack_I buf offset) (\<lambda>tlen.
        bindE (read_table buf (offset + 4) (offset + 4 + nat tlen) []) (\<lambda>(val, offset').
        Inr (PDict val, offset', 0, 0)))
      else if p = CHR ''A'' then
        bindE (unpack_I buf offset) (\<lambda>alen.
        bindE (read_array buf (offset + 4) (offset + 4 + nat alen) []) (\<lambda>(val, offset').
        Inr (PList val, offset', 0, 0)))
      else if p = CHR ''T'' then
        bindE (unpack_Q buf offset) (\<lambda>val.
        bindE (utcfromtimestamp val) (\<lambda>t. Inr (t, offset + 8, 0, 0)))
      else Inl FrameSyntaxError)"

fun loads_loop :: "string \<Rightarrow> bytes \<Rightarrow> nat \<Rightarrow> nat \<Rightarrow> nat \<Rightarrow> (pyval list \<times> nat) result" where
  "loads_loop [] buf offset bitcount bits = Inr ([], offset)"
| "loads_loop (p # format) buf offset bitcount bits =
     bindE (loads_field p buf offset bitcount bits) (\<lambda>(val, offset', bitcount', bits').
     bindE (loads_loop format buf offset' bitcount' bits') (\<lambda>(values, offset'').
     Inr (val # values, offset'')))"

definition loads :: "string \<Rightarrow> bytes \<Rightarrow> nat \<Rightarrow> (pyval list \<times> nat) result" where
  "loads format buf offset = loads_loop format buf offset 0 0"

text \<open>What a letter's value looks like.\<close>

fun letter_type :: "char \<Rightarrow> pyval \<Rightarrow> bool" where
  "letter_type p (PBool _) = (p = CHR ''b'')"
| "letter_type p (PInt v) =
     ((p = CHR ''o'' \<and> 0 \<le> v \<and> v < 2 ^ 8) \<or> (p = CHR ''B'' \<and> 0 \<le> v \<and> v < 2 ^ 16)
      \<or> (p = CHR ''l'' \<and> 0 \<le> v \<and> v < 2 ^ 32) \<or> (p = CHR ''L'' \<and> 0 \<le> v \<and> v < 2 ^ 64))"
| "letter_type p (PStr s) = ((p = CHR ''s'' \<or> p = CHR ''S'') \<and> valid_str True s)"
| "letter_type p (PDict _) = (p = CHR ''F'')"
| "letter_type p (PList _) = (p = CHR ''A'')"
| "letter_type p (PFloat _) = (p = CHR ''f'')"
| "letter_type p (PDatetime _) = (p = CHR ''T'')"
| "letter_type p _ = False"

lemma loads_field_type: "loads_field p buf off bc bits = Inr (v, off', bc', bits') \<Longrightarrow> letter_type p v"
  by (auto simp: loads_field_def utcfromtimestamp_def split: if_splits prod.splits
      dest: u8.unpack_InrD u16.unpack_InrD u32.unpack_InrD u64.unpack_InrD utf8_decode_valid
      elim!: bindE_InrE)

text \<open>A string read from a short field is one that a short field can carry.\<close>

definition short_str :: "pystr \<Rightarrow> bool" where
  "short_str s \<longleftrightarrow> (case utf8_encode True s of Inr b \<Rightarrow> length b < 256 | Inl _ \<Rightarrow> False)"

definition letter_fits :: "char \<Rightarrow> pyval \<Rightarrow> bool" where
  "letter_fits p v \<longleftrightarrow>
     (p = CHR ''s'' \<longrightarrow> (case v of PStr s \<Rightarrow> short_str s | _ \<Rightarrow> False))"

lemma short_str_slice:
  assumes "unpack_B buf off = Inr n" and "utf8_decode True (py_slice buf (Suc i) (Suc (i + nat n))) = Inr s"
  shows "short_str s"
proof -
  have "length (py_slice buf (Suc i) (Suc (i + nat n))) < 256"
    using u8.unpack_InrD [OF assms(1)] by auto
  with utf8_encode_decode [OF assms(2)] show ?thesis by (simp add: short_str_def)
qed

lemma loads_field_fits: "loads_field p buf off bc bits = Inr (v, off', bc', bits') \<Longrightarrow> letter_fits p v"
  by (auto simp: loads_field_def letter_fits_def split: if_splits
      elim!: bindE_InrE intro: short_str_slice)

lemma loads_field_progress:
  "loads_field p buf off bc bits = Inr (v, off', bc', bits') \<Longrightarrow> off \<le> off'"
  by (auto simp: loads_field_def split: if_splits prod.splits
      dest: read_table_progress read_array_progress elim!: bindE_InrE)

lemma loads_loop_types:
  "loads_loop fmt buf off bc bits = Inr (vs, off') \<Longrightarrow>
     list_all2 letter_type fmt vs \<and> list_all2 letter_fits fmt vs \<and> off \<le> off'"
proof (induction fmt arbitrary: off bc bits vs off')
  case Nil
  then show ?case by simp
next
  case (Cons p fmt)
  then obtain v off1 bc1 bits1 vs' where
    f: "loads_field p buf off bc bits = Inr (v, off1, bc1, bits1)"
    and r: "loads_loop fmt buf off1 bc1 bits1 = Inr (vs', off')" and vs: "vs = v # vs'"
    by (auto elim!: bindE_InrE split: prod.splits)
  from loads_field_type [OF f] loads_field_fits [OF f] loads_field_progress [OF f] Cons.IH [OF r]
  show ?case
    by (simp add: vs)
qed

lemma loads_types: "loads fmt buf off = Inr (vs, off') \<Longrightarrow> list_all2 letter_type fmt vs"
  and loads_fits: "loads fmt buf off = Inr (vs, off') \<Longrightarrow> list_all2 letter_fits fmt vs"
  and loads_progress: "loads fmt buf off = Inr (vs, off') \<Longrightarrow> off \<le> off'"
  by (auto simp: loads_def dest: loads_loop_types)

lemma loads_length: "loads fmt buf off = Inr (vs, off') \<Longrightarrow> length vs = length fmt"
  by (auto dest!: loads_types list_all2_lengthD)

section \<open>The properties of a content header\<close>

text \<open>
  \<open>decode_properties_basic\<close>: the flags, then one field per flag that is set, in the order of the
  code. A step carries the dictionary built so far and the offset.
\<close>

definition flag_set :: "int \<Rightarrow> int \<Rightarrow> bool" where
  "flag_set flags flag \<longleftrightarrow> flags AND flag \<noteq> 0"

definition read_shortstr :: "bytes \<Rightarrow> nat \<Rightarrow> (pyval \<times> nat) result" where
  "read_shortstr buf offset =
     bindE (unpack_B buf offset) (\<lambda>slen.
     bindE (bytes_to_str (py_slice buf (offset + 1) (offset + 1 + nat slen))) (\<lambda>s.
     Inr (PStr s, offset + 1 + nat slen)))"

definition read_loads_F :: "bytes \<Rightarrow> nat \<Rightarrow> (pyval \<times> nat) result" where
  "read_loads_F buf offset =
     bindE (loads ''F'' buf offset) (\<lambda>(f, offset'). Inr (hd f, offset'))"

definition read_octet :: "bytes \<Rightarrow> nat \<Rightarrow> (pyval \<times> nat) result" where
  "read_octet buf offset = bindE (unpack_B buf offset) (\<lambda>v. Inr (PInt v, offset + 1))"

definition read_longlong :: "bytes \<Rightarrow> nat \<Rightarrow> (pyval \<times> nat) result" where
  "read_longlong buf offset = bindE (unpack_Q buf offset) (\<lambda>v. Inr (PInt v, offset + 8))"

definition if_flag ::
  "int \<Rightarrow> int \<Rightarrow> string \<Rightarrow> (bytes \<Rightarrow> nat \<Rightarrow> (pyval \<times> nat) result)
   \<Rightarrow> bytes \<Rightarrow> pydict \<times> nat \<Rightarrow> (pydict \<times> nat) result" where
  "if_flag flags flag key rd buf s =
     (if flag_set flags flag
      then bindE (rd buf (snd s)) (\<lambda>(v, offset). Inr (AList.update (lit key) v (fst s), offset))
      else Inr s)"

definition decode_properties_basic :: "bytes \<Rightarrow> nat \<Rightarrow> (pydict \<times> nat) result" where
  "decode_properties_basic buf offset =
     bindE (unpack_H buf offset) (\<lambda>flags.
     bindE (if_flag flags 0x8000 ''content_type'' read_shortstr buf ([], offset + 2)) (\<lambda>s.
     bindE (if_flag flags 0x4000 ''content_encoding'' read_shortstr buf s) (\<lambda>s.
     bindE (if_flag flags 0x2000 ''application_headers'' read_loads_F buf s) (\<lambda>s.
     bindE (if_flag flags 0x1000 ''delivery_mode'' read_octet buf s) (\<lambda>s.
     bindE (if_flag flags 0x0800 ''priority'' read_octet buf s) (\<lambda>s.
     bindE (if_flag flags 0x0400 ''correlation_id'' read_shortstr buf s) (\<lambda>s.
     bindE (if_flag flags 0x0200 ''reply_to'' read_shortstr buf s) (\<lambda>s.
     bindE (if_flag flags 0x0100 ''expiration'' read_shortstr buf s) (\<lambda>s.
     bindE (if_flag flags 0x0080 ''message_id'' read_shortstr buf s) (\<lambda>s.
     bindE (if_flag flags 0x0040 ''timestamp'' read_longlong buf s) (\<lambda>s.
     bindE (if_flag flags 0x0020 ''type'' read_shortstr buf s) (\<lambda>s.
     bindE (if_flag flags 0x0010 ''user_id'' read_shortstr buf s) (\<lambda>s.
     bindE (if_flag flags 0x0008 ''app_id'' read_shortstr buf s) (\<lambda>s.
     if_flag flags 0x0004 ''cluster_id'' read_shortstr buf s))))))))))))))"

text \<open>Each of these readers is the field of \<open>loads\<close> for one letter.\<close>

lemma property_readers:
  "loads_field CHR ''s'' buf offset bc bs
     = bindE (read_shortstr buf offset) (\<lambda>(v, offset'). Inr (v, offset', 0, 0))"
  "loads_field CHR ''o'' buf offset bc bs
     = bindE (read_octet buf offset) (\<lambda>(v, offset'). Inr (v, offset', 0, 0))"
  "loads_field CHR ''L'' buf offset bc bs
     = bindE (read_longlong buf offset) (\<lambda>(v, offset'). Inr (v, offset', 0, 0))"
  "loads_field CHR ''F'' buf offset bc bs
     = bindE (read_loads_F buf offset) (\<lambda>(v, offset'). Inr (v, offset', 0, 0))"
  by (simp_all add: loads_field_def read_shortstr_def read_octet_def read_longlong_def
      read_loads_F_def loads_def bindE_assoc bytes_to_str_def split_def)

end
