(* ===== verification/Methods.thy ===== *)
theory Methods
  imports Loads
begin

text \<open>
  \<open>service/method.py\<close>: the method identifiers, the decoder of each method's arguments, the table
  \<open>_ID_TO_METHOD\<close>, and the frame classes \<open>Method\<close>, \<open>Header\<close> and \<open>Body\<close> (with the \<open>HeartBeat\<close> of
  \<open>service/heartbeat.py\<close>).
\<close>

section \<open>Method identifiers\<close>

text \<open>The IntEnum; \<open>HEART_BEAT\<close> has the value of \<open>TUNE_OK\<close>, which makes it an alias.\<close>

datatype method_ids =
    START_OK | TUNE_OK | OPEN | CLOSE
  | CHANNEL_OPEN | CHANNEL_CLOSE
  | BASIC_CANCEL | BASIC_QOS | BASIC_PUBLISH | BASIC_CONSUME | BASIC_ACK | BASIC_NACK
  | EXCHANGE_DECLARE
  | QUEUE_DECLARE | QUEUE_BIND

abbreviation HEART_BEAT :: method_ids where
  "HEART_BEAT \<equiv> TUNE_OK"

fun id_of :: "method_ids \<Rightarrow> int" where
  "id_of START_OK = 0x000A000B"
| "id_of TUNE_OK = 0x000A001F"
| "id_of OPEN = 0x000A0028"
| "id_of CLOSE = 0x000A0032"
| "id_of CHANNEL_OPEN = 0x0014000A"
| "id_of CHANNEL_CLOSE = 0x00140028"
| "id_of BASIC_CANCEL = 0x003C001E"
| "id_of BASIC_QOS = 0x003C000A"
| "id_of BASIC_PUBLISH = 0x003C0028"
| "id_of BASIC_CONSUME = 0x003C0014"
| "id_of BASIC_ACK = 0x003C0050"
| "id_of BASIC_NACK = 0x003C0078"
| "id_of EXCHANGE_DECLARE = 0x0028000A"
| "id_of QUEUE_DECLARE = 0x0032000A"
| "id_of QUEUE_BIND = 0x00320014"

lemma id_of_inject [simp]: "id_of a = id_of b \<longleftrightarrow> a = b"
  by (cases a; cases b) simp_all

declare id_of.simps [simp del]

section \<open>Decoders\<close>

definition idx :: "pyval list \<Rightarrow> nat \<Rightarrow> pyval result" where
  \<comment> \<open>\<open>values[i]\<close>\<close>
  "idx values i = (if i < length values then Inr (values ! i) else Inl IndexError)"

fun named :: "pyval list \<Rightarrow> (string \<times> nat) list \<Rightarrow> pydict result" where
  \<comment> \<open>the dictionary display \<open>{'name': values[i], ...}\<close>\<close>
  "named values [] = Inr []"
| "named values ((name, i) # fields) =
     bindE (idx values i) (\<lambda>v. bindE (named values fields) (\<lambda>d. Inr ((lit name, v) # d)))"

definition decode_args :: "string \<Rightarrow> (string \<times> nat) list \<Rightarrow> bytes \<Rightarrow> pydict result" where
  \<comment> \<open>the shape the decoders share: \<open>loads(format, payload, offset=4)\<close> and the display\<close>
  "decode_args format fields payload =
     bindE (loads format payload 4) (\<lambda>(values, _). named values fields)"

definition decode_start_ok :: "bytes \<Rightarrow> pydict result" where
  "decode_start_ok = decode_args ''FsSs''
     [(''peer-properties'', 0), (''mechanism'', 1), (''response'', 2), (''locale'', 3)]"

definition decode_tune_ok :: "bytes \<Rightarrow> pydict result" where
  "decode_tune_ok = decode_args ''BlB''
     [(''channel-max'', 0), (''frame-max'', 1), (''heartbeat'', 2)]"

definition decode_open :: "bytes \<Rightarrow> pydict result" where
  "decode_open = decode_args ''ssb''
     [(''vhost'', 0), (''capabilities'', 1), (''insist'', 2)]"

definition decode_close :: "bytes \<Rightarrow> pydict result" where
  "decode_close payload = Inr []"

definition decode_channel_open :: "bytes \<Rightarrow> pydict result" where
  "decode_channel_open = decode_args ''s'' [(''reserved-1'', 0)]"

definition decode_channel_close :: "bytes \<Rightarrow> pydict result" where
  "decode_channel_close = decode_args ''BsBB''
     [(''reply-code'', 0), (''reply-text'', 1), (''class-id'', 2), (''method-id'', 3)]"

definition decode_basic_qos :: "bytes \<Rightarrow> pydict result" where
  "decode_basic_qos = decode_args ''lBb''
     [(''prefetch-size'', 0), (''prefetch-count'', 1), (''global'', 2)]"

definition decode_exchange_declare :: "bytes \<Rightarrow> pydict result" where
  "decode_exchange_declare = decode_args ''BssbbbbbF''
     [(''reserved-1'', 0), (''exchange-name'', 1), (''type'', 2), (''passive'', 3),
      (''durable'', 4), (''auto-delete'', 5), (''internal'', 6), (''no-wait'', 6),
      (''arguments'', 7)]"

definition decode_basic_publish :: "bytes \<Rightarrow> pydict result" where
  "decode_basic_publish = decode_args ''Bssbb''
     [(''reserved-1'', 0), (''exchange-name'', 1), (''routing-key'', 2), (''mandatory'', 3),
      (''immediate'', 4)]"

definition decode_basic_consume :: "bytes \<Rightarrow> pydict result" where
  "decode_basic_consume = decode_args ''BssbbbbF''
     [(''reserved-1'', 0), (''queue-name'', 1), (''consumer-tag'', 2), (''no-local'', 3),
      (''no-ack'', 4), (''exclusive'', 5), (''no-wait'', 6), (''arguments'', 7)]"

definition decode_queue_declare :: "bytes \<Rightarrow> pydict result" where
  "decode_queue_declare = decode_args ''BsbbbbbF''
     [(''reserved-1'', 0), (''queue-name'', 1), (''passive'', 2), (''durable'', 3),
      (''exclusive'', 4), (''auto-delete'', 5), (''no-wait'', 6), (''arguments'', 7)]"

definition decode_queue_bind :: "bytes \<Rightarrow> pydict result" where
  "decode_queue_bind = decode_args ''BsssbF''
     [(''reserved-1'', 0), (''queue-name'', 1), (''exchange-name'', 2), (''routing-key'', 3),
      (''no-wait'', 4), (''arguments'', 5)]"

definition decode_basic_ack :: "bytes \<Rightarrow> pydict result" where
  "decode_basic_ack = decode_args ''Lb'' [(''delivery-tag'', 0), (''multiple'', 1)]"

definition decode_basic_nack :: "bytes \<Rightarrow> pydict result" where
  "decode_basic_nack = decode_args ''Lbb''
     [(''delivery-tag'', 0), (''multiple'', 1), (''requeue'', 2)]"

definition decode_basic_cancel :: "bytes \<Rightarrow> pydict result" where
  "decode_basic_cancel = decode_args ''sb'' [(''consumer-tag'', 0), (''no-wait'', 1)]"

text \<open>\<open>_ID_TO_METHOD[method_id](payload)\<close>.\<close>

definition decode_method :: "int \<Rightarrow> bytes \<Rightarrow> pydict result" where
  "decode_method mid payload =
     (if mid = 0x000A000B then decode_start_ok payload
      else if mid = 0x000A001F then decode_tune_ok payload
      else if mid = 0x000A0028 then decode_open payload
      else if mid = id_of CLOSE then decode_close payload
      else if mid = 0x0014000A then decode_channel_open payload
      else if mid = 0x00140028 then decode_channel_close payload
      else if mid = 0x003C000A then decode_basic_qos payload
      else if mid = 0x003C0028 then decode_basic_publish payload
      else if mid = id_of BASIC_CONSUME then decode_basic_consume payload
      else if mid = id_of BASIC_ACK then decode_basic_ack payload
      else if mid = id_of BASIC_NACK then decode_basic_nack payload
      else if mid = id_of BASIC_CANCEL then decode_basic_cancel payload
      else if mid = 0x0028000A then decode_exchange_declare payload
      else if mid = id_of QUEUE_DECLARE then decode_queue_declare payload
      else if mid = id_of QUEUE_BIND then decode_queue_bind payload
      else Inl KeyError)"

section \<open>Content headers\<close>

text \<open>\<open>Header.PROPERTIES\<close>: name, format letter and flag of each property.\<close>

definition header_properties :: "(string \<times> char \<times> int) list" where
  "header_properties =
     [(''content_type'', CHR ''s'', 2 ^ 15), (''content_encoding'', CHR ''s'', 2 ^ 14),
      (''application_headers'', CHR ''F'', 2 ^ 13), (''delivery_mode'', CHR ''o'', 2 ^ 12),
      (''priority'', CHR ''o'', 2 ^ 11), (''correlation_id'', CHR ''s'', 2 ^ 10),
      (''reply_to'', CHR ''s'', 2 ^ 9), (''expiration'', CHR ''s'', 2 ^ 8),
      (''message_id'', CHR ''s'', 2 ^ 7), (''timestamp'', CHR ''L'', 2 ^ 6),
      (''type'', CHR ''s'', 2 ^ 5), (''user_id'', CHR ''s'', 2 ^ 4),
      (''app_id'', CHR ''s'', 2 ^ 3), (''cluster_id'', CHR ''s'', 2 ^ 2)]"

fun selected :: "int \<Rightarrow> (string \<times> char \<times> int) list \<Rightarrow> (string \<times> char \<times> int) list" where
  \<comment> \<open>the loop over \<open>PROPERTIES\<close>: the rows whose flag is set\<close>
  "selected flags [] = []"
| "selected flags ((key, parse_type, flag) # rows) =
     (if flag_set flags flag then (key, parse_type, flag) # selected flags rows
      else selected flags rows)"

definition parse_string :: "(string \<times> char \<times> int) list \<Rightarrow> string" where
  "parse_string rows = map (\<lambda>(_, parse_type, _). parse_type) rows"

definition row_keys :: "(string \<times> char \<times> int) list \<Rightarrow> pystr list" where
  "row_keys rows = map (\<lambda>(key, _, _). lit key) rows"

definition header_fields :: "int \<Rightarrow> bytes \<Rightarrow> pydict result" where
  "header_fields property_flags payload =
     bindE (loads (parse_string (selected property_flags header_properties)) payload 14)
       (\<lambda>(values, _). Inr (zip (row_keys (selected property_flags header_properties)) values))"

section \<open>Frames\<close>

text \<open>
  An object of the classes \<open>Method\<close>, \<open>Header\<close>, \<open>Body\<close> and \<open>HeartBeat\<close>, with the attributes the
  code reads from it. Only the first two have \<open>properties\<close>; \<open>method_id\<close> is None on \<open>Header\<close> and
  \<open>Body\<close>.
\<close>

datatype frame =
    MethodFrame (channel_number: int) (frame_size: nat) (the_method_id: int) (the_properties: pydict)
  | HeaderFrame (channel_number: int) (frame_size: nat) (class_id: int) (body_size: int)
      (the_properties: pydict)
  | BodyFrame (channel_number: int) (frame_size: nat) (content: bytes)
  | HeartBeat (frame_size: nat)

fun is_header :: "frame \<Rightarrow> bool" where
  "is_header (HeaderFrame _ _ _ _ _) = True"
| "is_header _ = False"

fun is_body :: "frame \<Rightarrow> bool" where
  "is_body (BodyFrame _ _ _) = True"
| "is_body _ = False"

fun method_id :: "frame \<Rightarrow> int option" where
  "method_id (MethodFrame _ _ m _) = Some m"
| "method_id _ = None"

fun properties :: "frame \<Rightarrow> pydict result" where
  "properties (MethodFrame _ _ _ p) = Inr p"
| "properties (HeaderFrame _ _ _ _ p) = Inr p"
| "properties _ = Inl AttributeError"

definition is_method :: "frame \<Rightarrow> method_ids \<Rightarrow> bool" where
  \<comment> \<open>\<open>frame_value.method_id == MethodIDs.X\<close>\<close>
  "is_method f m \<longleftrightarrow> method_id f = Some (id_of m)"

definition new_method :: "int \<Rightarrow> nat \<Rightarrow> int \<Rightarrow> bytes \<Rightarrow> frame result" where
  "new_method channel sz mid payload =
     bindE (decode_method mid payload) (\<lambda>p. Inr (MethodFrame channel sz mid p))"

definition new_header :: "int \<Rightarrow> nat \<Rightarrow> int \<Rightarrow> int \<Rightarrow> int \<Rightarrow> bytes \<Rightarrow> frame result" where
  "new_header channel sz cid bsize property_flags payload =
     bindE (header_fields property_flags payload) (\<lambda>p. Inr (HeaderFrame channel sz cid bsize p))"

section \<open>The two decoders of header properties agree\<close>

fun reader_of :: "char \<Rightarrow> bytes \<Rightarrow> nat \<Rightarrow> (pyval \<times> nat) result" where
  "reader_of p =
     (if p = CHR ''s'' then read_shortstr
      else if p = CHR ''o'' then read_octet
      else if p = CHR ''L'' then read_longlong
      else read_loads_F)"

fun property_rows ::
  "int \<Rightarrow> (string \<times> char \<times> int) list \<Rightarrow> bytes \<Rightarrow> pydict \<times> nat \<Rightarrow> (pydict \<times> nat) result" where
  "property_rows flags [] buf s = Inr s"
| "property_rows flags ((key, p, flag) # rows) buf s =
     bindE (if_flag flags flag key (reader_of p) buf s) (property_rows flags rows buf)"

lemma property_rows_fun:
  "property_rows flags [] buf = Inr"
  "property_rows flags ((key, p, flag) # rows) buf =
     (\<lambda>s. bindE (if_flag flags flag key (reader_of p) buf s) (property_rows flags rows buf))"
  by (simp_all add: fun_eq_iff)

lemma decode_properties_basic_rows:
  "decode_properties_basic buf offset =
     bindE (unpack_H buf offset)
       (\<lambda>flags. property_rows flags header_properties buf ([], offset + 2))"
  by (simp add: decode_properties_basic_def header_properties_def property_rows_fun
      del: property_rows.simps)

lemma loads_field_reader:
  "p \<in> set ''sFoL'' \<Longrightarrow> loads_field p buf offset bc bs
     = bindE (reader_of p buf offset) (\<lambda>(v, offset'). Inr (v, offset', 0, 0))"
  by (auto simp: property_readers)

lemma property_rows_loads:
  assumes "\<forall>(key, p, flag) \<in> set rows. p \<in> set ''sFoL''"
    and "distinct (row_keys rows)" and "fst ` set d \<inter> set (row_keys rows) = {}"
  shows "property_rows flags rows buf (d, offset) =
    bindE (loads_loop (parse_string (selected flags rows)) buf offset 0 0)
      (\<lambda>(vs, offset'). Inr (d @ zip (row_keys (selected flags rows)) vs, offset'))"
  using assms
proof (induction rows arbitrary: d offset)
  case Nil
  then show ?case by (simp add: parse_string_def row_keys_def)
next
  case (Cons row rows)
  obtain key p flag where row: "row = (key, p, flag)" by (cases row)
  have p: "p \<in> set ''sFoL''" and rows: "\<forall>(key, p, flag) \<in> set rows. p \<in> set ''sFoL''"
    and new: "lit key \<notin> fst ` set d" and dist: "distinct (row_keys rows)"
    and fresh: "\<And>v. fst ` set (d @ [(lit key, v)]) \<inter> set (row_keys rows) = {}"
    using Cons.prems by (auto simp: row row_keys_def)
  show ?case
  proof (cases "flag_set flags flag")
    case True
    have "property_rows flags (row # rows) buf (d, offset) =
      bindE (reader_of p buf offset) (\<lambda>(v, offset1). property_rows flags rows buf (d @ [(lit key, v)], offset1))"
      using True by (simp add: row if_flag_def bindE_assoc split_def update_new [OF new] del: reader_of.simps)
    also have "\<dots> = bindE (reader_of p buf offset) (\<lambda>(v, offset1).
      bindE (loads_loop (parse_string (selected flags rows)) buf offset1 0 0)
      (\<lambda>(vs, offset'). Inr ((d @ [(lit key, v)]) @ zip (row_keys (selected flags rows)) vs, offset')))"
      by (simp only: Cons.IH [OF rows dist fresh])
    finally show ?thesis
      using True
      by (simp add: row parse_string_def row_keys_def loads_field_reader [OF p] bindE_assoc split_def
          del: reader_of.simps)
  next
    case False
    have "fst ` set d \<inter> set (row_keys rows) = {}"
      using Cons.prems(3) by (auto simp: row_keys_def)
    from Cons.IH [OF rows dist this] False show ?thesis
      by (simp add: row if_flag_def)
  qed
qed

lemma header_fields_agree:
  "bindE (unpack_H payload 12) (\<lambda>flags. header_fields flags payload) =
   bindE (decode_properties_basic payload 12) (\<lambda>(d, _). Inr d)"
proof -
  have "property_rows flags header_properties payload ([], 14) =
    bindE (loads_loop (parse_string (selected flags header_properties)) payload 14 0 0)
      (\<lambda>(vs, offset'). Inr ([] @ zip (row_keys (selected flags header_properties)) vs, offset'))" for flags
    by (rule property_rows_loads) (auto simp: header_properties_def row_keys_def)
  then show ?thesis
    by (simp add: decode_properties_basic_rows header_fields_def loads_def bindE_assoc split_def)
qed

section \<open>What the decoders return\<close>

lemma named_get:
  assumes "named vs fields = Inr d" and "map_of fields key = Some i"
  shows "i < length vs \<and> py_get d (lit key) = Inr (vs ! i)"
  using assms by (induction vs fields arbitrary: d rule: named.induct)
    (auto simp: idx_def elim!: bindE_InrE split: if_splits)

lemma decode_args_get:
  assumes "decode_args format fields payload = Inr d" and "map_of fields key = Some i"
  shows "\<exists>v. py_get d (lit key) = Inr v \<and> i < length format \<and> letter_type (format ! i) v
    \<and> letter_fits (format ! i) v"
proof -
  from assms(1) obtain vs off where l: "loads format payload 4 = Inr (vs, off)"
    and n: "named vs fields = Inr d"
    by (auto simp: decode_args_def elim!: bindE_InrE)
  from named_get [OF n assms(2)] loads_types [OF l] loads_fits [OF l] show ?thesis
    by (auto dest: list_all2_nthD2 list_all2_lengthD)
qed

lemma letter_typeE:
  "letter_type CHR ''s'' v \<Longrightarrow> \<exists>s. v = PStr s \<and> valid_str True s"
  "letter_type CHR ''S'' v \<Longrightarrow> \<exists>s. v = PStr s \<and> valid_str True s"
  "letter_type CHR ''b'' v \<Longrightarrow> \<exists>b. v = PBool b"
  "letter_type CHR ''L'' v \<Longrightarrow> \<exists>i. v = PInt i \<and> 0 \<le> i \<and> i < 2 ^ 64"
  by (cases v; simp)+

text \<open>Reading an argument of a known type.\<close>

fun as_str :: "pyval \<Rightarrow> pystr result" where
  "as_str (PStr s) = Inr s"
| "as_str _ = Inl TypeError"

fun as_int :: "pyval \<Rightarrow> int result" where
  "as_int (PInt i) = Inr i"
| "as_int _ = Inl TypeError"

definition get_str :: "pydict \<Rightarrow> string \<Rightarrow> pystr result" where
  "get_str d key = bindE (py_get d (lit key)) as_str"

definition get_int :: "pydict \<Rightarrow> string \<Rightarrow> int result" where
  "get_int d key = bindE (py_get d (lit key)) as_int"

definition get_bool :: "pydict \<Rightarrow> string \<Rightarrow> bool result" where
  \<comment> \<open>a value used as a condition\<close>
  "get_bool d key = bindE (py_get d (lit key)) (\<lambda>v. Inr (truthy v))"

lemma decode_args_str:
  assumes "decode_args format fields payload = Inr d"
    and "case map_of fields key of None \<Rightarrow> False | Some i \<Rightarrow> format ! i = CHR ''s'' \<or> format ! i = CHR ''S''"
  shows "\<exists>s. get_str d key = Inr s \<and> valid_str True s"
  using assms(2) decode_args_get [OF assms(1), of key]
  by (auto simp: get_str_def dest!: letter_typeE(1,2) split: option.splits)

lemma decode_args_short:
  assumes "decode_args format fields payload = Inr d"
    and "case map_of fields key of None \<Rightarrow> False | Some i \<Rightarrow> format ! i = CHR ''s''"
  shows "\<exists>s. get_str d key = Inr s \<and> short_str s"
  using assms(2) decode_args_get [OF assms(1), of key]
  by (auto simp: get_str_def letter_fits_def dest!: letter_typeE(1) split: option.splits)

lemma decode_args_long:
  assumes "decode_args format fields payload = Inr d"
    and "case map_of fields key of None \<Rightarrow> False | Some i \<Rightarrow> format ! i = CHR ''L''"
  shows "\<exists>v. get_int d key = Inr v \<and> 0 \<le> v \<and> v < 0x10000000000000000"
  using assms(2) decode_args_get [OF assms(1), of key]
  by (auto simp: get_int_def dest!: letter_typeE(4) split: option.splits)

lemma decode_args_bool:
  assumes "decode_args format fields payload = Inr d"
    and "case map_of fields key of None \<Rightarrow> False | Some i \<Rightarrow> format ! i = CHR ''b''"
  shows "\<exists>b. get_bool d key = Inr b"
  using assms(2) decode_args_get [OF assms(1), of key]
  by (auto simp: get_bool_def dest!: letter_typeE(3) split: option.splits)

lemma decode_method_simps [simp]:
  "decode_method (id_of START_OK) = decode_start_ok"
  "decode_method (id_of TUNE_OK) = decode_tune_ok"
  "decode_method (id_of OPEN) = decode_open"
  "decode_method (id_of CLOSE) = decode_close"
  "decode_method (id_of CHANNEL_OPEN) = decode_channel_open"
  "decode_method (id_of CHANNEL_CLOSE) = decode_channel_close"
  "decode_method (id_of BASIC_CANCEL) = decode_basic_cancel"
  "decode_method (id_of BASIC_QOS) = decode_basic_qos"
  "decode_method (id_of BASIC_PUBLISH) = decode_basic_publish"
  "decode_method (id_of BASIC_CONSUME) = decode_basic_consume"
  "decode_method (id_of BASIC_ACK) = decode_basic_ack"
  "decode_method (id_of BASIC_NACK) = decode_basic_nack"
  "decode_method (id_of EXCHANGE_DECLARE) = decode_exchange_declare"
  "decode_method (id_of QUEUE_DECLARE) = decode_queue_declare"
  "decode_method (id_of QUEUE_BIND) = decode_queue_bind"
  by (simp_all add: decode_method_def fun_eq_iff id_of.simps)

text \<open>The arguments the protocol reads from each method are there and have the type it expects.\<close>

fun str_args :: "method_ids \<Rightarrow> string list" where
  "str_args START_OK = [''mechanism'']"
| "str_args EXCHANGE_DECLARE = [''exchange-name'', ''type'']"
| "str_args QUEUE_DECLARE = [''queue-name'']"
| "str_args QUEUE_BIND = [''queue-name'', ''exchange-name'']"
| "str_args BASIC_PUBLISH = [''exchange-name'', ''routing-key'']"
| "str_args BASIC_CONSUME = [''queue-name'', ''consumer-tag'']"
| "str_args BASIC_CANCEL = [''consumer-tag'']"
| "str_args _ = []"

definition args_typed :: "method_ids \<Rightarrow> pydict \<Rightarrow> bool" where
  "args_typed m d \<longleftrightarrow>
     list_all (\<lambda>key. \<exists>s. get_str d key = Inr s \<and> short_str s) (str_args m)
     \<and> (m = START_OK \<longrightarrow> (\<exists>s. get_str d ''response'' = Inr s \<and> valid_str True s))
     \<and> (m = BASIC_ACK \<or> m = BASIC_NACK \<longrightarrow>
          (\<exists>v. get_int d ''delivery-tag'' = Inr v \<and> 0 \<le> v \<and> v < 2 ^ 64))
     \<and> (m = BASIC_NACK \<longrightarrow> (\<exists>b. get_bool d ''requeue'' = Inr b))"

lemma decode_method_typed: "decode_method (id_of m) payload = Inr d \<Longrightarrow> args_typed m d"
  by (cases m)
    (simp_all add: args_typed_def decode_start_ok_def decode_exchange_declare_def
      decode_queue_declare_def decode_queue_bind_def decode_basic_publish_def
      decode_basic_consume_def decode_basic_cancel_def decode_basic_ack_def decode_basic_nack_def
      decode_args_str decode_args_short decode_args_long decode_args_bool)

definition frame_typed :: "frame \<Rightarrow> bool" where
  "frame_typed f \<longleftrightarrow>
     (case f of MethodFrame _ _ mid p \<Rightarrow> (\<forall>m. mid = id_of m \<longrightarrow> args_typed m p) | _ \<Rightarrow> True)"

lemma new_method_typed: "new_method ch sz mid payload = Inr f \<Longrightarrow> frame_typed f"
  by (auto simp: new_method_def frame_typed_def dest: decode_method_typed elim!: bindE_InrE)

lemma new_header_typed: "new_header ch sz cid bsz flags payload = Inr f \<Longrightarrow> frame_typed f"
  by (auto simp: new_header_def frame_typed_def elim!: bindE_InrE)

end
