(* ===== verification/Frames.thy ===== *)
theory Frames
  imports Methods
begin

text \<open>
  \<open>service/frame.py\<close>: \<open>read_frame\<close> takes the first complete frame off a buffer, and
  \<open>service/message.py\<close>: the message being assembled from a content header and its body frames.
\<close>

section \<open>Reading a frame\<close>

definition FRAME_HEADER_SIZE :: nat where "FRAME_HEADER_SIZE = 7"
definition FRAME_END_SIZE :: nat where "FRAME_END_SIZE = 1"
definition FRAME_END :: bytes where "FRAME_END = [0xCE]"
definition FRAME_METHOD :: int where "FRAME_METHOD = 1"
definition FRAME_HEADER :: int where "FRAME_HEADER = 2"
definition FRAME_BODY :: int where "FRAME_BODY = 3"
definition FRAME_HEARTBEAT :: int where "FRAME_HEARTBEAT = 8"

lemmas frame_consts = FRAME_HEADER_SIZE_def FRAME_END_SIZE_def FRAME_END_def FRAME_METHOD_def
  FRAME_HEADER_def FRAME_BODY_def FRAME_HEARTBEAT_def

text \<open>
  The three fields of the frame header (\<open>>BHL\<close>): \<open>struct.error\<close> is caught, and means that the
  buffer is too short.
\<close>

definition unpack_BHL :: "bytes \<Rightarrow> (int \<times> int \<times> int) result" where
  "unpack_BHL d =
     (if length d = 7 then
        bindE (unpack_B d 0) (\<lambda>a. bindE (unpack_H d 1) (\<lambda>b. bindE (unpack_I d 3) (\<lambda>c. Inr (a, b, c))))
      else Inl StructError)"

definition unpack_HHQH :: "bytes \<Rightarrow> (int \<times> int \<times> int \<times> int) result" where
  "unpack_HHQH d =
     (if length d = 14 then
        bindE (unpack_H d 0) (\<lambda>a. bindE (unpack_H d 2) (\<lambda>b. bindE (unpack_Q d 4) (\<lambda>c.
        bindE (unpack_H d 12) (\<lambda>f. Inr (a, b, c, f)))))
      else Inl StructError)"

text \<open>What the payload of a frame becomes, by the frame's type; None for a type the code does not know.\<close>

definition build_frame :: "int \<Rightarrow> int \<Rightarrow> nat \<Rightarrow> bytes \<Rightarrow> frame option result" where
  "build_frame frame_type channel fsize payload =
     (if frame_type = FRAME_METHOD then
        bindE (unpack_I payload 0) (\<lambda>mid.
        bindE (new_method channel fsize mid payload) (\<lambda>f. Inr (Some f)))
      else if frame_type = FRAME_HEARTBEAT then Inr (Some (HeartBeat fsize))
      else if frame_type = FRAME_HEADER then
        bindE (unpack_HHQH (py_slice payload 0 14)) (\<lambda>(cid, weight, bsize, flags).
        bindE (new_header channel fsize cid bsize flags payload) (\<lambda>f. Inr (Some f)))
      else if frame_type = FRAME_BODY then Inr (Some (BodyFrame channel fsize payload))
      else Inr None)"

definition read_frame :: "bytes \<Rightarrow> frame option result" where
  "read_frame data_in =
     (case unpack_BHL (py_slice data_in 0 7) of
        Inl e \<Rightarrow> Inr None
      | Inr (frame_type, channel, payload_size) \<Rightarrow>
          (let fsize = FRAME_HEADER_SIZE + nat payload_size + FRAME_END_SIZE
           in if length data_in < fsize then Inr None
              else if py_slice data_in (fsize - 1) fsize \<noteq> FRAME_END then Inl InvalidFrameError
              else build_frame frame_type channel fsize
                     (py_slice data_in FRAME_HEADER_SIZE (fsize - 1))))"

text \<open>The header of a frame, once seven bytes are there, and the length it announces.\<close>

definition frame_head :: "bytes \<Rightarrow> (int \<times> int \<times> int) option" where
  "frame_head d = (case unpack_BHL (py_slice d 0 7) of Inl _ \<Rightarrow> None | Inr h \<Rightarrow> Some h)"

definition frame_length :: "bytes \<Rightarrow> nat option" where
  "frame_length d = map_option (\<lambda>(_, _, n). 8 + nat n) (frame_head d)"

lemma unpack_BHL_ok: "length d = 7 \<Longrightarrow> \<exists>a b c. unpack_BHL d = Inr (a, b, c)"
  using u8.unpack_ok [of 0 d] u16.unpack_ok [of 1 d] u32.unpack_ok [of 3 d]
  by (auto simp: unpack_BHL_def)

lemma frame_head_None: "frame_head d = None \<longleftrightarrow> length d < 7"
proof (cases "length d < 7")
  case True
  then show ?thesis by (simp add: frame_head_def unpack_BHL_def)
next
  case False
  then have "length (py_slice d 0 7) = 7" by simp
  from unpack_BHL_ok [OF this] False show ?thesis by (auto simp: frame_head_def)
qed

lemma frame_head_append: "7 \<le> length d \<Longrightarrow> frame_head (d @ x) = frame_head d"
  by (simp add: frame_head_def py_slice_append_left)

text \<open>\<open>read_frame\<close> through the header: which of its exits it takes.\<close>

lemma read_frame_alt:
  "read_frame d =
     (case frame_head d of
        None \<Rightarrow> Inr None
      | Some (ty, ch, n) \<Rightarrow>
          if length d < 8 + nat n then Inr None
          else if py_slice d (7 + nat n) (8 + nat n) \<noteq> [0xCE] then Inl InvalidFrameError
          else build_frame ty ch (8 + nat n) (py_slice d 7 (7 + nat n)))"
  by (simp add: read_frame_def frame_head_def frame_consts Let_def split: sum.splits)

definition complete_frame :: "bytes \<Rightarrow> bool" where
  "complete_frame d \<longleftrightarrow> (case frame_length d of None \<Rightarrow> False | Some n \<Rightarrow> n \<le> length d)"

lemma incomplete_frame: "\<not> complete_frame d \<Longrightarrow> read_frame d = Inr None"
  by (auto simp: complete_frame_def frame_length_def read_frame_alt split: option.splits)

lemma complete_frame_append:
  assumes "complete_frame d"
  shows "complete_frame (d @ x)" and "read_frame (d @ x) = read_frame d"
proof -
  from assms obtain ty ch n where h: "frame_head d = Some (ty, ch, n)" and n: "8 + nat n \<le> length d"
    by (auto simp: complete_frame_def frame_length_def split: option.splits)
  from h have "\<not> length d < 7" using frame_head_None [of d] by auto
  with h have "frame_head (d @ x) = Some (ty, ch, n)" by (simp add: frame_head_append)
  with h n show "complete_frame (d @ x)" and "read_frame (d @ x) = read_frame d"
    by (simp_all add: complete_frame_def frame_length_def read_frame_alt py_slice_append_left)
qed

lemma build_frame_size:
  "build_frame ty ch n payload = Inr (Some f) \<Longrightarrow> frame_size f = n"
  by (auto simp: build_frame_def new_method_def new_header_def elim!: bindE_InrE
      split: if_splits prod.splits)

lemma build_frame_channel:
  "build_frame ty ch n payload = Inr (Some f) \<Longrightarrow> (\<nexists>k. f = HeartBeat k) \<Longrightarrow> channel_number f = ch"
  by (auto simp: build_frame_def new_method_def new_header_def elim!: bindE_InrE
      split: if_splits prod.splits)

lemma build_frame_typed: "build_frame ty ch n payload = Inr (Some f) \<Longrightarrow> frame_typed f"
  by (auto simp: build_frame_def dest: new_method_typed new_header_typed elim!: bindE_InrE
      split: if_splits prod.splits) (simp_all add: frame_typed_def)

lemma read_frame_Some:
  assumes "read_frame d = Inr (Some f)"
  shows "complete_frame d" and "8 \<le> frame_size f" and "frame_size f \<le> length d" and "frame_typed f"
proof -
  show "complete_frame d" using assms incomplete_frame by fastforce
  from assms obtain ty ch n where h: "frame_head d = Some (ty, ch, n)"
    by (cases "frame_head d") (auto simp: read_frame_alt)
  with assms have n: "8 + nat n \<le> length d"
    and b: "build_frame ty ch (8 + nat n) (py_slice d 7 (7 + nat n)) = Inr (Some f)"
    by (auto simp: read_frame_alt split: if_splits)
  from n build_frame_size [OF b] show "8 \<le> frame_size f" and "frame_size f \<le> length d" by simp_all
  from b show "frame_typed f" by (rule build_frame_typed)
qed

lemma read_frame_channel:
  assumes "read_frame d = Inr (Some f)" and "\<nexists>k. f = HeartBeat k"
  shows "0 \<le> channel_number f" and "channel_number f < 65536"
proof -
  from assms obtain ty ch n where h: "frame_head d = Some (ty, ch, n)"
    by (cases "frame_head d") (auto simp: read_frame_alt)
  then have "0 \<le> ch \<and> ch < 65536"
    by (auto simp: frame_head_def unpack_BHL_def split: sum.splits if_splits
        elim!: bindE_InrE dest!: u16.unpack_InrD)
  moreover from assms(1) h have "build_frame ty ch (8 + nat n) (py_slice d 7 (7 + nat n)) = Inr (Some f)"
    by (auto simp: read_frame_alt split: if_splits)
  then have "channel_number f = ch" using assms(2) by (rule build_frame_channel)
  ultimately show "0 \<le> channel_number f" and "channel_number f < 65536" by simp_all
qed

lemma read_frame_error:
  "read_frame d = Inl e \<Longrightarrow> complete_frame d"
  using incomplete_frame by fastforce

text \<open>A frame laid out as AMQP has it, and what reading it gives.\<close>

definition frame_bytes :: "int \<Rightarrow> int \<Rightarrow> bytes \<Rightarrow> bytes" where
  "frame_bytes ty ch payload =
     be_bytes 1 ty @ be_bytes 2 ch @ be_bytes 4 (int (length payload)) @ payload @ [0xCE]"

lemma read_frame_bytes:
  assumes "0 \<le> ty" "ty < 2 ^ 8" "0 \<le> ch" "ch < 2 ^ 16" "int (length payload) < 2 ^ 32"
  shows "read_frame (frame_bytes ty ch payload @ rest)
    = build_frame ty ch (8 + length payload) payload"
proof -
  let ?t = "be_bytes 1 ty" and ?c = "be_bytes 2 ch" and ?n = "be_bytes 4 (int (length payload))"
  let ?d = "frame_bytes ty ch payload @ rest"
  have p: "pack_B ty = Inr ?t" "pack_H ch = Inr ?c" "pack_I (int (length payload)) = Inr ?n"
    using assms by (simp_all add: pack_B_def pack_H_def pack_I_def pack_u_def)
  have h7: "py_slice ?d 0 7 = ?t @ ?c @ ?n"
    by (simp add: frame_bytes_def py_slice_def)
  have "holds_at (?t @ ?c @ ?n) 0 (?t @ ?c @ ?n)" by (rule holds_at_start)
  then have "unpack_BHL (?t @ ?c @ ?n) = Inr (ty, ch, int (length payload))"
    using p by (auto simp: unpack_BHL_def numeral_3_eq_3 simp del: be_bytes.simps
        dest!: u8.field_at u16.field_at u32.field_at)
  with h7 have "frame_head ?d = Some (ty, ch, int (length payload))"
    by (simp add: frame_head_def)
  moreover have "holds_at ?d 0 (frame_bytes ty ch payload)" by (rule holds_at_start)
  then have "holds_at ?d 7 payload" "holds_at ?d (7 + length payload) [0xCE]"
    unfolding frame_bytes_def holds_at_append by simp_all
  then have "py_slice ?d 7 (7 + length payload) = payload"
    "py_slice ?d (7 + length payload) (8 + length payload) = [0xCE]"
    by (simp_all add: py_slice_at)
  moreover have "\<not> length ?d < 8 + length payload" by (simp add: frame_bytes_def)
  ultimately show ?thesis by (simp add: read_frame_alt)
qed

section \<open>Assembling a message\<close>

record message =
  headers :: frame
  msg_content :: bytes

definition new_message :: "frame \<Rightarrow> message" where
  "new_message h = \<lparr>headers = h, msg_content = []\<rparr>"

definition add_content :: "bytes \<Rightarrow> message \<Rightarrow> message" where
  "add_content c m = m\<lparr>msg_content := msg_content m @ c\<rparr>"

definition is_complete :: "message \<Rightarrow> bool" where
  "is_complete m \<longleftrightarrow> body_size (headers m) = int (length (msg_content m))"

end
