(* ===== verification/Dumps.thy ===== *)
theory Dumps
  imports Py_Value
begin

text \<open>
  The writing half of \<open>service/serialization.py\<close>: \<open>_write_item\<close>, \<open>_write_table\<close> and
  \<open>_write_array\<close> (tagged fields), \<open>_flushbits\<close> and \<open>dumps\<close> (arguments described by a format). The
  functions return the bytes they write to their own buffer: an exception discards them.
\<close>

section \<open>Tagged items\<close>

definition str_to_bytes :: "pystr \<Rightarrow> bytes result" where
  \<comment> \<open>\<open>s.encode('utf-8', 'surrogatepass')\<close>\<close>
  "str_to_bytes s = utf8_encode True s"

definition with_length :: "bytes \<Rightarrow> bytes result" where
  \<comment> \<open>\<open>write(pack('>I', len(b))); write(b)\<close>\<close>
  "with_length b = bindE (pack_I (int (length b))) (\<lambda>l. Inr (l @ b))"

definition value_error_as_syntax :: "'a result \<Rightarrow> 'a result" where
  \<comment> \<open>\<open>except ValueError: raise FrameSyntaxError\<close>, which also catches the Unicode errors\<close>
  "value_error_as_syntax r =
     (case r of
        Inl e \<Rightarrow> Inl (if e = ValueError \<or> e = UnicodeEncodeError \<or> e = UnicodeDecodeError
                      then FrameSyntaxError else e)
      | Inr v \<Rightarrow> Inr v)"

function (sequential)
  write_item :: "pyval \<Rightarrow> bytes result"
  and write_pairs :: "pydict \<Rightarrow> bytes result"
  and write_items :: "pyval list \<Rightarrow> bytes result"
where
  "write_item (PStr s) =
     bindE (str_to_bytes s) (\<lambda>b. bindE (with_length b) (\<lambda>d. Inr (tag CHR ''S'' # d)))"
| "write_item (PBytes b) = bindE (with_length b) (\<lambda>d. Inr (tag CHR ''S'' # d))"
| "write_item (PBool v) = bindE (pack_B (of_bool v)) (\<lambda>d. Inr (tag CHR ''t'' # d))"
| "write_item (PFloat w) = bindE (pack_Q (uint w)) (\<lambda>d. Inr (tag CHR ''d'' # d))"
| "write_item (PInt v) =
     (if v > 2147483647 \<or> v < -2147483647
      then bindE (pack_q v) (\<lambda>d. Inr (tag CHR ''L'' # d))
      else bindE (pack_i v) (\<lambda>d. Inr (tag CHR ''I'' # d)))"
| "write_item (PDecimal sign digits exponent) =
     bindE (pack_B (- exponent)) (\<lambda>e.
     bindE (pack_i (if sign then - int digits else int digits)) (\<lambda>n.
     Inr (tag CHR ''D'' # e @ n)))"
| "write_item (PDatetime t) = bindE (pack_Q t) (\<lambda>d. Inr (tag CHR ''T'' # d))"
| "write_item (PDict d) =
     bindE (write_pairs d) (\<lambda>b. bindE (with_length b) (\<lambda>t. Inr (tag CHR ''F'' # t)))"
| "write_item (PList l) =
     bindE (write_items l) (\<lambda>b. bindE (with_length b) (\<lambda>t. Inr (tag CHR ''A'' # t)))"
| "write_item PNone = Inr [tag CHR ''V'']"
| "write_item (PObj _) = Inl ValueError"
| "write_pairs [] = Inr []"
| "write_pairs ((k, v) # d) =
     bindE (str_to_bytes k) (\<lambda>kb.
     bindE (pack_B (int (length kb))) (\<lambda>l.
     bindE (value_error_as_syntax (write_item v)) (\<lambda>b.
     bindE (write_pairs d) (\<lambda>r.
     Inr (l @ kb @ b @ r)))))"
| "write_items [] = Inr []"
| "write_items (v # l) =
     bindE (value_error_as_syntax (write_item v)) (\<lambda>b.
     bindE (write_items l) (\<lambda>r.
     Inr (b @ r)))"
  by pat_completeness auto
termination
  by (relation "measure (\<lambda>x. case x of
        Inl v \<Rightarrow> size v
      | Inr (Inl d) \<Rightarrow> size_list (size_prod (\<lambda>_. 0) size) d
      | Inr (Inr l) \<Rightarrow> size_list size l)") auto

definition write_table :: "pydict \<Rightarrow> bytes result" where
  "write_table d = bindE (write_pairs d) with_length"

definition write_array :: "pyval list \<Rightarrow> bytes result" where
  "write_array l = bindE (write_items l) with_length"

section \<open>Arguments described by a format\<close>

text \<open>
  The state of the loop of \<open>dumps\<close>: \<open>bitcount\<close>, the bytes of pending bits and the output.
\<close>

record dump_state =
  bitcount :: nat
  bits :: bytes
  out :: bytes

definition flushbits :: "dump_state \<Rightarrow> dump_state" where
  "flushbits s = s\<lparr>bitcount := 0, bits := [], out := out s @ bits s\<rparr>"

definition emit :: "bytes \<Rightarrow> dump_state \<Rightarrow> dump_state" where
  "emit b s = s\<lparr>out := out s @ b\<rparr>"

lemma emit_inject [simp]: "emit b s = emit c s \<longleftrightarrow> b = c"
  by (auto simp: emit_def dest: arg_cong [of _ _ out])

lemma emit_flush_sel [simp]:
  "out (emit b s) = out s @ b" "bits (emit b s) = bits s" "bitcount (emit b s) = bitcount s"
  "out (flushbits s) = out s @ bits s" "bits (flushbits s) = []" "bitcount (flushbits s) = 0"
  by (simp_all add: emit_def flushbits_def)

definition dump_bit :: "bool \<Rightarrow> dump_state \<Rightarrow> dump_state" where
  "dump_bit val s =
     (let shift = bitcount s mod 8;
          bs = (if shift = 0 then bits s @ [0] else bits s)
      in s\<lparr>bits := butlast bs @ [last bs OR push_bit shift (of_bool val)],
           bitcount := bitcount s + 1\<rparr>)"

definition encode_str :: "pyval \<Rightarrow> pyval result" where
  \<comment> \<open>\<open>if isinstance(val, str): val = val.encode('utf-8', 'surrogatepass')\<close>\<close>
  "encode_str v = (case v of PStr s \<Rightarrow> bindE (str_to_bytes s) (\<lambda>b. Inr (PBytes b)) | _ \<Rightarrow> Inr v)"

definition py_len :: "pyval \<Rightarrow> int result" where
  "py_len v =
     (case v of
        PStr s \<Rightarrow> Inr (int (length s))
      | PBytes b \<Rightarrow> Inr (int (length b))
      | PList l \<Rightarrow> Inr (int (length l))
      | PDict d \<Rightarrow> Inr (int (length d))
      | _ \<Rightarrow> Inl TypeError)"

definition as_buffer :: "pyval \<Rightarrow> bytes result" where
  \<comment> \<open>the argument of \<open>BytesIO.write\<close>\<close>
  "as_buffer v = (case v of PBytes b \<Rightarrow> Inr b | _ \<Rightarrow> Inl TypeError)"

definition write_str :: "(int \<Rightarrow> bytes result) \<Rightarrow> pyval \<Rightarrow> bytes result" where
  \<comment> \<open>\<open>val or ''\<close>, encoded, its packed length and its bytes\<close>
  "write_str pack_len val =
     bindE (encode_str (or_else val (PStr []))) (\<lambda>v.
     bindE (bindE (py_len v) pack_len) (\<lambda>l.
     bindE (as_buffer v) (\<lambda>b. Inr (l @ b))))"

definition iterate :: "pyval \<Rightarrow> pyval list result" where
  \<comment> \<open>\<open>for v in l\<close>\<close>
  "iterate v =
     (case v of
        PList l \<Rightarrow> Inr l
      | PStr s \<Rightarrow> Inr (map (\<lambda>c. PStr [c]) s)
      | PBytes b \<Rightarrow> Inr (map (\<lambda>w. PInt (uint w)) b)
      | PDict d \<Rightarrow> Inr (map (\<lambda>(k, _). PStr k) d)
      | _ \<Rightarrow> Inl TypeError)"

definition dumps_field :: "char \<Rightarrow> pyval \<Rightarrow> dump_state \<Rightarrow> dump_state result" where
  "dumps_field p val s =
     (if p = CHR ''b'' then Inr (dump_bit (truthy val) s)
      else if p = CHR ''o'' then
        bindE (bindE (as_index val) pack_B) (\<lambda>b. Inr (emit b (flushbits s)))
      else if p = CHR ''B'' then
        bindE (bindE (py_int val) pack_H) (\<lambda>b. Inr (emit b (flushbits s)))
      else if p = CHR ''l'' then
        bindE (bindE (as_index val) pack_I) (\<lambda>b. Inr (emit b (flushbits s)))
      else if p = CHR ''L'' then
        bindE (bindE (as_index val) pack_Q) (\<lambda>b. Inr (emit b (flushbits s)))
      else if p = CHR ''f'' then
        bindE (bindE (bindE (as_float val) f32_of_f64) pack_I) (\<lambda>b. Inr (emit b (flushbits s)))
      else if p = CHR ''s'' then
        bindE (write_str pack_B val) (\<lambda>b. Inr (emit b (flushbits s)))
      else if p = CHR ''S'' then
        bindE (write_str pack_I val) (\<lambda>b. Inr (emit b (flushbits s)))
      else if p = CHR ''F'' then
        (case or_else val (PDict []) of
           PDict d \<Rightarrow> bindE (write_table d) (\<lambda>b. Inr (emit b (flushbits s)))
         | _ \<Rightarrow> Inl AttributeError)
      else if p = CHR ''A'' then
        bindE (iterate (or_else val (PList []))) (\<lambda>l.
        bindE (write_array l) (\<lambda>b. Inr (emit b (flushbits s))))
      else if p = CHR ''T'' then
        (case val of PDatetime t \<Rightarrow> bindE (pack_Q t) (\<lambda>b. Inr (emit b s)) | _ \<Rightarrow> Inl AttributeError)
      else Inr s)"

fun dumps_loop :: "string \<Rightarrow> pyval list \<Rightarrow> dump_state \<Rightarrow> dump_state result" where
  "dumps_loop format [] s = Inr s"
| "dumps_loop [] (v # values) s = Inl IndexError"
| "dumps_loop (p # format) (v # values) s =
     bindE (dumps_field p v s) (\<lambda>s'. dumps_loop format values s')"

definition dumps :: "string \<Rightarrow> pyval list \<Rightarrow> bytes result" where
  "dumps format values =
     bindE (dumps_loop format values \<lparr>bitcount = 0, bits = [], out = []\<rparr>)
       (\<lambda>s. Inr (out (flushbits s)))"

end
