(* ===== verification/Codec.thy ===== *)
theory Codec
  imports Loads Dumps
begin

text \<open>
  The two halves of \<open>service/serialization.py\<close> against each other: an item, a table, an array or a
  list of arguments that \<open>dumps\<close> writes is read back by \<open>loads\<close> as the value it was, wherever in
  a larger buffer it stands.
\<close>

section \<open>Values that survive the wire\<close>

text \<open>
  Byte strings come back as text, decimals in normal form, datetimes up to the year 9999, and a
  Python dictionary has distinct keys. Integers, floats and strings need no condition of their own:
  what does not fit a field is refused by the writer.
\<close>

fun canonical :: "pyval \<Rightarrow> bool" where
  "canonical (PBytes _) = False"
| "canonical (PDecimal neg c e) = ((e < 0 \<longrightarrow> c mod 10 \<noteq> 0) \<and> (neg \<longrightarrow> c \<noteq> 0))"
| "canonical (PDatetime t) = (t \<le> 253402300799)"
| "canonical (PDict d) = (distinct (map fst d) \<and> list_all (\<lambda>v. canonical v) (map snd d))"
| "canonical (PList l) = list_all (\<lambda>v. canonical v) l"
| "canonical _ = True"

section \<open>Tagged items\<close>

text \<open>Decimals: the normal form of a quotient is the decimal that was written.\<close>

lemma strip_zeros_normal: "(0 < k \<longrightarrow> c mod 10 \<noteq> 0) \<Longrightarrow> strip_zeros c k = (c, k)"
  by (cases k) auto

lemma decimal_of_canonical:
  assumes "canonical (PDecimal neg c e)" and "e \<le> 0"
  shows "decimal_of (if neg then - int c else int c) (nat (- e)) = PDecimal neg c e"
  using assms by (auto simp: decimal_of_def strip_zeros_normal)

lemma value_error_as_syntax_Inr [simp]: "value_error_as_syntax r = Inr v \<longleftrightarrow> r = Inr v"
  by (simp add: value_error_as_syntax_def split: sum.splits)

lemma with_length_Inr:
  "with_length b = Inr d \<longleftrightarrow> (\<exists>l. pack_I (int (length b)) = Inr l \<and> d = l @ b)"
  by (auto simp: with_length_def bindE_eq_Inr)

lemma str_codec: "str_to_bytes s = Inr b \<Longrightarrow> bytes_to_str b = Inr s"
  by (simp add: str_to_bytes_def bytes_to_str_def utf8_decode_encode)

lemma tag_Inr: "bindE m (\<lambda>d. Inr (t # d)) = Inr bs \<longleftrightarrow> (\<exists>d. m = Inr d \<and> bs = t # d)"
  by (auto simp: bindE_eq_Inr)

lemma read_item_scalar:
  "byte_at buf off = Inr t \<Longrightarrow> t \<noteq> tag CHR ''F'' \<Longrightarrow> t \<noteq> tag CHR ''A'' \<Longrightarrow>
     read_item buf off = read_scalar t buf (off + 1)"
  by (simp add: read_item.simps [of buf off])

lemma read_scalar_tags:
  "read_scalar (tag CHR ''S'') buf off =
     bindE (unpack_I buf off) (\<lambda>slen.
     bindE (bytes_to_str (py_slice buf (off + 4) (off + 4 + nat slen))) (\<lambda>val.
     Inr (PStr val, off + 4 + nat slen)))"
  "read_scalar (tag CHR ''I'') buf off = bindE (unpack_i buf off) (\<lambda>val. Inr (PInt val, off + 4))"
  "read_scalar (tag CHR ''L'') buf off = bindE (unpack_q buf off) (\<lambda>val. Inr (PInt val, off + 8))"
  "read_scalar (tag CHR ''d'') buf off =
     bindE (unpack_Q buf off) (\<lambda>val. Inr (PFloat (word_of_int val), off + 8))"
  "read_scalar (tag CHR ''D'') buf off =
     bindE (unpack_B buf off) (\<lambda>d. bindE (unpack_i buf (off + 1)) (\<lambda>n.
     Inr (decimal_of n (nat d), off + 5)))"
  "read_scalar (tag CHR ''t'') buf off =
     bindE (unpack_B buf off) (\<lambda>val. Inr (PBool (val \<noteq> 0), off + 1))"
  "read_scalar (tag CHR ''T'') buf off =
     bindE (unpack_Q buf off) (\<lambda>val. bindE (utcfromtimestamp val) (\<lambda>t. Inr (t, off + 8)))"
  "read_scalar (tag CHR ''V'') buf off = Inr (PNone, off)"
  by (simp_all add: read_scalar_def)

lemma read_write_str:
  assumes "with_length b = Inr d" and "bytes_to_str b = Inr s" and "holds_at buf off (tag CHR ''S'' # d)"
  shows "read_item buf off = Inr (PStr s, off + length (tag CHR ''S'' # d))"
proof -
  from assms obtain l where l: "pack_I (int (length b)) = Inr l" and d: "d = l @ b"
    by (auto simp: with_length_Inr)
  have h: "byte_at buf off = Inr (tag CHR ''S'')" "holds_at buf (off + 1) l" "holds_at buf (off + 5) b"
    using assms(3) u32.pack_length [OF l] by (auto simp: d holds_at_Cons ac_simps)
  show ?thesis
    using assms(2) u32.pack_length [OF l] u32.unpack_at [OF l h(2)] py_slice_at [OF h(3) refl]
    by (simp add: read_item_scalar [OF h(1)] read_scalar_tags d add.commute add.left_commute)
qed

lemma read_write_scalar:
  assumes "canonical v" and "write_item v = Inr bs" and "holds_at buf off bs"
    and "\<forall>d. v \<noteq> PDict d" and "\<forall>l. v \<noteq> PList l"
  shows "read_item buf off = Inr (v, off + length bs)"
proof (cases v)
  case (PStr s)
  with assms show ?thesis
    by (auto simp: tag_Inr dest!: str_codec intro!: read_write_str elim!: bindE_InrE)
next
  case (PBool b)
  with assms u8.tagged_field [of "of_bool b" "tag CHR ''t''" bs buf off] show ?thesis
    by (simp add: read_item_scalar read_scalar_tags)
next
  case (PInt i)
  with assms i64.tagged_field [of i "tag CHR ''L''" bs buf off]
    i32.tagged_field [of i "tag CHR ''I''" bs buf off] show ?thesis
    by (auto simp: read_item_scalar read_scalar_tags split: if_splits)
next
  case (PFloat w)
  with assms u64.tagged_field [of "uint w" "tag CHR ''d''" bs buf off] show ?thesis
    by (simp add: read_item_scalar read_scalar_tags)
next
  case (PDatetime t)
  with assms u64.tagged_field [of t "tag CHR ''T''" bs buf off] show ?thesis
    by (simp add: read_item_scalar read_scalar_tags utcfromtimestamp_def)
next
  case (PDecimal neg c e)
  with assms obtain x n where x: "pack_B (- e) = Inr x"
    and n: "pack_i (if neg then - int c else int c) = Inr n" and bs: "bs = tag CHR ''D'' # x @ n"
    by (auto elim!: bindE_InrE)
  with assms(3) have h: "byte_at buf off = Inr (tag CHR ''D'')" "holds_at buf (off + 1) x"
    "holds_at buf (off + 1 + 1) n"
    using u8.pack_length [OF x] by (auto simp: holds_at_Cons)
  have "e \<le> 0" using u8.pack_Inr_ok [OF x] by simp
  then show ?thesis
    using u8.unpack_at [OF x h(2)] i32.unpack_at [OF n h(3)] u8.pack_length [OF x]
      i32.pack_length [OF n] decimal_of_canonical [of neg c e] assms(1)
    by (simp add: read_item_scalar [OF h(1)] read_scalar_tags PDecimal bs)
next
  case PNone
  with assms have h: "byte_at buf off = Inr (tag CHR ''V'')" and bs: "bs = [tag CHR ''V'']"
    by (auto simp: holds_at_Cons)
  show ?thesis
    by (simp add: read_item_scalar [OF h] read_scalar_tags PNone bs)
qed (use assms in auto)

lemma read_write:
  "canonical v \<Longrightarrow> write_item v = Inr bs \<Longrightarrow> holds_at buf off bs \<Longrightarrow>
     read_item buf off = Inr (v, off + length bs)"
  "canonical (PDict d) \<Longrightarrow> write_pairs d = Inr bs \<Longrightarrow> holds_at buf off bs \<Longrightarrow>
     fst ` set acc \<inter> fst ` set d = {} \<Longrightarrow>
     read_table buf off (off + length bs) acc = Inr (acc @ d, off + length bs)"
  "canonical (PList l) \<Longrightarrow> write_items l = Inr bs \<Longrightarrow> holds_at buf off bs \<Longrightarrow>
     read_array buf off (off + length bs) vs = Inr (vs @ l, off + length bs)"
proof (induction v and d and l arbitrary: bs off and bs off acc and bs off vs
    rule: write_item_write_pairs_write_items.induct)
  case (8 d)
  then obtain b l where b: "write_pairs d = Inr b" and l: "pack_I (int (length b)) = Inr l"
    and bs: "bs = tag CHR ''F'' # l @ b"
    by (auto simp: with_length_Inr elim!: bindE_InrE)
  with "8.prems"(3) have h: "byte_at buf off = Inr (tag CHR ''F'')" "holds_at buf (off + 1) l"
    "holds_at buf (off + 5) b"
    using u32.pack_length [OF l] by (auto simp: holds_at_Cons ac_simps)
  have "read_table buf (off + 5) (off + 5 + length b) [] = Inr ([] @ d, off + 5 + length b)"
    by (rule "8.IH") (use "8.prems" b h in auto)
  with u32.unpack_at [OF l h(2)] u32.pack_length [OF l] show ?case
    by (simp add: read_item.simps [of buf off] h(1) bs ac_simps)
next
  case (9 l)
  then obtain b n where b: "write_items l = Inr b" and n: "pack_I (int (length b)) = Inr n"
    and bs: "bs = tag CHR ''A'' # n @ b"
    by (auto simp: with_length_Inr elim!: bindE_InrE)
  with "9.prems"(3) have h: "byte_at buf off = Inr (tag CHR ''A'')" "holds_at buf (off + 1) n"
    "holds_at buf (off + 5) b"
    using u32.pack_length [OF n] by (auto simp: holds_at_Cons ac_simps)
  have "read_array buf (off + 5) (off + 5 + length b) [] = Inr ([] @ l, off + 5 + length b)"
    by (rule "9.IH") (use "9.prems" b h in auto)
  with u32.unpack_at [OF n h(2)] u32.pack_length [OF n] show ?case
    by (simp add: read_item.simps [of buf off] h(1) bs ac_simps)
next
  case (13 k v d)
  then obtain kb n b r where kb: "str_to_bytes k = Inr kb" and n: "pack_B (int (length kb)) = Inr n"
    and b: "write_item v = Inr b" and r: "write_pairs d = Inr r" and bs: "bs = n @ kb @ b @ r"
    by (auto elim!: bindE_InrE)
  with "13.prems"(3) have h: "holds_at buf off n" "holds_at buf (off + 1) kb"
    "holds_at buf (off + 1 + length kb) b" "holds_at buf (off + 1 + length kb + length b) r"
    using u8.pack_length [OF n] by auto
  have item: "read_item buf (off + 1 + length kb) = Inr (v, off + 1 + length kb + length b)"
    by (rule "13.IH"(1)) (use "13.prems" kb n b h in auto)
  have new: "AList.update k v acc = acc @ [(k, v)]"
    using "13.prems"(4) by (auto intro: update_new)
  have "read_table buf (off + 1 + length kb + length b)
      (off + 1 + length kb + length b + length r) (acc @ [(k, v)])
    = Inr ((acc @ [(k, v)]) @ d, off + 1 + length kb + length b + length r)"
    by (rule "13.IH"(2)) (use "13.prems" kb n b r h in auto)
  with u8.unpack_at [OF n h(1)] u8.pack_length [OF n] str_codec [OF kb] py_slice_at [OF h(2) refl]
    item new show ?case
    by (simp add: read_table.simps [of buf off] bs ac_simps)
next
  case (15 v l)
  then obtain b r where b: "write_item v = Inr b" and r: "write_items l = Inr r" and bs: "bs = b @ r"
    by (auto elim!: bindE_InrE)
  with "15.prems"(3) have h: "holds_at buf off b" "holds_at buf (off + length b) r" by auto
  have item: "read_item buf off = Inr (v, off + length b)"
    by (rule "15.IH"(1)) (use "15.prems" b h in auto)
  with read_item_progress [OF item] have "0 < length b" by simp
  moreover have "read_array buf (off + length b) (off + length b + length r) (vs @ [v])
    = Inr ((vs @ [v]) @ l, off + length b + length r)"
    by (rule "15.IH"(2)) (use "15.prems" b r h in auto)
  ultimately show ?case
    using item by (simp add: read_array.simps [of buf off] bs ac_simps)
qed (auto intro: read_write_scalar simp: read_table.simps read_array.simps)

section \<open>Arguments\<close>

text \<open>
  The formats for which writer and reader agree. Bits share bytes, and the reader takes one byte for
  a whole run of \<open>b\<close>, so a run has at most eight; \<open>T\<close> does not flush pending bits, so it does not
  follow a \<open>b\<close>; \<open>f\<close> rounds. The count is of the bits pending.
\<close>

fun format_ok :: "nat \<Rightarrow> string \<Rightarrow> bool" where
  "format_ok k [] = True"
| "format_ok k (p # format) =
     (if p = CHR ''b'' then k < 8 \<and> format_ok (Suc k) format
      else p \<noteq> CHR ''f'' \<and> (p = CHR ''T'' \<longrightarrow> k = 0) \<and> format_ok 0 format)"

definition field_ok :: "char \<Rightarrow> pyval \<Rightarrow> bool" where
  "field_ok p v \<longleftrightarrow> letter_type p v \<and> canonical v"

lemma write_str_PStr:
  "write_str pack_len (PStr s) = Inr b \<longleftrightarrow>
     (\<exists>e l. str_to_bytes s = Inr e \<and> pack_len (int (length e)) = Inr l \<and> b = l @ e)"
  by (cases "s = []")
    (auto simp: write_str_def or_else_def encode_str_def py_len_def as_buffer_def str_to_bytes_def
      bindE_eq_Inr)

lemma low_bit_iff: "drop_bit k (unat w) mod 2 = Suc 0 \<longleftrightarrow> bit (w :: byte) k"
proof -
  have "drop_bit k (unat w) mod 2 = Suc 0 \<longleftrightarrow> odd (drop_bit k (unat w))"
    by (simp add: odd_iff_mod_2_eq_one)
  then show ?thesis
    by (auto simp: bit_iff_odd_drop_bit [symmetric] bit_unsigned_iff dest: bit_imp_le_length)
qed

lemma pending_bit:
  assumes "k < 8" and "take_bit k w = (w :: byte)" and "take_bit (Suc k) w' = w OR push_bit k (of_bool v)"
  shows "take_bit k w' = w" and "(drop_bit k (unat w') AND 1 = 1) = v"
proof -
  have bits: "bit w' n \<and> n < Suc k \<longleftrightarrow> bit w n \<or> (n = k \<and> v)" for n
  proof -
    have "bit (take_bit (Suc k) w') n = bit (w OR push_bit k (of_bool v)) n"
      by (simp only: assms(3))
    with \<open>k < 8\<close> show ?thesis by (auto simp: bit_simps)
  qed
  have low: "bit w n \<Longrightarrow> n < k" for n
    using assms(2) by (metis bit_take_bit_iff)
  show "take_bit k w' = w"
  proof (rule bit_eqI)
    fix n
    show "bit (take_bit k w') n = bit w n"
      using bits [of n] low [of n] by (auto simp: bit_take_bit_iff)
  qed
  show "(drop_bit k (unat w') AND 1 = 1) = v"
    using bits [of k] low [of k] by (auto simp: low_bit_iff)
qed

definition reads_back :: "string \<Rightarrow> pyval list \<Rightarrow> nat \<Rightarrow> nat \<Rightarrow> bytes \<Rightarrow> bool" where
  "reads_back fmt vs bc bs r \<longleftrightarrow>
     (\<forall>buf off. holds_at buf off r \<longrightarrow> loads_loop fmt buf off bc bs = Inr (vs, off + length r))"

lemma reads_back_bit:
  assumes "reads_back fmt vs 7 (drop_bit (Suc k) (unat w)) r" and "bit (w :: byte) k = x"
  shows "reads_back (CHR ''b'' # fmt) (PBool x # vs) 7 (drop_bit k (unat w)) r"
  using assms by (auto simp: reads_back_def loads_field_def low_bit_iff drop_bit_Suc drop_bit_half)

lemma ord_at_at: "holds_at buf off (w # r) \<Longrightarrow> ord_at buf off = Inr (unat w)"
  using py_slice_at [of buf off "[w]" "off + 1"] holds_at_append [of buf off "[w]" r]
  by (simp add: ord_at_def)

lemma reads_back_first_bit:
  assumes "reads_back fmt vs 7 (drop_bit (Suc 0) (unat w)) r" and "bit w 0 = x"
  shows "reads_back (CHR ''b'' # fmt) (PBool x # vs) 0 0 (w # r)"
  using assms low_bit_iff [of 0 w]
  by (auto simp: reads_back_def loads_field_def ord_at_at holds_at_Cons)

lemma bind_pack_Inr:
  "bindE m (\<lambda>b. Inr (emit b s)) = Inr s' \<longleftrightarrow> (\<exists>b. m = Inr b \<and> s' = emit b s)"
  by (auto simp: bindE_eq_Inr)

text \<open>A field other than a bit, once the pending bits are flushed.\<close>

definition field_reads_back :: "char \<Rightarrow> pyval \<Rightarrow> bytes \<Rightarrow> bool" where
  "field_reads_back p v b \<longleftrightarrow>
     (\<forall>buf off bc bs. holds_at buf off b \<longrightarrow>
        loads_field p buf off bc bs = Inr (v, off + length b, 0, 0))"

lemma reads_back_field:
  assumes "field_reads_back p v b" and "reads_back fmt vs 0 0 r"
  shows "reads_back (p # fmt) (v # vs) bc bs (b @ r)"
  using assms by (auto simp: reads_back_def field_reads_back_def ac_simps)

lemma field_reads_back_int:
  assumes "letter_type p (PInt i)" and "dumps_field p (PInt i) s = Inr s'"
  shows "\<exists>b. s' = emit b (flushbits s) \<and> field_reads_back p (PInt i) b"
proof -
  note d = dumps_field_def loads_field_def field_reads_back_def bind_pack_Inr
  from assms(1) consider "p = CHR ''o''" | "p = CHR ''B''" | "p = CHR ''l''" | "p = CHR ''L''"
    by auto
  then show ?thesis
    using assms(2)
    by cases (auto simp: d dest!: u8.field_at u16.field_at u32.field_at u64.field_at)
qed

lemma field_reads_back_str:
  assumes "p = CHR ''s'' \<or> p = CHR ''S''" and "dumps_field p (PStr t) s = Inr s'"
  shows "\<exists>b. s' = emit b (flushbits s) \<and> field_reads_back p (PStr t) b"
proof -
  note d = dumps_field_def loads_field_def field_reads_back_def bind_pack_Inr write_str_PStr
  have dec: "utf8_decode True e = Inr t" if "str_to_bytes t = Inr e" for e
    using str_codec [OF that] by (simp add: bytes_to_str_def)
  from assms show ?thesis
    by (auto simp: d dec py_slice_at dest!: u8.field_at u32.field_at)
qed

lemma field_reads_back_table:
  assumes "canonical (PDict d)" and "dumps_field CHR ''F'' (PDict d) s = Inr s'"
  shows "\<exists>b. s' = emit b (flushbits s) \<and> field_reads_back CHR ''F'' (PDict d) b"
proof -
  have "or_else (PDict d) (PDict []) = PDict d" by (simp add: or_else_def)
  with assms(2) obtain r l where r: "write_pairs d = Inr r" and l: "pack_I (int (length r)) = Inr l"
    and s': "s' = emit (l @ r) (flushbits s)"
    by (auto simp: dumps_field_def bind_pack_Inr write_table_def with_length_Inr elim!: bindE_InrE)
  have "loads_field CHR ''F'' buf off bc bs = Inr (PDict d, off + length (l @ r), 0, 0)"
    if h: "holds_at buf off (l @ r)" for buf off bc bs
  proof -
    from h u32.pack_length [OF l] have h': "holds_at buf off l" "holds_at buf (off + 4) r" by auto
    from read_write(2) [OF assms(1) r h'(2), of "[]"] u32.unpack_at [OF l h'(1)] u32.pack_length [OF l]
    show ?thesis by (simp add: loads_field_def ac_simps)
  qed
  with s' show ?thesis by (auto simp: field_reads_back_def)
qed

lemma field_reads_back_array:
  assumes "canonical (PList d)" and "dumps_field CHR ''A'' (PList d) s = Inr s'"
  shows "\<exists>b. s' = emit b (flushbits s) \<and> field_reads_back CHR ''A'' (PList d) b"
proof -
  have "or_else (PList d) (PList []) = PList d" by (simp add: or_else_def)
  with assms(2) obtain r l where r: "write_items d = Inr r" and l: "pack_I (int (length r)) = Inr l"
    and s': "s' = emit (l @ r) (flushbits s)"
    by (auto simp: dumps_field_def bind_pack_Inr iterate_def write_array_def with_length_Inr
        elim!: bindE_InrE)
  have "loads_field CHR ''A'' buf off bc bs = Inr (PList d, off + length (l @ r), 0, 0)"
    if h: "holds_at buf off (l @ r)" for buf off bc bs
  proof -
    from h u32.pack_length [OF l] have h': "holds_at buf off l" "holds_at buf (off + 4) r" by auto
    from read_write(3) [OF assms(1) r h'(2), of "[]"] u32.unpack_at [OF l h'(1)] u32.pack_length [OF l]
    show ?thesis by (simp add: loads_field_def ac_simps)
  qed
  with s' show ?thesis by (auto simp: field_reads_back_def)
qed

lemma field_reads_back_timestamp:
  assumes "canonical (PDatetime t)" and "dumps_field CHR ''T'' (PDatetime t) s = Inr s'"
  shows "\<exists>b. s' = emit b s \<and> field_reads_back CHR ''T'' (PDatetime t) b"
  using assms
  by (auto simp: dumps_field_def loads_field_def field_reads_back_def bind_pack_Inr
      utcfromtimestamp_def dest!: u64.field_at)

lemma field_write_read:
  assumes w: "dumps_field p v s = Inr s'" and ok: "field_ok p v"
    and p: "p \<noteq> CHR ''b''" "p \<noteq> CHR ''f''" "p = CHR ''T'' \<Longrightarrow> bits s = [] \<and> bitcount s = 0"
  shows "\<exists>b. s' = emit b (flushbits s) \<and> field_reads_back p v b"
proof -
  have fl: "flushbits s = s" if "bits s = []" "bitcount s = 0"
    using that by (simp add: flushbits_def)
  from assms field_reads_back_int [of p _ s s'] field_reads_back_str [of p _ s s']
    field_reads_back_table [of _ s s'] field_reads_back_array [of _ s s']
    field_reads_back_timestamp [of _ s s']
  show ?thesis by (cases v) (auto simp: field_ok_def fl)
qed

text \<open>
  The loop of \<open>dumps\<close> from a state without pending bits, and from one with \<open>k\<close> of them in the byte
  \<open>w\<close>, against the loop of \<open>loads\<close>.
\<close>

lemma dump_bit_first:
  "bits s = [] \<Longrightarrow> bitcount s = 0 \<Longrightarrow>
     bits (dump_bit x s) = [of_bool x] \<and> bitcount (dump_bit x s) = 1 \<and> out (dump_bit x s) = out s"
  by (simp add: dump_bit_def)

lemma dump_bit_next:
  "bits s = [w] \<Longrightarrow> bitcount s = k \<Longrightarrow> 0 < k \<Longrightarrow> k < 8 \<Longrightarrow>
     bits (dump_bit x s) = [w OR push_bit k (of_bool x)] \<and> bitcount (dump_bit x s) = Suc k
     \<and> out (dump_bit x s) = out s"
  by (simp add: dump_bit_def)

lemma take_bit_or_push: "k < 8 \<Longrightarrow> take_bit k w = (w :: byte) \<Longrightarrow>
    take_bit (Suc k) (w OR push_bit k (of_bool x)) = w OR push_bit k (of_bool x)"
proof (rule bit_eqI)
  fix n
  assume "k < 8" and "take_bit k w = w"
  then have "bit w n \<Longrightarrow> n < k" by (metis bit_take_bit_iff)
  with \<open>k < 8\<close> show "bit (take_bit (Suc k) (w OR push_bit k (of_bool x))) n
      = bit (w OR push_bit k (of_bool x)) n"
    by (auto simp: bit_simps)
qed

definition clean :: "dump_state \<Rightarrow> bool" where
  "clean s \<longleftrightarrow> bits s = [] \<and> bitcount s = 0"

definition pending :: "dump_state \<Rightarrow> byte \<Rightarrow> nat \<Rightarrow> bool" where
  "pending s w k \<longleftrightarrow> bits s = [w] \<and> bitcount s = k \<and> 0 < k \<and> k \<le> 8 \<and> take_bit k w = w"

lemma pending_dump_bit:
  "clean s \<Longrightarrow> pending (dump_bit x s) (of_bool x) 1"
  "pending s w k \<Longrightarrow> k < 8 \<Longrightarrow> pending (dump_bit x s) (w OR push_bit k (of_bool x)) (Suc k)"
  using dump_bit_first [of s x] dump_bit_next [of s w k x] take_bit_or_push [of k w x]
  by (auto simp: clean_def pending_def)

lemma dumps_loop_read:
  "list_all2 field_ok fmt vs \<Longrightarrow> dumps_loop fmt vs s = Inr s' \<Longrightarrow>
    (clean s \<and> format_ok 0 fmt \<longrightarrow>
      (\<exists>r. out (flushbits s') = out s @ r \<and> reads_back fmt vs 0 0 r)) \<and>
    (\<forall>w k. pending s w k \<and> format_ok k fmt \<longrightarrow>
      (\<exists>w' r. out (flushbits s') = out s @ w' # r \<and> take_bit k w' = w \<and>
        reads_back fmt vs 7 (drop_bit k (unat w')) r))"
proof (induction fmt arbitrary: vs s)
  case Nil
  then show ?case by (auto simp: reads_back_def clean_def pending_def)
next
  case (Cons p fmt)
  then obtain v vs' where vs: "vs = v # vs'" and v: "field_ok p v" and vs': "list_all2 field_ok fmt vs'"
    by (auto simp: list_all2_Cons1)
  with Cons.prems(2) obtain s1 where s1: "dumps_field p v s = Inr s1" and s': "dumps_loop fmt vs' s1 = Inr s'"
    by auto
  note IH = Cons.IH [OF vs' s']
  show ?case
  proof (cases "p = CHR ''b''")
    case True
    then obtain x where x: "v = PBool x" using v by (cases v) (auto simp: field_ok_def)
    with True s1 have s1: "s1 = dump_bit x s" by (simp add: dumps_field_def)
    have "\<exists>r. out (flushbits s') = out s @ r \<and> reads_back (p # fmt) vs 0 0 r"
      if "clean s" and "format_ok 0 (p # fmt)"
    proof -
      have "pending s1 (of_bool x) 1" and "out s1 = out s" and "format_ok 1 fmt"
        using that pending_dump_bit(1) [of s x] dump_bit_first [of s x] True
        by (auto simp: s1 clean_def)
      with IH obtain w' r where r: "out (flushbits s') = out s @ w' # r"
        "take_bit 1 w' = (of_bool x :: byte)" "reads_back fmt vs' 7 (drop_bit 1 (unat w')) r" by metis
      have "bit w' 0 = x" using r(2) by (auto simp: bit_0 dest: arg_cong [of _ _ odd])
      with r reads_back_first_bit [of fmt vs' w' r x] show ?thesis
        by (auto simp: True vs x)
    qed
    moreover have "\<exists>w' r. out (flushbits s') = out s @ w' # r \<and> take_bit k w' = w \<and>
        reads_back (p # fmt) vs 7 (drop_bit k (unat w')) r"
      if "pending s w k" and "format_ok k (p # fmt)" for w k
    proof -
      have k: "k < 8" and "pending s1 (w OR push_bit k (of_bool x)) (Suc k)" and "out s1 = out s"
        and "format_ok (Suc k) fmt"
        using that pending_dump_bit(2) [of s w k x] dump_bit_next [of s w k x] True
        by (auto simp: s1 pending_def)
      with IH obtain w' r where r: "out (flushbits s') = out s @ w' # r"
        "take_bit (Suc k) w' = w OR push_bit k (of_bool x)"
        "reads_back fmt vs' 7 (drop_bit (Suc k) (unat w')) r" by metis
      from that(1) have "take_bit k w = w" by (simp add: pending_def)
      from pending_bit [OF k this r(2)] have "take_bit k w' = w" and "bit w' k = x"
        by (simp_all add: low_bit_iff)
      with r reads_back_bit [of fmt vs' k w' r x] show ?thesis by (auto simp: True vs x)
    qed
    ultimately show ?thesis by blast
  next
    case False
    have step: "\<exists>r. out (flushbits s') = out s @ bits s @ r \<and> (\<forall>bc bs. reads_back (p # fmt) vs bc bs r)"
      if "clean s \<or> pending s w k" and "format_ok (bitcount s) (p # fmt)" for w k
    proof -
      have "p \<noteq> CHR ''f''" and "p = CHR ''T'' \<Longrightarrow> bits s = [] \<and> bitcount s = 0" and "format_ok 0 fmt"
        using that False by (auto simp: clean_def pending_def)
      with field_write_read [OF s1 v False] obtain b where
        b: "s1 = emit b (flushbits s)" "field_reads_back p v b" by blast
      then have "clean s1" by (simp add: clean_def)
      with IH \<open>format_ok 0 fmt\<close> obtain r where
        "out (flushbits s') = out s1 @ r" "reads_back fmt vs' 0 0 r" by blast
      with b reads_back_field [of p v b fmt vs' r] show ?thesis by (auto simp: vs)
    qed
    show ?thesis
    proof (intro conjI impI allI)
      assume "clean s \<and> format_ok 0 (p # fmt)"
      with step show "\<exists>r. out (flushbits s') = out s @ r \<and> reads_back (p # fmt) vs 0 0 r"
        by (auto simp: clean_def False)
    next
      fix w k
      assume "pending s w k \<and> format_ok k (p # fmt)"
      with step [of w k] show "\<exists>w' r. out (flushbits s') = out s @ w' # r \<and> take_bit k w' = w \<and>
        reads_back (p # fmt) vs 7 (drop_bit k (unat w')) r"
        by (auto simp: pending_def False)
    qed
  qed
qed

lemma loads_dumps_at:
  assumes "dumps fmt vs = Inr bs" and "list_all2 field_ok fmt vs" and "format_ok 0 fmt"
    and "holds_at buf off bs"
  shows "loads fmt buf off = Inr (vs, off + length bs)"
proof -
  from assms(1) obtain s' where s': "dumps_loop fmt vs \<lparr>bitcount = 0, bits = [], out = []\<rparr> = Inr s'"
    and bs: "bs = out (flushbits s')"
    by (auto simp: dumps_def)
  from dumps_loop_read [OF assms(2) s'] assms(3) have "reads_back fmt vs 0 0 bs"
    by (auto simp: clean_def bs)
  with assms(4) show ?thesis by (simp add: reads_back_def loads_def)
qed

end
