(* ===== verification/Sender.thy ===== *)
theory Sender
  imports Frames Codec
begin

text \<open>
  \<open>service/sender.py\<close>: the functions that write a frame on a transport. A transport is the sequence
  of the calls made on it and asyncio's closing flag. Each function is the sequence of its writes:
  an exception on the way leaves what was written before it.
\<close>

section \<open>Transports\<close>

datatype transport_call = Wrote bytes | Closed

record transport =
  calls :: "transport_call list"
  is_closing :: bool

definition new_transport :: transport where
  "new_transport = \<lparr>calls = [], is_closing = False\<rparr>"

definition transport_write :: "bytes \<Rightarrow> (transport, unit) eff" where
  "transport_write b = modifyS (\<lambda>t. t\<lparr>calls := calls t @ [Wrote b]\<rparr>)"

definition transport_close :: "(transport, unit) eff" where
  "transport_close = modifyS (\<lambda>t. t\<lparr>calls := calls t @ [Closed], is_closing := True\<rparr>)"

definition bytearray :: "int list \<Rightarrow> bytes result" where
  "bytearray xs =
     (if list_all (\<lambda>x. 0 \<le> x \<and> x < 256) xs then Inr (map word_of_int xs) else Inl ValueError)"

definition write_bytearray :: "int list \<Rightarrow> (transport, unit) eff" where
  "write_bytearray xs = bindS (liftE (bytearray xs)) transport_write"

definition write_length :: "int \<Rightarrow> (transport, unit) eff" where
  \<comment> \<open>\<open>transport.write(pack('>I', n))\<close>\<close>
  "write_length n = bindS (liftE (pack_I n)) transport_write"

section \<open>Method frames\<close>

text \<open>The two shapes of the functions that send a method: with arguments, dumped first, and without.\<close>

definition write_method :: "int \<Rightarrow> int list \<Rightarrow> bytes \<Rightarrow> (transport, unit) eff" where
  "write_method channel ids arguments =
     thenS (write_bytearray [1, 0, channel])
    (thenS (write_length (4 + int (length arguments)))
    (thenS (write_bytearray ids)
    (thenS (transport_write arguments)
           (transport_write FRAME_END))))"

definition write_method_no_args :: "int \<Rightarrow> int list \<Rightarrow> (transport, unit) eff" where
  "write_method_no_args channel ids =
     thenS (write_bytearray [1, 0, channel])
    (thenS (write_length 4)
    (thenS (write_bytearray ids)
           (transport_write FRAME_END)))"

definition send_heartbeat :: "(transport, unit) eff" where
  "send_heartbeat =
     thenS (write_bytearray [8, 0, 0]) (thenS (write_length 0) (transport_write FRAME_END))"

definition peer_properties :: pydict where
  "peer_properties =
     [(lit ''capabilities'', PDict
        [(lit ''authentication_failure_close'', PBool True),
         (lit ''consumer_priorities'', PBool True),
         (lit ''exchange_exchange_bindings'', PBool True),
         (lit ''direct_reply_to'', PBool True),
         (lit ''per_consumer_qos'', PBool True),
         (lit ''basic.nack'', PBool True),
         (lit ''publisher_confirms'', PBool True),
         (lit ''consumer_cancel_notify'', PBool True),
         (lit ''connection.blocked'', PBool True)]),
      (lit ''information'', PStr (lit ''Licensed under the MPL.  See http://www.rabbitmq.com/'')),
      (lit ''cluster_name'', PStr (lit ''rabbit@60b584cb4c1b'')),
      (lit ''product'', PStr (lit ''RabbitMQ'')),
      (lit ''version'', PStr (lit ''3.7.4'')),
      (lit ''copyright'', PStr (lit ''Copyright (C) 2007-2018 Pivotal Software, Inc.'')),
      (lit ''platform'', PStr (lit ''Erlang/OTP 20.2.4''))]"

definition send_connection_start :: "(transport, unit) eff" where
  "send_connection_start =
     bindS (liftE (dumps ''ooFSS''
       [PInt 0, PInt 9, PDict peer_properties, PStr (lit ''PLAIN AMQPLAIN''), PStr (lit ''en_US'')]))
       (write_method 0 [0, 10, 0, 10])"

definition send_connection_close_ok :: "(transport, unit) eff" where
  "send_connection_close_ok = write_method_no_args 0 [0, 10, 0, 51]"

definition send_basic_cancel_ok :: "int \<Rightarrow> pystr \<Rightarrow> (transport, unit) eff" where
  "send_basic_cancel_ok channel consumer_tag =
     bindS (liftE (dumps ''s'' [PStr consumer_tag])) (write_method channel [0, 60, 0, 31])"

definition send_connection_tune :: "(transport, unit) eff" where
  "send_connection_tune =
     bindS (liftE (dumps ''BlB'' [PInt 0, PInt 131072, PInt 10])) (write_method 0 [0, 10, 0, 30])"

definition send_connection_ok :: "(transport, unit) eff" where
  "send_connection_ok = bindS (liftE (dumps ''s'' [PStr []])) (write_method 0 [0, 10, 0, 41])"

definition send_channel_open_ok :: "int \<Rightarrow> pystr \<Rightarrow> (transport, unit) eff" where
  "send_channel_open_ok channel channel_id =
     bindS (liftE (dumps ''S'' [PStr channel_id])) (write_method channel [0, 20, 0, 11])"

definition send_channel_close_ok :: "int \<Rightarrow> (transport, unit) eff" where
  "send_channel_close_ok channel = write_method_no_args channel [0, 20, 0, 41]"

definition send_exchange_declare_ok :: "int \<Rightarrow> (transport, unit) eff" where
  "send_exchange_declare_ok channel = write_method_no_args channel [0, 40, 0, 11]"

definition send_queue_declare_ok :: "int \<Rightarrow> pystr \<Rightarrow> int \<Rightarrow> int \<Rightarrow> (transport, unit) eff" where
  "send_queue_declare_ok channel queue_name message_count consumer_count =
     bindS (liftE (dumps ''sll'' [PStr queue_name, PInt message_count, PInt consumer_count]))
       (write_method channel [0, 50, 0, 11])"

definition send_queue_bind_ok :: "int \<Rightarrow> (transport, unit) eff" where
  "send_queue_bind_ok channel = write_method_no_args channel [0, 50, 0, 21]"

definition send_basic_qos_ok :: "int \<Rightarrow> (transport, unit) eff" where
  "send_basic_qos_ok channel = write_method_no_args channel [0, 60, 0, 11]"

definition send_basic_consume_ok :: "int \<Rightarrow> pystr \<Rightarrow> (transport, unit) eff" where
  "send_basic_consume_ok channel consumer_tag =
     bindS (liftE (dumps ''s'' [PStr consumer_tag])) (write_method channel [0, 60, 0, 21])"

definition send_basic_deliver ::
  "int \<Rightarrow> pystr \<Rightarrow> int \<Rightarrow> bool \<Rightarrow> pystr \<Rightarrow> pystr \<Rightarrow> (transport, unit) eff" where
  "send_basic_deliver channel consumer_tag delivery_tag redelivered exchange_name routing_key =
     bindS (liftE (dumps ''sLbss''
       [PStr consumer_tag, PInt delivery_tag, PBool redelivered, PStr exchange_name,
        PStr routing_key]))
       (write_method channel [0, 60, 0, 60])"

section \<open>Content frames\<close>

definition sender_properties :: "(string \<times> char \<times> int) list" where
  "sender_properties =
     [(''content_type'', CHR ''s'', 2 ^ 15), (''content_encoding'', CHR ''s'', 2 ^ 14),
      (''application_headers'', CHR ''F'', 2 ^ 13), (''delivery_mode'', CHR ''o'', 2 ^ 12),
      (''priority'', CHR ''o'', 2 ^ 11), (''correlation_id'', CHR ''s'', 2 ^ 10),
      (''reply_to'', CHR ''s'', 2 ^ 9), (''expiration'', CHR ''s'', 2 ^ 8),
      (''message_id'', CHR ''s'', 2 ^ 7), (''timestamp'', CHR ''L'', 2 ^ 6),
      (''type'', CHR ''s'', 2 ^ 5), (''user_id'', CHR ''s'', 2 ^ 4),
      (''app_id'', CHR ''s'', 2 ^ 3), (''cluster_id'', CHR ''s'', 2 ^ 2)]"

fun collect :: "(string \<times> char \<times> int) list \<Rightarrow> pyval \<Rightarrow> (int \<times> string \<times> pyval list) result" where
  \<comment> \<open>the loop over \<open>PROPERTIES\<close>: the flags, the formats and the values of the names in \<open>ps\<close>\<close>
  "collect [] ps = Inr (0, [], [])"
| "collect ((name, format, flag) # rows) ps =
     bindE (py_has ps (lit name)) (\<lambda>present.
       if \<not> present then collect rows ps
       else bindE (py_getitem ps (lit name)) (\<lambda>v.
            bindE (collect rows ps) (\<lambda>(flags, formats, vs).
            Inr (flag + flags, format # formats, v # vs))))"

definition content_header_args :: "pyval \<Rightarrow> int \<Rightarrow> bytes result" where
  "content_header_args ps bsize =
     bindE (collect sender_properties ps) (\<lambda>(flags, formats, vs).
     dumps (''BBLB'' @ formats) ([PInt 60, PInt 0, PInt bsize, PInt flags] @ vs))"

definition send_content_header :: "int \<Rightarrow> pyval \<Rightarrow> int \<Rightarrow> (transport, unit) eff" where
  "send_content_header channel ps bsize =
     thenS (write_bytearray [2, 0, channel])
    (bindS (liftE (content_header_args ps bsize)) (\<lambda>arguments.
     thenS (write_length (int (length arguments)))
    (thenS (transport_write arguments)
           (transport_write FRAME_END))))"

definition send_content_body :: "int \<Rightarrow> pyval \<Rightarrow> (transport, unit) eff" where
  \<comment> \<open>\<open>body\<close> is whatever was published: only bytes have both a length and a place in a transport\<close>
  "send_content_body channel body =
     thenS (write_bytearray [3, 0, channel])
    (bindS (liftE (py_len body)) (\<lambda>n.
     thenS (write_length n)
    (bindS (liftE (as_buffer body)) (\<lambda>b.
     thenS (transport_write b)
           (transport_write FRAME_END)))))"

lemmas senders = send_heartbeat_def send_connection_start_def send_connection_close_ok_def
  send_basic_cancel_ok_def send_connection_tune_def send_connection_ok_def
  send_channel_open_ok_def send_channel_close_ok_def send_exchange_declare_ok_def
  send_queue_declare_ok_def send_queue_bind_ok_def send_basic_qos_ok_def
  send_basic_consume_ok_def send_basic_deliver_def send_content_header_def send_content_body_def

section \<open>What a function that returns has written\<close>

definition sends :: "bytes \<Rightarrow> transport \<Rightarrow> transport \<Rightarrow> bool" where
  \<comment> \<open>between the two transports exactly these bytes were written, in one or more calls\<close>
  "sends bs t t' \<longleftrightarrow>
     (\<exists>ws. calls t' = calls t @ map Wrote ws \<and> concat ws = bs \<and> is_closing t' = is_closing t)"

lemma sends_refl [simp]: "sends [] t t"
  unfolding sends_def by (rule exI [of _ "[]"]) simp

lemma sends_trans: "sends a t t1 \<Longrightarrow> sends b t1 t2 \<Longrightarrow> sends (a @ b) t t2"
  unfolding sends_def by (elim exE) (rule_tac x = "ws @ wsa" in exI, simp)

lemma sends_write: "transport_write b t = (r, t') \<Longrightarrow> r = Inr () \<and> sends b t t'"
  unfolding transport_write_def sends_def modifyS_apply
  by (auto intro!: exI [of _ "[b]"])

definition writes :: "('t, 'a) eff \<Rightarrow> ('t \<Rightarrow> 't \<Rightarrow> bool) \<Rightarrow> bool" where
  \<comment> \<open>when the computation returns, the states before and after it are related\<close>
  "writes m R \<longleftrightarrow> (\<forall>t x t'. m t = (Inr x, t') \<longrightarrow> R t t')"

lemma writes_liftE_bind:
  "(\<And>x. r = Inr x \<Longrightarrow> writes (f x) R) \<Longrightarrow> writes (bindS (liftE r) f) R"
  by (auto simp: writes_def bindS_def split: sum.splits)

lemma writes_then:
  assumes "writes m (sends a)" and "writes k (sends b)"
  shows "writes (thenS m k) (sends (a @ b))"
  using assms by (fastforce simp: writes_def elim!: bindS_InrE intro: sends_trans)

lemma writes_write: "writes (transport_write b) (sends b)"
  by (simp add: writes_def sends_write)

lemma writes_lift_write:
  "(\<And>b. r = Inr b \<Longrightarrow> b = c) \<Longrightarrow> writes (bindS (liftE r) transport_write) (sends c)"
  by (rule writes_liftE_bind) (use writes_write in auto)

lemma writes_bytearray: "writes (write_bytearray xs) (sends (map word_of_int xs))"
  unfolding write_bytearray_def
  by (rule writes_lift_write) (simp add: bytearray_def split: if_splits)

lemma pack_I_Inr: "pack_I n = Inr b \<Longrightarrow> b = be_bytes 4 n \<and> 0 \<le> n \<and> n < 2 ^ 32"
  by (simp add: pack_I_def pack_u_def split: if_splits)

lemma writes_length: "writes (write_length n) (sends (be_bytes 4 n))"
  unfolding write_length_def by (rule writes_lift_write) (simp add: pack_I_Inr)

text \<open>A frame as the functions write it, one call after the other.\<close>

definition sends_frame :: "int \<Rightarrow> int \<Rightarrow> bytes \<Rightarrow> transport \<Rightarrow> transport \<Rightarrow> bool" where
  "sends_frame ty channel payload t t' \<longleftrightarrow>
     sends (frame_bytes ty channel payload) t t'
     \<and> 0 \<le> channel \<and> channel < 256 \<and> int (length payload) < 2 ^ 32"

lemma frame_bytes_split:
  assumes "0 \<le> channel" "channel < 256" "0 \<le> ty"  "ty < 256"
  shows "frame_bytes ty channel payload =
    map word_of_int [ty, 0, channel] @ be_bytes 4 (int (length payload)) @ payload @ FRAME_END"
  using assms by (simp add: frame_bytes_def FRAME_END_def numeral_2_eq_2)

lemma write_bytearray_Inr:
  "write_bytearray [ty, 0, channel] t = (Inr (), t') \<Longrightarrow>
     0 \<le> channel \<and> channel < 256 \<and> 0 \<le> ty \<and> ty < 256"
  by (auto simp: write_bytearray_def bytearray_def split: if_splits)

lemma write_length_Inr: "write_length n t = (Inr (), t') \<Longrightarrow> n < 2 ^ 32"
  by (auto simp: write_length_def bindS_def dest!: pack_I_Inr split: sum.splits)

lemma writes_frame:
  assumes k: "writes k (sends (payload @ FRAME_END))" and n: "n = int (length payload)"
  shows "writes (thenS (write_bytearray [ty, 0, channel]) (thenS (write_length n) k))
    (sends_frame ty channel payload)"
  unfolding writes_def
proof (intro allI impI)
  fix t x t'
  assume r: "thenS (write_bytearray [ty, 0, channel]) (thenS (write_length n) k) t = (Inr x, t')"
  then have s: "sends (map word_of_int [ty, 0, channel] @ be_bytes 4 n @ payload @ FRAME_END) t t'"
    using writes_then [OF writes_bytearray writes_then [OF writes_length k]]
    unfolding writes_def by blast
  from r show "sends_frame ty channel payload t t'"
    by (rule bindS_InrE) (auto simp: sends_frame_def frame_bytes_split s [unfolded n] n
        elim!: bindS_InrE dest!: write_bytearray_Inr write_length_Inr simp del: be_bytes.simps
        list.map map_append)
qed

lemma writes_method:
  assumes "length ids = 4"
  shows "writes (write_method channel ids arguments)
    (sends_frame 1 channel (map word_of_int ids @ arguments))"
  unfolding write_method_def
proof (rule writes_frame)
  show "writes (thenS (write_bytearray ids) (thenS (transport_write arguments) (transport_write FRAME_END)))
    (sends ((map word_of_int ids @ arguments) @ FRAME_END))"
    using writes_then [OF writes_bytearray writes_then [OF writes_write writes_write]] by simp
qed (simp add: assms)

lemma writes_method_no_args:
  assumes "length ids = 4"
  shows "writes (write_method_no_args channel ids) (sends_frame 1 channel (map word_of_int ids))"
  unfolding write_method_no_args_def
  by (rule writes_frame [OF writes_then [OF writes_bytearray writes_write]]) (simp add: assms)

lemma writes_dumped_method:
  assumes "length ids = 4" and "dumps format vs = Inr arguments"
  shows "writes (bindS (liftE (dumps format vs)) (write_method channel ids))
    (sends_frame 1 channel (map word_of_int ids @ arguments))"
  by (rule writes_liftE_bind) (use assms writes_method in auto)

text \<open>Each function that returns has written one frame, of a type and channel that do not vary.\<close>

definition one_frame :: "int \<Rightarrow> int \<Rightarrow> (transport, unit) eff \<Rightarrow> bool" where
  "one_frame ty channel m \<longleftrightarrow> writes m (\<lambda>t t'. \<exists>payload. sends_frame ty channel payload t t')"

lemma one_frameI: "writes m (sends_frame ty channel payload) \<Longrightarrow> one_frame ty channel m"
  unfolding one_frame_def writes_def by blast

lemma one_frame_method: "length ids = 4 \<Longrightarrow> one_frame 1 channel (write_method channel ids arguments)"
  and one_frame_no_args: "length ids = 4 \<Longrightarrow> one_frame 1 channel (write_method_no_args channel ids)"
  by (blast intro: one_frameI writes_method writes_method_no_args)+

lemma one_frame_liftE:
  "(\<And>x. one_frame ty channel (f x)) \<Longrightarrow> one_frame ty channel (bindS (liftE r) f)"
  unfolding one_frame_def by (blast intro: writes_liftE_bind)

lemma one_frame_heartbeat: "one_frame 8 0 send_heartbeat"
  unfolding send_heartbeat_def
  by (rule one_frameI [of _ _ _ "[]"], rule writes_frame) (simp_all add: writes_write)

lemma one_frame_content_header: "one_frame 2 channel (send_content_header channel ps n)"
  unfolding send_content_header_def one_frame_def writes_def
proof (intro allI impI)
  fix t x t'
  assume r: "thenS (write_bytearray [2, 0, channel]) (bindS (liftE (content_header_args ps n)) (\<lambda>arguments.
     thenS (write_length (int (length arguments))) (thenS (transport_write arguments) (transport_write FRAME_END)))) t
     = (Inr x, t')"
  then obtain args where a: "content_header_args ps n = Inr args"
    by (auto elim!: bindS_InrE)
  have "writes (thenS (write_bytearray [2, 0, channel]) (thenS (write_length (int (length args)))
      (thenS (transport_write args) (transport_write FRAME_END)))) (sends_frame 2 channel args)"
    by (rule writes_frame [OF writes_then [OF writes_write writes_write]]) simp
  with r a show "\<exists>payload. sends_frame 2 channel payload t t'"
    by (auto simp: writes_def)
qed

lemma writes_content_header:
  assumes "content_header_args ps n = Inr args"
  shows "writes (send_content_header channel ps n) (sends_frame 2 channel args)"
  unfolding send_content_header_def assms bindS_simps
  by (rule writes_frame [OF writes_then [OF writes_write writes_write]]) simp

lemma writes_content_body: "writes (send_content_body channel (PBytes b)) (sends_frame 3 channel b)"
proof -
  have "writes (thenS (write_bytearray [3, 0, channel]) (thenS (write_length (int (length b)))
      (thenS (transport_write b) (transport_write FRAME_END)))) (sends_frame 3 channel b)"
    by (rule writes_frame [OF writes_then [OF writes_write writes_write]]) simp
  then show ?thesis by (simp add: send_content_body_def py_len_def as_buffer_def)
qed

lemma send_content_body_other: "(\<nexists>b. body = PBytes b) \<Longrightarrow> send_content_body channel body t \<noteq> (Inr x, t')"
  by (cases body) (auto simp: send_content_body_def py_len_def as_buffer_def elim!: bindS_InrE)

lemma one_frame_content_body: "one_frame 3 channel (send_content_body channel body)"
proof (cases "\<exists>b. body = PBytes b")
  case True
  then show ?thesis using writes_content_body one_frameI by blast
next
  case False
  then show ?thesis
    unfolding one_frame_def writes_def using send_content_body_other by blast
qed

lemma one_frame_methods:
  "one_frame 1 0 send_connection_start"
  "one_frame 1 0 send_connection_close_ok"
  "one_frame 1 0 send_connection_tune"
  "one_frame 1 0 send_connection_ok"
  "one_frame 1 ch (send_channel_open_ok ch channel_id)"
  "one_frame 1 ch (send_channel_close_ok ch)"
  "one_frame 1 ch (send_exchange_declare_ok ch)"
  "one_frame 1 ch (send_queue_declare_ok ch q m c)"
  "one_frame 1 ch (send_queue_bind_ok ch)"
  "one_frame 1 ch (send_basic_qos_ok ch)"
  "one_frame 1 ch (send_basic_consume_ok ch consumer_tag)"
  "one_frame 1 ch (send_basic_cancel_ok ch consumer_tag)"
  "one_frame 1 ch (send_basic_deliver ch consumer_tag delivery_tag redelivered exchange_name routing_key)"
  by (simp_all add: senders one_frame_no_args one_frame_method one_frame_liftE)

section \<open>Reading back a content header\<close>

definition present :: "pydict \<Rightarrow> string \<Rightarrow> bool" where
  "present d name \<longleftrightarrow> lit name \<in> fst ` set d"

definition chosen :: "pydict \<Rightarrow> (string \<times> char \<times> int) list \<Rightarrow> (string \<times> char \<times> int) list" where
  "chosen d rows = [row \<leftarrow> rows. present d (fst row)]"

definition flags_of :: "(string \<times> char \<times> int) list \<Rightarrow> int" where
  "flags_of rows = sum_list (map (\<lambda>(_, _, flag). flag) rows)"

definition values_of :: "pydict \<Rightarrow> (string \<times> char \<times> int) list \<Rightarrow> pyval list" where
  "values_of d rows = map (\<lambda>(name, _, _). the (map_of d (lit name))) rows"

lemma collect_dict:
  "collect rows (PDict d) =
     Inr (flags_of (chosen d rows), parse_string (chosen d rows), values_of d (chosen d rows))"
proof (induction rows)
  case Nil
  then show ?case by (simp add: chosen_def flags_of_def parse_string_def values_of_def)
next
  case (Cons row rows)
  obtain name fmt flag where row: "row = (name, fmt, flag)" by (cases row)
  have "present d name \<Longrightarrow> py_getitem (PDict d) (lit name) = Inr (the (map_of d (lit name)))"
    by (auto simp: present_def py_getitem_def py_get_def map_of_eq_None_iff split: option.splits)
  moreover have "py_has (PDict d) (lit name) = Inr (present d name)"
    by (simp add: py_has_def present_def)
  ultimately show ?case using Cons.IH
    by (simp add: row chosen_def flags_of_def parse_string_def values_of_def)
qed

text \<open>The sum of the chosen flags has exactly their bits set, as each flag is a power of two of its own.\<close>

lemma flag_set_bit: "flag_set flags (2 ^ e) \<longleftrightarrow> bit flags e"
  by (simp add: flag_set_def bit_iff_and_push_bit_not_eq_0 push_bit_of_1)

lemma bit_sum_powers: "distinct es \<Longrightarrow> bit (\<Sum>e\<leftarrow>es. 2 ^ e :: int) k \<longleftrightarrow> k \<in> set es"
proof (induction es arbitrary: k)
  case Nil
  then show ?case by simp
next
  case (Cons e es)
  then have "\<not> bit (\<Sum>e\<leftarrow>es. 2 ^ e :: int) e" by simp
  then have "(2 ^ e + (\<Sum>e\<leftarrow>es. 2 ^ e :: int)) = 2 ^ e OR (\<Sum>e\<leftarrow>es. 2 ^ e)"
    by (intro disjunctive_add_eq_or bit_eqI) (auto simp: bit_simps)
  with Cons show ?case by (auto simp: bit_simps)
qed

definition flag_row :: "string \<times> char \<times> nat \<Rightarrow> string \<times> char \<times> int" where
  "flag_row = (\<lambda>(name, format, e). (name, format, 2 ^ e))"

lemma selected_filter: "selected flags rows = [row \<leftarrow> rows. flag_set flags (snd (snd row))]"
  by (induction rows rule: selected.induct) simp_all

lemma selected_chosen:
  assumes "rows = map flag_row specs" and "distinct (map (snd \<circ> snd) specs)"
  shows "selected (flags_of (chosen d rows)) rows = chosen d rows"
proof -
  let ?in = "[spec \<leftarrow> specs. present d (fst spec)]"
  have "flags_of (chosen d rows) = (\<Sum>e\<leftarrow>map (snd \<circ> snd) ?in. 2 ^ e)"
    by (simp add: assms(1) flags_of_def chosen_def filter_map comp_def flag_row_def split_def)
  moreover have "distinct (map (snd \<circ> snd) ?in)"
    using assms(2) by (simp add: distinct_map_filter)
  ultimately have "flag_set (flags_of (chosen d rows)) (2 ^ e) \<longleftrightarrow> e \<in> (snd \<circ> snd) ` set ?in" for e
    using bit_sum_powers [of "map (snd \<circ> snd) ?in" e] by (simp only: flag_set_bit set_map)
  moreover have "e \<in> (snd \<circ> snd) ` set ?in \<longleftrightarrow> present d name" if "(name, p, e) \<in> set specs" for name p e
    using assms(2) that inj_on_image_mem_iff [of "snd \<circ> snd" "set specs" "(name, p, e)" "set ?in"]
    by (auto simp: distinct_map)
  ultimately have "flag_set (flags_of (chosen d rows)) (2 ^ e) \<longleftrightarrow> present d name"
    if "(name, p, e) \<in> set specs" for name p e
    using that by blast
  then have "flag_set (flags_of (chosen d rows)) (snd (snd row)) \<longleftrightarrow> present d (fst row)"
    if "row \<in> set rows" for row
    using that by (auto simp: assms(1) flag_row_def)
  then have "[row \<leftarrow> rows. flag_set (flags_of (chosen d rows)) (snd (snd row))] = [row \<leftarrow> rows. present d (fst row)]"
    by (rule filter_cong [OF refl])
  then show ?thesis by (simp add: selected_filter chosen_def)
qed

lemma tables_agree: "sender_properties = header_properties"
  by (simp add: sender_properties_def header_properties_def)

lemma selected_header_properties:
  "selected (flags_of (chosen d header_properties)) header_properties = chosen d header_properties"
proof (rule selected_chosen)
  show "header_properties = map flag_row
    [(''content_type'', CHR ''s'', 15), (''content_encoding'', CHR ''s'', 14),
     (''application_headers'', CHR ''F'', 13), (''delivery_mode'', CHR ''o'', 12),
     (''priority'', CHR ''o'', 11), (''correlation_id'', CHR ''s'', 10),
     (''reply_to'', CHR ''s'', 9), (''expiration'', CHR ''s'', 8),
     (''message_id'', CHR ''s'', 7), (''timestamp'', CHR ''L'', 6),
     (''type'', CHR ''s'', 5), (''user_id'', CHR ''s'', 4),
     (''app_id'', CHR ''s'', 3), (''cluster_id'', CHR ''s'', 2)]"
    by (simp add: header_properties_def flag_row_def)
qed simp

text \<open>
  The properties a client gets back: those of the table's names that are in the dictionary, in the
  table's order. A dictionary is sendable when each of them has the type of its letter.
\<close>

definition picked :: "pydict \<Rightarrow> pydict" where
  "picked d = zip (row_keys (chosen d header_properties)) (values_of d (chosen d header_properties))"

definition sendable :: "pydict \<Rightarrow> bool" where
  "sendable d \<longleftrightarrow>
     list_all (\<lambda>(name, p, _). case map_of d (lit name) of None \<Rightarrow> True | Some v \<Rightarrow> field_ok p v)
       header_properties"

lemma sendable_fields:
  assumes "sendable d"
  shows "list_all2 field_ok (parse_string (chosen d header_properties))
    (values_of d (chosen d header_properties))"
  unfolding parse_string_def values_of_def list_all2_map1 list_all2_map2
proof (rule list.rel_refl_strong, clarify)
  fix name p flag assume "(name, p, flag) \<in> set (chosen d header_properties)"
  then have row: "(name, p, flag) \<in> set header_properties" and "present d name"
    by (auto simp: chosen_def)
  then obtain v where "map_of d (lit name) = Some v"
    by (cases "map_of d (lit name)") (auto simp: present_def map_of_eq_None_iff)
  with assms row show "field_ok p (the (map_of d (lit name)))"
    by (auto simp: sendable_def list_all_iff)
qed

lemma format_ok_header: "set fmt \<subseteq> set ''sFoLBl'' \<Longrightarrow> format_ok 0 fmt"
  by (induction fmt) auto

lemma parse_string_letters: "set (parse_string (chosen d header_properties)) \<subseteq> set ''sFoL''"
  by (auto simp: parse_string_def chosen_def header_properties_def)

lemma dumps_loop_Cons_Inr:
  "dumps_loop (p # fmt) (v # vs) s = Inr s' \<Longrightarrow>
     \<exists>s1. dumps_field p v s = Inr s1 \<and> dumps_loop fmt vs s1 = Inr s'"
  by auto

lemma dumped_header_ranges:
  assumes "dumps (''BBLB'' @ fs) ([PInt a, PInt b, PInt n, PInt f] @ vs) = Inr args"
  shows "list_all2 field_ok ''BBLB'' [PInt a, PInt b, PInt n, PInt f]"
  using assms
  by (auto simp: dumps_def dumps_field_def field_ok_def elim!: bindE_InrE
      dest!: u16.pack_Inr_ok u64.pack_Inr_ok)

lemma loads_header_args:
  assumes l: "loads (''BBLB'' @ fs) args 0 = Inr ([PInt a, PInt b, PInt n, PInt f] @ vs, off)"
  shows "unpack_HHQH (py_slice args 0 14) = Inr (a, b, n, f)" and "loads fs args 14 = Inr (vs, off)"
proof -
  from l have u: "unpack_H args 0 = Inr a" "unpack_H args 2 = Inr b" "unpack_Q args 4 = Inr n"
    "unpack_H args 12 = Inr f" and r: "loads_loop fs args 14 0 0 = Inr (vs, off)"
    by (auto simp: loads_def loads_field_def bindE_eq_Inr numeral_2_eq_2 numeral_eq_Suc split: prod.splits)
  from r show "loads fs args 14 = Inr (vs, off)" by (simp add: loads_def)
  from u(4) have len: "14 \<le> length args" using u16.unpack_InrD by fastforce
  then have "args = take 14 args @ drop 14 args" "length (take 14 args) = 14" by simp_all
  with u have "unpack_H (take 14 args) 0 = Inr a" "unpack_H (take 14 args) 2 = Inr b"
    "unpack_Q (take 14 args) 4 = Inr n" "unpack_H (take 14 args) 12 = Inr f"
    using u16.unpack_ext [of _ "take 14 args" "drop 14 args"] u64.unpack_ext [of 4 "take 14 args" "drop 14 args"]
    by (simp_all del: append_take_drop_id)
  with len show "unpack_HHQH (py_slice args 0 14) = Inr (a, b, n, f)"
    by (simp add: unpack_HHQH_def py_slice_def)
qed

lemma content_header_read:
  assumes args: "content_header_args (PDict d) n = Inr args" and d: "sendable d"
  shows "build_frame FRAME_HEADER channel k args = Inr (Some (HeaderFrame channel k 60 n (picked d)))"
proof -
  let ?rows = "chosen d header_properties"
  let ?f = "flags_of ?rows" and ?fs = "parse_string ?rows" and ?vs = "values_of d ?rows"
  from args have dump: "dumps (''BBLB'' @ ?fs) ([PInt 60, PInt 0, PInt n, PInt ?f] @ ?vs) = Inr args"
    by (simp add: content_header_args_def tables_agree collect_dict)
  have "loads (''BBLB'' @ ?fs) args 0 = Inr ([PInt 60, PInt 0, PInt n, PInt ?f] @ ?vs, 0 + length args)"
  proof (rule loads_dumps_at [OF dump])
    show "list_all2 field_ok (''BBLB'' @ ?fs) ([PInt 60, PInt 0, PInt n, PInt ?f] @ ?vs)"
      using dumped_header_ranges [OF dump] sendable_fields [OF d] by (rule list_all2_appendI)
    show "format_ok 0 (''BBLB'' @ ?fs)"
      by (rule format_ok_header) (use parse_string_letters in auto)
  qed simp
  from loads_header_args [OF this] show ?thesis
    by (simp add: build_frame_def frame_consts new_header_def header_fields_def
        selected_header_properties picked_def)
qed

section \<open>When a function returns\<close>

text \<open>
  A frame can be sent on a channel whose number fits the one byte the code writes it in; a larger
  number is refused before anything is written.
\<close>

definition byte_list :: "int list \<Rightarrow> bool" where
  "byte_list xs \<longleftrightarrow> list_all (\<lambda>x. 0 \<le> x \<and> x < 256) xs"

lemma write_bytearray_run:
  "write_bytearray xs t =
     (if byte_list xs then (Inr (), t\<lparr>calls := calls t @ [Wrote (map word_of_int xs)]\<rparr>)
      else (Inl ValueError, t))"
  by (simp add: write_bytearray_def bytearray_def byte_list_def transport_write_def)

lemma write_length_run:
  "0 \<le> n \<Longrightarrow> n < 2 ^ 32 \<Longrightarrow>
     write_length n t = (Inr (), t\<lparr>calls := calls t @ [Wrote (be_bytes 4 n)]\<rparr>)"
  by (simp add: write_length_def pack_I_def pack_u_def transport_write_def)

lemma transport_write_run: "transport_write b t = (Inr (), t\<lparr>calls := calls t @ [Wrote b]\<rparr>)"
  by (simp add: transport_write_def)

lemmas write_runs = write_bytearray_run write_length_run transport_write_run

lemma write_method_ok:
  assumes "0 \<le> channel" "channel < 256" "byte_list ids" "int (length arguments) < 2 ^ 31"
  shows "fst (write_method channel ids arguments t) = Inr ()"
  using assms by (simp add: write_method_def bindS_apply write_runs byte_list_def del: be_bytes.simps)

lemma write_method_no_args_ok:
  assumes "0 \<le> channel" "channel < 256" "byte_list ids"
  shows "fst (write_method_no_args channel ids t) = Inr ()"
  using assms by (simp add: write_method_no_args_def bindS_apply write_runs byte_list_def del: be_bytes.simps)

lemma channel_refused:
  assumes "256 \<le> channel"
  shows "write_method channel ids arguments t = (Inl ValueError, t)"
    and "write_method_no_args channel ids t = (Inl ValueError, t)"
    and "send_content_header channel ps n t = (Inl ValueError, t)"
    and "send_content_body channel body t = (Inl ValueError, t)"
  using assms
  by (simp_all add: write_method_def write_method_no_args_def send_content_header_def
      send_content_body_def bindS_apply write_bytearray_run byte_list_def)

lemma dumps_short:
  assumes "short_str s"
  obtains b where "dumps ''s'' [PStr s] = Inr b" and "length b \<le> 256"
proof -
  from assms obtain e where "utf8_encode True s = Inr e" "length e < 256"
    by (auto simp: short_str_def split: sum.splits)
  moreover from this have "write_str pack_B (PStr s) = Inr (be_bytes 1 (int (length e)) @ e)"
    by (simp add: write_str_PStr str_to_bytes_def pack_B_def pack_u_def del: be_bytes.simps)
  ultimately show ?thesis
    using that by (simp add: dumps_def dumps_field_def emit_def flushbits_def)
qed

lemma dumps_queue_ok:
  assumes "short_str s"
  obtains b where "dumps ''sll'' [PStr s, PInt 0, PInt 0] = Inr b" and "length b \<le> 264"
proof -
  from assms obtain e where "utf8_encode True s = Inr e" "length e < 256"
    by (auto simp: short_str_def split: sum.splits)
  moreover from this have "write_str pack_B (PStr s) = Inr (be_bytes 1 (int (length e)) @ e)"
    by (simp add: write_str_PStr str_to_bytes_def pack_B_def pack_u_def del: be_bytes.simps)
  ultimately show ?thesis
    using that by (simp add: dumps_def dumps_field_def emit_def flushbits_def pack_I_def pack_u_def)
qed

lemma dumps_channel_id: "dumps ''S'' [PStr (lit ''42'')] = Inr [0, 0, 0, 2, 0x34, 0x32]"
proof -
  have "utf8_encode True (lit ''42'') = Inr [0x34, 0x32]"
    by (simp add: lit_def utf8_encode_cp_def byte_of_def valid_cp_def)
  then show ?thesis
    by (simp add: dumps_def dumps_field_def write_str_PStr or_else_def write_str_def encode_str_def
        str_to_bytes_def py_len_def as_buffer_def pack_I_def pack_u_def emit_def flushbits_def
        be_bytes_eval del: be_bytes.simps)
qed

definition sendable_on :: "int \<Rightarrow> bool" where
  "sendable_on channel \<longleftrightarrow> 0 \<le> channel \<and> channel < 256"

lemma sends_ok_fixed:
  assumes "sendable_on ch"
  shows "fst (send_channel_open_ok ch (lit ''42'') t) = Inr ()"
    and "fst (send_channel_close_ok ch t) = Inr ()"
    and "fst (send_exchange_declare_ok ch t) = Inr ()"
    and "fst (send_queue_bind_ok ch t) = Inr ()"
    and "fst (send_basic_qos_ok ch t) = Inr ()"
  using assms
  by (simp_all add: sendable_on_def senders write_method_no_args_ok write_method_ok byte_list_def
      dumps_channel_id)

lemma sends_ok_named:
  assumes "sendable_on ch" and "short_str s"
  shows "fst (send_queue_declare_ok ch s 0 0 t) = Inr ()"
    and "fst (send_basic_consume_ok ch s t) = Inr ()"
    and "fst (send_basic_cancel_ok ch s t) = Inr ()"
proof -
  obtain b where b: "dumps ''s'' [PStr s] = Inr b" "length b \<le> 256"
    using dumps_short [OF assms(2)] .
  obtain c where c: "dumps ''sll'' [PStr s, PInt 0, PInt 0] = Inr c" "length c \<le> 264"
    using dumps_queue_ok [OF assms(2)] .
  from assms(1) b c show "fst (send_queue_declare_ok ch s 0 0 t) = Inr ()"
    and "fst (send_basic_consume_ok ch s t) = Inr ()"
    and "fst (send_basic_cancel_ok ch s t) = Inr ()"
    by (simp_all add: sendable_on_def senders write_method_ok byte_list_def)
qed

lemma dumps_tune: "dumps ''BlB'' [PInt 0, PInt 131072, PInt 10] = Inr [0, 0, 0, 2, 0, 0, 0, 10]"
  by (simp add: dumps_def dumps_field_def pack_H_def pack_I_def pack_u_def emit_def flushbits_def
      be_bytes_eval del: be_bytes.simps)

lemma connection_sends_ok:
  "fst (send_heartbeat t) = Inr ()"
  "fst (send_connection_tune t) = Inr ()"
  "fst (send_connection_ok t) = Inr ()"
  "fst (send_connection_close_ok t) = Inr ()"
proof -
  have "short_str []" by (simp add: short_str_def)
  from dumps_short [OF this] obtain b where b: "dumps ''s'' [PStr []] = Inr b" "length b \<le> 256" .
  show "fst (send_connection_ok t) = Inr ()"
    using b by (simp add: send_connection_ok_def write_method_ok byte_list_def)
  show "fst (send_heartbeat t) = Inr ()"
    by (simp add: send_heartbeat_def bindS_apply write_runs byte_list_def)
  show "fst (send_connection_tune t) = Inr ()"
    by (simp add: send_connection_tune_def dumps_tune write_method_ok byte_list_def)
  show "fst (send_connection_close_ok t) = Inr ()"
    by (simp add: send_connection_close_ok_def write_method_no_args_ok byte_list_def)
qed

lemmas sends_ok = sends_ok_fixed sends_ok_named

end
