(* ===== verification/Wire_Properties.thy ===== *)
theory Wire_Properties
  imports Sender
begin

text \<open>
  What the serializer, the frame reader and the frame writers guarantee, each property with a
  concrete instance of it where it has a hypothesis.
\<close>

section \<open>Text\<close>

text \<open>A string has the given UTF-8 encoding exactly when these bytes decode to it, in the
  strict mode and in the \<open>surrogatepass\<close> mode that the serializer uses.\<close>

lemma utf8_inverse: "utf8_encode sp s = Inr bs \<longleftrightarrow> utf8_decode sp bs = Inr s"
  using utf8_decode_encode utf8_encode_decode by blast

section \<open>Values\<close>

text \<open>C9: Whatever \<open>_write_item\<close> writes for a value that survives the wire, nested tables and arrays
  included, \<open>_read_item\<close> reads back as that value, wherever it stands in a buffer, and stops right
  behind it.\<close>

theorem item_round_trip:
  assumes "canonical v" and "write_item v = Inr bs"
  shows "read_item (before @ bs @ after) (length before) = Inr (v, length before + length bs)"
  using read_write(1) [OF assms holds_at_mid] .

lemmas eval_codec = str_to_bytes_def lit_def utf8_encode_cp_def byte_of_def valid_cp_def pack_B_def pack_H_def
  pack_I_def pack_i_def pack_u_def pack_s_def be_bytes_eval tag_def with_length_def value_error_as_syntax_def

theorem item_round_trip_witness:
  "read_item ([9] @ [70, 0, 0, 0, 9, 1, 107, 65, 0, 0, 0, 2, 86, 86] @ [8]) 1 =
     Inr (PDict [(lit ''k'', PList [PNone, PNone])], 15)"
proof -
  have "canonical (PDict [(lit ''k'', PList [PNone, PNone])])" by simp
  moreover have "write_item (PDict [(lit ''k'', PList [PNone, PNone])]) =
      Inr [70, 0, 0, 0, 9, 1, 107, 65, 0, 0, 0, 2, 86, 86]"
    by (simp add: eval_codec del: be_bytes.simps)
  ultimately show ?thesis
    using item_round_trip [of "PDict [(lit ''k'', PList [PNone, PNone])]" _ "[9]" "[8]"] by simp
qed

text \<open>C13: Arguments that \<open>dumps\<close> writes for a format, \<open>loads\<close> reads back with the same format
  wherever they stand, provided each value has the type of its letter and survives the wire, and the
  format has no run of more than eight bits, no single-precision float and no timestamp right after
  a bit.\<close>

theorem arguments_round_trip:
  assumes "dumps format vs = Inr bs" and "list_all2 field_ok format vs" and "format_ok 0 format"
  shows "loads format (before @ bs @ after) (length before) = Inr (vs, length before + length bs)"
  using loads_dumps_at [OF assms holds_at_mid] .

theorem arguments_round_trip_witness:
  "loads ''BbbsA'' ([1] @ [0, 60, 2, 1, 104, 0, 0, 0, 1, 86] @ [7, 7]) 1 =
     Inr ([PInt 60, PBool False, PBool True, PStr (lit ''h''), PList [PNone]], 11)"
proof -
  let ?vs = "[PInt 60, PBool False, PBool True, PStr (lit ''h''), PList [PNone]]"
  have "dumps ''BbbsA'' ?vs = Inr [0, 60, 2, 1, 104, 0, 0, 0, 1, 86]"
    by (simp add: dumps_def dumps_field_def flushbits_def emit_def dump_bit_def Let_def write_str_def
        or_else_def encode_str_def py_len_def as_buffer_def iterate_def write_array_def eval_codec
        del: be_bytes.simps)
  moreover have "list_all2 field_ok ''BbbsA'' ?vs"
    by (simp add: field_ok_def lit_def valid_cp_def)
  moreover have "format_ok 0 ''BbbsA''" by simp
  ultimately show ?thesis
    using arguments_round_trip [of "''BbbsA''" ?vs _ "[1]" "[7, 7]"] by simp
qed

text \<open>A run of nine bits does not survive: \<open>dumps\<close> writes two bytes for it, but \<open>loads\<close> takes one
  byte for the whole run, so the ninth bit is read as False and the second byte is left for the next
  field.\<close>

lemma ninth_bit_lost:
  "dumps ''bbbbbbbbb'' (replicate 9 (PBool True)) = Inr [0xFF, 1]
   \<and> loads ''bbbbbbbbb'' [0xFF, 1] 0 = Inr (replicate 8 (PBool True) @ [PBool False], 1)"
proof
  have "replicate 9 (PBool True) = [PBool True, PBool True, PBool True, PBool True, PBool True,
      PBool True, PBool True, PBool True, PBool True]"
    by (simp add: numeral_eq_Suc)
  then show "dumps ''bbbbbbbbb'' (replicate 9 (PBool True)) = Inr [0xFF, 1]"
    by (simp add: dumps_def dumps_field_def flushbits_def dump_bit_def Let_def del: One_nat_def)
  have "replicate 8 (PBool True) = [PBool True, PBool True, PBool True, PBool True, PBool True,
      PBool True, PBool True, PBool True]"
    by (simp add: numeral_eq_Suc)
  then show "loads ''bbbbbbbbb'' [0xFF, 1] 0 = Inr (replicate 8 (PBool True) @ [PBool False], 1)"
    by (simp add: loads_def loads_field_def ord_at_def py_slice_def drop_bit_Suc and_one_eq)
qed

text \<open>What \<open>loads\<close> returns has one value for each letter of the format, of that letter's type and
  range, and the offset behind them, never one before the start.\<close>

lemma loads_typed:
  assumes "loads format buf off = Inr (vs, off')"
  shows "list_all2 letter_type format vs \<and> length vs = length format \<and> off \<le> off'"
  using loads_types loads_length loads_progress assms by blast

lemma loads_typed_example:
  "loads ''ob'' [200, 1] 0 = Inr ([PInt 200, PBool True], 2)
   \<and> list_all2 letter_type ''ob'' [PInt 200, PBool True]"
proof -
  have "loads ''ob'' [200, 1] 0 = Inr ([PInt 200, PBool True], 2)"
    by (simp add: loads_def loads_field_def unpack_B_def unpack_u_def ord_at_def py_slice_def)
  with loads_typed [OF this] show ?thesis by blast
qed

section \<open>Methods and content headers\<close>

text \<open>C23: The two decoders of content-header properties agree: the \<open>Header\<close> class, through \<open>loads\<close>
  and its table, and the hand-written \<open>decode_properties_basic\<close> give the same dictionary or the same
  error on every payload.\<close>

theorem header_decoders_agree:
  "bindE (unpack_H payload 12) (\<lambda>flags. header_fields flags payload) =
   bindE (decode_properties_basic payload 12) (\<lambda>(d, _). Inr d)"
  by (rule header_fields_agree)

text \<open>C22: When the arguments of a known method decode, every argument that the protocol reads from
  it is there with the type the protocol expects: strings that fit a short field again, delivery tags
  of 64 bits, flags.\<close>

theorem method_arguments_typed:
  "decode_method (id_of m) payload = Inr d \<Longrightarrow> args_typed m d"
  by (rule decode_method_typed)

theorem method_arguments_typed_witness:
  "\<exists>d. decode_method (id_of BASIC_NACK) [0, 60, 0, 120, 0, 0, 0, 0, 0, 0, 0, 5, 2] = Inr d
     \<and> args_typed BASIC_NACK d"
proof -
  have "decode_method (id_of BASIC_NACK) [0, 60, 0, 120, 0, 0, 0, 0, 0, 0, 0, 5, 2] =
    Inr [(lit ''delivery-tag'', PInt 5), (lit ''multiple'', PBool False), (lit ''requeue'', PBool True)]"
    by (simp add: decode_basic_nack_def decode_args_def loads_def loads_field_def unpack_Q_def unpack_u_def
        ord_at_def py_slice_def idx_def drop_bit_Suc)
  from method_arguments_typed [OF this] this show ?thesis by blast
qed

text \<open>A method that is not in the table is refused with a KeyError, whatever its payload, before
  any argument is decoded.\<close>

lemma unknown_method_refused:
  assumes "\<forall>m. mid \<noteq> id_of m"
  shows "new_method channel sz mid payload = Inl KeyError"
proof -
  have "decode_method mid payload = Inl KeyError"
    using assms [THEN spec, of START_OK] assms [THEN spec, of TUNE_OK] assms [THEN spec, of OPEN]
      assms [THEN spec, of CLOSE] assms [THEN spec, of CHANNEL_OPEN] assms [THEN spec, of CHANNEL_CLOSE]
      assms [THEN spec, of BASIC_CANCEL] assms [THEN spec, of BASIC_QOS] assms [THEN spec, of BASIC_PUBLISH]
      assms [THEN spec, of BASIC_CONSUME] assms [THEN spec, of BASIC_ACK] assms [THEN spec, of BASIC_NACK]
      assms [THEN spec, of EXCHANGE_DECLARE] assms [THEN spec, of QUEUE_DECLARE] assms [THEN spec, of QUEUE_BIND]
    by (simp add: decode_method_def id_of.simps)
  then show ?thesis by (simp add: new_method_def)
qed

lemma unknown_method_refused_example:
  "new_method 1 12 0x003C003C [0, 60, 0, 60] = Inl KeyError"
proof -
  have "0x003C003C \<noteq> id_of m" for m by (cases m) (simp_all add: id_of.simps)
  then have "\<forall>m. 0x003C003C \<noteq> id_of m" by blast
  from unknown_method_refused [OF this] show ?thesis .
qed

text \<open>\<open>exchange.declare\<close> is decoded with its last two arguments shifted: \<open>no-wait\<close> is the
  \<open>internal\<close> bit, and \<open>arguments\<close> is the \<open>no-wait\<close> bit instead of the table.\<close>

lemma exchange_declare_shifted:
  assumes "decode_exchange_declare payload = Inr d"
  shows "py_get d (lit ''no-wait'') = py_get d (lit ''internal'')
    \<and> (\<exists>b. py_get d (lit ''arguments'') = Inr (PBool b))"
proof -
  from assms obtain vs off where l: "loads ''BssbbbbbF'' payload 4 = Inr (vs, off)"
    and n: "named vs [(''reserved-1'', 0), (''exchange-name'', 1), (''type'', 2), (''passive'', 3),
      (''durable'', 4), (''auto-delete'', 5), (''internal'', 6), (''no-wait'', 6), (''arguments'', 7)] = Inr d"
    by (auto simp: decode_exchange_declare_def decode_args_def elim!: bindE_InrE)
  have "letter_type CHR ''b'' (vs ! 7)"
    using list_all2_nthD [OF loads_types [OF l], of 7] by simp
  then obtain b where "vs ! 7 = PBool b" using letter_typeE(3) by blast
  with named_get [OF n, of "''no-wait''" 6] named_get [OF n, of "''internal''" 6]
    named_get [OF n, of "''arguments''" 7] show ?thesis by simp
qed

lemma exchange_declare_shifted_example:
  "\<exists>d. decode_exchange_declare [0, 40, 0, 10, 0, 0, 1, 101, 1, 116, 16, 0, 0, 0, 0] = Inr d
     \<and> py_get d (lit ''arguments'') = Inr (PBool True)
     \<and> py_get d (lit ''no-wait'') = py_get d (lit ''internal'')"
proof -
  let ?d = "[(lit ''reserved-1'', PInt 0), (lit ''exchange-name'', PStr (lit ''e'')),
    (lit ''type'', PStr (lit ''t'')), (lit ''passive'', PBool False), (lit ''durable'', PBool False),
    (lit ''auto-delete'', PBool False), (lit ''internal'', PBool False), (lit ''no-wait'', PBool False),
    (lit ''arguments'', PBool True)]"
  have "utf8_decode True [101] = Inr (lit ''e'')" "utf8_decode True [116] = Inr (lit ''t'')"
    by (rule utf8_decode_encode, simp add: eval_codec)+
  then have d: "decode_exchange_declare [0, 40, 0, 10, 0, 0, 1, 101, 1, 116, 16, 0, 0, 0, 0] = Inr ?d"
    by (simp add: decode_exchange_declare_def decode_args_def loads_def loads_field_def unpack_H_def
        unpack_B_def unpack_I_def unpack_u_def ord_at_def py_slice_def idx_def drop_bit_Suc
        read_table.simps)
  from exchange_declare_shifted [OF d] d show ?thesis by simp
qed

section \<open>Frames\<close>

text \<open>C37: Once the bytes of a frame are all there, what \<open>read_frame\<close> makes of it does not depend on
  what follows, so a frame is read alike however the stream was cut.\<close>

theorem read_frame_prefix:
  assumes "complete_frame d"
  shows "read_frame (d @ x) = read_frame d \<and> complete_frame (d @ x)"
  using complete_frame_append [OF assms] by blast

theorem read_frame_prefix_witness:
  "read_frame ([8, 0, 0, 0, 0, 0, 0, 0xCE] @ [1, 2]) = read_frame [8, 0, 0, 0, 0, 0, 0, 0xCE]"
proof -
  have "complete_frame [8, 0, 0, 0, 0, 0, 0, 0xCE]"
    by (simp add: complete_frame_def frame_length_def frame_head_def unpack_BHL_def unpack_B_def
        unpack_H_def unpack_I_def unpack_u_def py_slice_def)
  from read_frame_prefix [OF this, of "[1, 2]"] show ?thesis by blast
qed

text \<open>C38: A frame that is read has the size that is then cut off the buffer: at least eight bytes and
  within the buffer, which is why the loop of \<open>data_received\<close> makes progress and never skips bytes
  that are not there. Its arguments have their types and its channel number is one of 16 bits.\<close>

theorem read_frame_bounds:
  assumes "read_frame d = Inr (Some f)"
  shows "8 \<le> frame_size f \<and> frame_size f \<le> length d \<and> frame_typed f
    \<and> (case f of HeartBeat _ \<Rightarrow> True | _ \<Rightarrow> 0 \<le> channel_number f \<and> channel_number f < 65536)"
  using read_frame_Some [OF assms] read_frame_channel [OF assms] by (cases f) auto

theorem read_frame_bounds_witness:
  "\<exists>f. read_frame [3, 0, 1, 0, 0, 0, 2, 104, 105, 0xCE, 7] = Inr (Some f)
     \<and> frame_size f \<le> 11 \<and> channel_number f < 65536"
proof -
  have "read_frame [3, 0, 1, 0, 0, 0, 2, 104, 105, 0xCE, 7] = Inr (Some (BodyFrame 1 10 [104, 105]))"
    by (simp add: read_frame_def unpack_BHL_def build_frame_def frame_consts unpack_B_def
        unpack_H_def unpack_I_def unpack_u_def py_slice_def)
  from read_frame_bounds [OF this] this show ?thesis by auto
qed

text \<open>A frame laid out as the standard has it, with any bytes behind it, is read by its type and
  payload alone.\<close>

lemma laid_out_frame_read:
  assumes "0 \<le> ty" "ty < 2 ^ 8" "0 \<le> channel" "channel < 2 ^ 16" "int (length payload) < 2 ^ 32"
  shows "read_frame (frame_bytes ty channel payload @ rest)
    = build_frame ty channel (8 + length payload) payload"
  using read_frame_bytes [OF assms] .

lemma laid_out_frame_read_example:
  "read_frame (frame_bytes 3 300 [104, 105] @ [1]) = Inr (Some (BodyFrame 300 10 [104, 105]))"
  using laid_out_frame_read [of 3 300 "[104, 105]" "[1]"] by (simp add: build_frame_def frame_consts)

section \<open>Writing frames\<close>

text \<open>C24: Every function of the sender that returns has written exactly one frame, header, payload and
  end marker, of its type and on its channel, and has not closed the transport.\<close>

theorem senders_write_one_frame:
  "one_frame 8 0 send_heartbeat
   \<and> one_frame 1 0 send_connection_start \<and> one_frame 1 0 send_connection_close_ok
   \<and> one_frame 1 0 send_connection_tune \<and> one_frame 1 0 send_connection_ok
   \<and> one_frame 1 ch (send_channel_open_ok ch channel_id) \<and> one_frame 1 ch (send_channel_close_ok ch)
   \<and> one_frame 1 ch (send_exchange_declare_ok ch)
   \<and> one_frame 1 ch (send_queue_declare_ok ch q messages consumers) \<and> one_frame 1 ch (send_queue_bind_ok ch)
   \<and> one_frame 1 ch (send_basic_qos_ok ch) \<and> one_frame 1 ch (send_basic_consume_ok ch consumer_tag)
   \<and> one_frame 1 ch (send_basic_cancel_ok ch consumer_tag)
   \<and> one_frame 1 ch (send_basic_deliver ch consumer_tag delivery_tag redelivered e key)
   \<and> one_frame 2 ch (send_content_header ch ps n) \<and> one_frame 3 ch (send_content_body ch body)"
  by (intro conjI one_frame_methods one_frame_heartbeat one_frame_content_header one_frame_content_body)

text \<open>On a channel above 255 no function of the sender returns, and none writes a byte: the channel
  number is put in one byte, where the protocol has two.\<close>

lemma high_channels_refused:
  assumes "256 \<le> ch"
    and "m \<in> {send_channel_open_ok ch s, send_channel_close_ok ch, send_exchange_declare_ok ch,
      send_queue_declare_ok ch s i j, send_queue_bind_ok ch, send_basic_qos_ok ch,
      send_basic_consume_ok ch s, send_basic_cancel_ok ch s, send_basic_deliver ch s i r e k,
      send_content_header ch ps i, send_content_body ch body}"
  shows "\<exists>err. m t = (Inl err, t)"
proof -
  have dumped: "\<exists>err. bindS (liftE (dumps fmt vs)) (write_method ch ids) t = (Inl err, t)" for fmt vs ids
    by (cases "dumps fmt vs") (simp_all add: channel_refused [OF assms(1)])
  show ?thesis
    using assms(2) dumped channel_refused [OF assms(1)] by (auto simp: senders)
qed

lemma high_channels_refused_example:
  "\<exists>err. send_channel_close_ok 256 new_transport = (Inl err, new_transport)"
  using high_channels_refused [of 256 "send_channel_close_ok 256" "[]" 0 0 False "[]" "[]" PNone PNone new_transport]
  by simp

text \<open>C18: A content header that was sent is read back by a frame reader as the header it was: class
  \<open>basic\<close>, the body size, and of the dictionary the properties of the table, in the table's order,
  for any dictionary whose values have the types of the table.\<close>

theorem sent_header_read_back:
  assumes "send_content_header channel (PDict d) n t = (Inr (), t')" and "sendable d"
  shows "\<exists>bs. sends bs t t' \<and> (\<forall>rest. read_frame (bs @ rest)
    = Inr (Some (HeaderFrame channel (length bs) 60 n (picked d))))"
proof -
  from assms(1) obtain args where a: "content_header_args (PDict d) n = Inr args"
    unfolding send_content_header_def by (auto elim!: bindS_InrE)
  from writes_content_header [OF a] assms(1) have s: "sends_frame 2 channel args t t'"
    by (simp add: writes_def)
  let ?bs = "frame_bytes 2 channel args"
  have "read_frame (?bs @ rest) = Inr (Some (HeaderFrame channel (length ?bs) 60 n (picked d)))" for rest
    using s read_frame_bytes [of 2 channel args rest] content_header_read [OF a assms(2), of channel]
    by (simp add: sends_frame_def frame_consts frame_bytes_def)
  with s show ?thesis by (auto simp: sends_frame_def)
qed

theorem sent_header_read_back_witness:
  "\<exists>t' bs. sends bs new_transport t' \<and> read_frame (bs @ [1])
    = Inr (Some (HeaderFrame 1 (length bs) 60 5 [(lit ''delivery_mode'', PInt 2)]))"
proof -
  let ?d = "[(lit ''x'', PNone), (lit ''delivery_mode'', PInt 2)]"
  have "content_header_args (PDict ?d) 5 = Inr [0, 60, 0, 0, 0, 0, 0, 0, 0, 0, 0, 5, 16, 0, 2]"
    by (simp add: content_header_args_def sender_properties_def py_has_def py_getitem_def dumps_def
        dumps_field_def pack_Q_def eval_codec flushbits_def emit_def del: be_bytes.simps)
  then have "fst (send_content_header 1 (PDict ?d) 5 new_transport) = Inr ()"
    by (simp add: send_content_header_def bindS_apply write_runs byte_list_def del: be_bytes.simps)
  then obtain t' where "send_content_header 1 (PDict ?d) 5 new_transport = (Inr (), t')"
    by (metis prod.collapse)
  moreover have "sendable ?d"
    by (simp add: sendable_def header_properties_def field_ok_def)
  ultimately obtain bs where "sends bs new_transport t'" and "\<forall>rest. read_frame (bs @ rest)
    = Inr (Some (HeaderFrame 1 (length bs) 60 5 (picked ?d)))"
    using sent_header_read_back [of 1 ?d 5 new_transport t'] by blast
  moreover have "picked ?d = [(lit ''delivery_mode'', PInt 2)]"
    by (simp add: picked_def header_properties_def chosen_def present_def row_keys_def values_of_def)
  ultimately show ?thesis by metis
qed

text \<open>The content header's first bytes are written before its arguments are dumped. When a property
  cannot be dumped, the exception leaves these three bytes on the wire with no frame behind them.\<close>

lemma failed_header_leaves_bytes:
  assumes "sendable_on channel" and "content_header_args ps n = Inl e"
  shows "send_content_header channel ps n t =
    (Inl e, t\<lparr>calls := calls t @ [Wrote [2, 0, word_of_int channel]]\<rparr>)"
  using assms by (simp add: send_content_header_def write_bytearray_run byte_list_def sendable_on_def bindS_apply)

lemma failed_header_leaves_bytes_example:
  "send_content_header 1 (PDict [(lit ''priority'', PInt 256)]) 0 new_transport =
    (Inl StructError, \<lparr>calls = [Wrote [2, 0, 1]], is_closing = False\<rparr>)"
proof -
  have "content_header_args (PDict [(lit ''priority'', PInt 256)]) 0 = Inl StructError"
    by (simp add: content_header_args_def sender_properties_def py_has_def py_getitem_def dumps_def
        dumps_field_def pack_Q_def eval_codec flushbits_def emit_def del: be_bytes.simps)
  from failed_header_leaves_bytes [OF _ this, of 1 new_transport] show ?thesis
    by (simp add: sendable_on_def new_transport_def)
qed

end
