(* ===== verification/Broker_State.thy ===== *)
theory Broker_State
  imports Py_Value "HOL-Library.Multiset"
begin

text \<open>
  \<open>service/state.py\<close>, but for the two publish methods and the waits: the class \<open>State\<close> as a record
  and its methods as computations on it.
\<close>

section \<open>The state\<close>

text \<open>
  A stored message is the dictionary with the keys \<open>headers\<close> and \<open>body\<close>. A consumer names the
  connection it was registered from by a number: the code keeps the protocol object itself.
\<close>

record stored =
  stored_headers :: pyval
  stored_body :: pyval

record exchange =
  exchange_type :: pystr
  exchange_messages :: "stored list"

record consumer =
  protocol :: nat
  consumer_channel :: int

record queue =
  queue_messages :: "stored list"
  consumers :: "(pystr \<times> consumer) list"

text \<open>
  Dictionaries are association lists in insertion order. The set of queues bound to an exchange is
  the list of its elements in the order in which they were added, without repetition; where the
  code iterates over it, the order is a parameter (\<open>set_order\<close>) that permutes this list.
\<close>

record broker =
  users :: "(pystr \<times> pystr) list"
  exchanges :: "(pystr \<times> exchange) list"
  queues :: "(pystr \<times> queue) list"
  bound :: "(pystr \<times> pystr list) list"
  auth_tried :: "(pystr \<times> bool) list"
  acknowledged :: "int set"
  not_acknowledged :: "int set"
  requeued :: "int set"

definition new_exchange :: "pystr \<Rightarrow> exchange" where
  "new_exchange ty = \<lparr>exchange_type = ty, exchange_messages = []\<rparr>"

definition new_queue :: queue where
  "new_queue = \<lparr>queue_messages = [], consumers = []\<rparr>"

definition init_state :: "pystr \<Rightarrow> pystr \<Rightarrow> broker" where
  \<comment> \<open>\<open>__init__\<close>, with \<open>DEFAULT_USER\<close> and \<open>DEFAULT_PASSWORD\<close> from the environment\<close>
  "init_state user password =
     \<lparr>users = [(user, password)],
      exchanges = [([], new_exchange (lit ''direct''))],
      queues = [], bound = [], auth_tried = [],
      acknowledged = {}, not_acknowledged = {}, requeued = {}\<rparr>"

definition reset :: "pystr \<Rightarrow> pystr \<Rightarrow> (broker, unit) eff" where
  "reset user password = modifyS (\<lambda>b. b\<lparr>
      users := [(user, password)],
      exchanges := [([], new_exchange (lit ''direct''))],
      queues := [], bound := [], auth_tried := [],
      acknowledged := {}, not_acknowledged := {}, requeued := {}\<rparr>)"

section \<open>Operations\<close>

definition check_credentials :: "pystr \<Rightarrow> pystr \<Rightarrow> (broker, bool) eff" where
  "check_credentials username password b =
     (let is_authenticated = (map_of (users b) username = Some password)
      in (Inr is_authenticated,
          b\<lparr>auth_tried := AList.update username is_authenticated (auth_tried b)\<rparr>))"

definition declare_exchange :: "pystr \<Rightarrow> pystr \<Rightarrow> (broker, bool) eff" where
  "declare_exchange name ty b =
     (case map_of (exchanges b) name of
        None \<Rightarrow> (Inr True, b\<lparr>exchanges := AList.update name (new_exchange ty) (exchanges b)\<rparr>)
      | Some ex \<Rightarrow> (Inr (exchange_type ex = ty), b))"

definition set_add :: "'a \<Rightarrow> 'a list \<Rightarrow> 'a list" where
  "set_add x xs = (if x \<in> set xs then xs else xs @ [x])"

definition bind_queue :: "pystr \<Rightarrow> pystr \<Rightarrow> (broker, bool) eff" where
  "bind_queue queue_name with_exchange b =
     (if map_of (exchanges b) with_exchange = None then (Inr False, b)
      else if map_of (queues b) queue_name = None then (Inr False, b)
      else (case map_of (bound b) with_exchange of
              Some qs \<Rightarrow>
                (Inr True, b\<lparr>bound := AList.update with_exchange (set_add queue_name qs) (bound b)\<rparr>)
            | None \<Rightarrow>
                (Inr True, b\<lparr>bound := AList.update with_exchange [queue_name] (bound b)\<rparr>)))"

definition declare_queue :: "pystr \<Rightarrow> (broker, bool \<times> int \<times> int) eff" where
  "declare_queue queue_name =
     bindS (\<lambda>b. if map_of (queues b) queue_name = None
                then bindS (modifyS (\<lambda>b. b\<lparr>queues := AList.update queue_name new_queue (queues b)\<rparr>))
                       (\<lambda>_. bindS (bind_queue queue_name []) (\<lambda>_. returnS ())) b
                else returnS () b)
       (\<lambda>_. returnS (True, 0, 0))"

definition register_consumer :: "nat \<Rightarrow> pystr \<Rightarrow> pystr \<Rightarrow> int \<Rightarrow> (broker, bool) eff" where
  "register_consumer consumer_protocol consumer_tag queue_name channel b =
     (case map_of (queues b) queue_name of
        None \<Rightarrow> (Inr False, b)
      | Some q \<Rightarrow>
          (Inr True, b\<lparr>queues := AList.update queue_name
             (q\<lparr>consumers := AList.update consumer_tag
                  \<lparr>protocol = consumer_protocol, consumer_channel = channel\<rparr> (consumers q)\<rparr>)
             (queues b)\<rparr>))"

definition delete_messages_of_queue :: "pystr \<Rightarrow> (broker, unit) eff" where
  "delete_messages_of_queue queue_name b =
     (case map_of (queues b) queue_name of
        None \<Rightarrow> (Inr (), b)
      | Some q \<Rightarrow>
          (Inr (), b\<lparr>queues := AList.update queue_name (q\<lparr>queue_messages := []\<rparr>) (queues b)\<rparr>))"

definition delete_messages_of_exchange :: "pystr \<Rightarrow> (broker, unit) eff" where
  "delete_messages_of_exchange exchange_name b =
     (case map_of (exchanges b) exchange_name of
        None \<Rightarrow> (Inr (), b)
      | Some ex \<Rightarrow>
          (Inr (), b\<lparr>exchanges :=
             AList.update exchange_name (ex\<lparr>exchange_messages := []\<rparr>) (exchanges b)\<rparr>))"

text \<open>
  \<open>base64encode_message_in_list_when_appliable\<close> decodes the bodies of a copy of the messages. A body
  that is not UTF-8 leads to \<open>base64.b64encode\<close>, but the module does not import \<open>base64\<close>: that is a
  NameError. A body that is not bytes has no \<open>decode\<close>.
\<close>

definition decode_body :: "stored \<Rightarrow> stored result" where
  "decode_body m =
     (case stored_body m of
        PBytes bs \<Rightarrow>
          (case utf8_decode False bs of
             Inr s \<Rightarrow> Inr (m\<lparr>stored_body := PStr s\<rparr>)
           | Inl _ \<Rightarrow> Inl NameError)
      | _ \<Rightarrow> Inl AttributeError)"

fun base64encode_messages :: "stored list \<Rightarrow> stored list result" where
  "base64encode_messages [] = Inr []"
| "base64encode_messages (m # ms) =
     bindE (decode_body m) (\<lambda>m'. bindE (base64encode_messages ms) (\<lambda>ms'. Inr (m' # ms')))"

definition get_messages_of_queue :: "pystr \<Rightarrow> broker \<Rightarrow> stored list option result" where
  "get_messages_of_queue queue_name b =
     (case map_of (queues b) queue_name of
        None \<Rightarrow> Inr None
      | Some q \<Rightarrow> bindE (base64encode_messages (queue_messages q)) (\<lambda>ms. Inr (Some ms)))"

definition get_messages_of_exchange :: "pystr \<Rightarrow> broker \<Rightarrow> stored list option result" where
  "get_messages_of_exchange exchange_name b =
     (case map_of (exchanges b) exchange_name of
        None \<Rightarrow> Inr None
      | Some ex \<Rightarrow> bindE (base64encode_messages (exchange_messages ex)) (\<lambda>ms. Inr (Some ms)))"

text \<open>Storing a message: in the exchange, then in each queue bound to it.\<close>

definition append_to_queue :: "stored \<Rightarrow> pystr \<Rightarrow> (broker, unit) eff" where
  "append_to_queue m queue_name b =
     (case map_of (queues b) queue_name of
        None \<Rightarrow> (Inl KeyError, b)
      | Some q \<Rightarrow>
          (Inr (), b\<lparr>queues :=
             AList.update queue_name (q\<lparr>queue_messages := queue_messages q @ [m]\<rparr>) (queues b)\<rparr>))"

definition append_to_exchange :: "stored \<Rightarrow> pystr \<Rightarrow> (broker, unit) eff" where
  "append_to_exchange m exchange_name b =
     (case map_of (exchanges b) exchange_name of
        None \<Rightarrow> (Inl KeyError, b)
      | Some ex \<Rightarrow>
          (Inr (), b\<lparr>exchanges :=
             AList.update exchange_name (ex\<lparr>exchange_messages := exchange_messages ex @ [m]\<rparr>)
               (exchanges b)\<rparr>))"

fun append_to_queues :: "stored \<Rightarrow> pystr list \<Rightarrow> (broker, unit) eff" where
  "append_to_queues m [] = returnS ()"
| "append_to_queues m (q # qs) = thenS (append_to_queue m q) (append_to_queues m qs)"

definition bound_queues :: "broker \<Rightarrow> pystr \<Rightarrow> pystr list" where
  \<comment> \<open>\<open>_queues_bound_exchanges.get(exchange_name, set())\<close>\<close>
  "bound_queues b exchange_name =
     (case map_of (bound b) exchange_name of None \<Rightarrow> [] | Some qs \<Rightarrow> qs)"

definition store_message ::
  "(pystr list \<Rightarrow> pystr list) \<Rightarrow> pystr \<Rightarrow> pyval \<Rightarrow> pyval \<Rightarrow> (broker, bool) eff" where
  "store_message set_order exchange_name hdrs message_data b =
     (if map_of (exchanges b) exchange_name = None then (Inr False, b)
      else
        (let m = \<lparr>stored_headers = hdrs, stored_body = message_data\<rparr>
         in thenS (append_to_exchange m exchange_name)
              (bindS (getS (\<lambda>b. bound_queues b exchange_name)) (\<lambda>qs.
               thenS (append_to_queues m (set_order qs)) (returnS True))) b))"

definition store_message_in_queue :: "pystr \<Rightarrow> pyval \<Rightarrow> pyval \<Rightarrow> (broker, bool) eff" where
  "store_message_in_queue queue_name hdrs message_data b =
     (if map_of (queues b) queue_name = None then (Inr False, b)
      else thenS (append_to_queue \<lparr>stored_headers = hdrs, stored_body = message_data\<rparr> queue_name)
             (returnS True) b)"

definition message_ack :: "int \<Rightarrow> (broker, unit) eff" where
  "message_ack delivery_tag =
     modifyS (\<lambda>b. b\<lparr>acknowledged := insert delivery_tag (acknowledged b)\<rparr>)"

definition message_nack :: "int \<Rightarrow> bool \<Rightarrow> (broker, unit) eff" where
  "message_nack delivery_tag requeue =
     modifyS (\<lambda>b. if requeue then b\<lparr>requeued := insert delivery_tag (requeued b)\<rparr>
                  else b\<lparr>not_acknowledged := insert delivery_tag (not_acknowledged b)\<rparr>)"

lemmas broker_op_defs = reset_def check_credentials_def declare_exchange_def bind_queue_def
  declare_queue_def register_consumer_def delete_messages_of_queue_def
  delete_messages_of_exchange_def append_to_queue_def append_to_exchange_def
  message_ack_def message_nack_def

section \<open>What the state is for its clients\<close>

text \<open>
  The views of the state the properties are about: the type of an exchange, what was published on
  it, what is in a queue (None where there is no such exchange or queue) and which queues an
  exchange feeds. Each operation is described by what it does to them.
\<close>

definition type_of :: "broker \<Rightarrow> pystr \<Rightarrow> pystr option" where
  "type_of b e = map_option exchange_type (map_of (exchanges b) e)"

definition exchange_log :: "broker \<Rightarrow> pystr \<Rightarrow> stored list option" where
  "exchange_log b e = map_option exchange_messages (map_of (exchanges b) e)"

definition queue_log :: "broker \<Rightarrow> pystr \<Rightarrow> stored list option" where
  "queue_log b q = map_option queue_messages (map_of (queues b) q)"

lemmas view_defs = type_of_def exchange_log_def queue_log_def bound_queues_def

lemma views_None:
  "map_of (exchanges b) e = None \<longleftrightarrow> type_of b e = None"
  "exchange_log b e = None \<longleftrightarrow> type_of b e = None"
  "map_of (queues b) q = None \<longleftrightarrow> queue_log b q = None"
  by (simp_all add: view_defs)

lemma declare_exchange_view:
  "type_of (snd (declare_exchange n ty b)) =
     (if type_of b n = None then (type_of b)(n \<mapsto> ty) else type_of b)"
  "exchange_log (snd (declare_exchange n ty b)) =
     (if type_of b n = None then (exchange_log b)(n \<mapsto> []) else exchange_log b)"
  "queue_log (snd (declare_exchange n ty b)) = queue_log b"
  "bound_queues (snd (declare_exchange n ty b)) = bound_queues b"
  "fst (declare_exchange n ty b) = Inr (type_of b n = None \<or> type_of b n = Some ty)"
  by (auto simp: declare_exchange_def view_defs new_exchange_def AList.update_conv' fun_eq_iff
      split: option.split)

lemma bind_queue_view:
  "type_of (snd (bind_queue q e b)) = type_of b"
  "exchange_log (snd (bind_queue q e b)) = exchange_log b"
  "queue_log (snd (bind_queue q e b)) = queue_log b"
  "bound_queues (snd (bind_queue q e b)) =
     (if type_of b e \<noteq> None \<and> queue_log b q \<noteq> None
      then (bound_queues b)(e := set_add q (bound_queues b e)) else bound_queues b)"
  "fst (bind_queue q e b) = Inr (type_of b e \<noteq> None \<and> queue_log b q \<noteq> None)"
  by (auto simp: bind_queue_def view_defs set_add_def AList.update_conv' fun_eq_iff
      split: option.split)

lemma add_queue_view:
  "type_of (b\<lparr>queues := AList.update q new_queue (queues b)\<rparr>) = type_of b"
  "exchange_log (b\<lparr>queues := AList.update q new_queue (queues b)\<rparr>) = exchange_log b"
  "queue_log (b\<lparr>queues := AList.update q new_queue (queues b)\<rparr>) = (queue_log b)(q \<mapsto> [])"
  "bound_queues (b\<lparr>queues := AList.update q new_queue (queues b)\<rparr>) = bound_queues b"
  by (auto simp: view_defs new_queue_def AList.update_conv' fun_eq_iff)

lemma declare_queue_alt:
  "declare_queue q b = (Inr (True, 0, 0),
     if queue_log b q = None
     then snd (bind_queue q [] (b\<lparr>queues := AList.update q new_queue (queues b)\<rparr>)) else b)"
  by (simp add: declare_queue_def views_None bindS_apply bind_queue_view split: sum.split)

lemma declare_queue_view:
  "type_of (snd (declare_queue q b)) = type_of b"
  "exchange_log (snd (declare_queue q b)) = exchange_log b"
  "queue_log (snd (declare_queue q b)) =
     (if queue_log b q = None then (queue_log b)(q \<mapsto> []) else queue_log b)"
  "bound_queues (snd (declare_queue q b)) =
     (if queue_log b q = None \<and> type_of b [] \<noteq> None
      then (bound_queues b)([] := set_add q (bound_queues b [])) else bound_queues b)"
  by (simp_all add: declare_queue_alt bind_queue_view add_queue_view)

lemma register_consumer_view:
  "type_of (snd (register_consumer c tg q ch b)) = type_of b"
  "exchange_log (snd (register_consumer c tg q ch b)) = exchange_log b"
  "queue_log (snd (register_consumer c tg q ch b)) = queue_log b"
  "bound_queues (snd (register_consumer c tg q ch b)) = bound_queues b"
  "fst (register_consumer c tg q ch b) = Inr (queue_log b q \<noteq> None)"
  by (auto simp: register_consumer_def view_defs AList.update_conv' fun_eq_iff split: option.split)

lemma append_to_exchange_view:
  "type_of (snd (append_to_exchange m e b)) = type_of b"
  "exchange_log (snd (append_to_exchange m e b)) =
     (exchange_log b)(e := map_option (\<lambda>ms. ms @ [m]) (exchange_log b e))"
  "queue_log (snd (append_to_exchange m e b)) = queue_log b"
  "bound_queues (snd (append_to_exchange m e b)) = bound_queues b"
  "fst (append_to_exchange m e b) = (if type_of b e = None then Inl KeyError else Inr ())"
  by (auto simp: append_to_exchange_def view_defs AList.update_conv' fun_eq_iff split: option.split)

lemma append_to_queue_view:
  "type_of (snd (append_to_queue m q b)) = type_of b"
  "exchange_log (snd (append_to_queue m q b)) = exchange_log b"
  "queue_log (snd (append_to_queue m q b)) =
     (queue_log b)(q := map_option (\<lambda>ms. ms @ [m]) (queue_log b q))"
  "bound_queues (snd (append_to_queue m q b)) = bound_queues b"
  "fst (append_to_queue m q b) = (if queue_log b q = None then Inl KeyError else Inr ())"
  by (auto simp: append_to_queue_def view_defs AList.update_conv' fun_eq_iff split: option.split)

text \<open>Operations that change none of the views.\<close>

lemma other_views:
  "type_of (snd (check_credentials u p b)) = type_of b"
  "exchange_log (snd (check_credentials u p b)) = exchange_log b"
  "queue_log (snd (check_credentials u p b)) = queue_log b"
  "bound_queues (snd (check_credentials u p b)) = bound_queues b"
  "type_of (snd (message_ack t b)) = type_of b"
  "exchange_log (snd (message_ack t b)) = exchange_log b"
  "queue_log (snd (message_ack t b)) = queue_log b"
  "bound_queues (snd (message_ack t b)) = bound_queues b"
  "type_of (snd (message_nack t r b)) = type_of b"
  "exchange_log (snd (message_nack t r b)) = exchange_log b"
  "queue_log (snd (message_nack t r b)) = queue_log b"
  "bound_queues (snd (message_nack t r b)) = bound_queues b"
  by (simp_all add: check_credentials_def message_ack_def message_nack_def view_defs fun_eq_iff Let_def)

text \<open>The consumers of a queue.\<close>

definition consumer_list :: "broker \<Rightarrow> pystr \<Rightarrow> (pystr \<times> consumer) list option" where
  "consumer_list b q = map_option consumers (map_of (queues b) q)"

lemma consumer_list_view:
  "consumer_list (snd (declare_exchange n ty b)) = consumer_list b"
  "consumer_list (snd (bind_queue q e b)) = consumer_list b"
  "consumer_list (snd (declare_queue q b)) =
     (if queue_log b q = None then (consumer_list b)(q \<mapsto> []) else consumer_list b)"
  "consumer_list (snd (register_consumer c tg q ch b)) =
     (consumer_list b)(q := map_option
        (AList.update tg \<lparr>protocol = c, consumer_channel = ch\<rparr>) (consumer_list b q))"
  "consumer_list (snd (append_to_exchange m e b)) = consumer_list b"
  "consumer_list (snd (append_to_queue m q b)) = consumer_list b"
  "consumer_list (snd (check_credentials u p b)) = consumer_list b"
  "consumer_list (snd (message_ack t b)) = consumer_list b"
  "consumer_list (snd (message_nack t r b)) = consumer_list b"
  by (auto simp: consumer_list_def declare_exchange_def bind_queue_def declare_queue_alt
      register_consumer_def append_to_exchange_def append_to_queue_def check_credentials_def
      message_ack_def message_nack_def new_queue_def AList.update_conv' Let_def fun_eq_iff
      split: option.split)

lemmas views = declare_exchange_view bind_queue_view declare_queue_view register_consumer_view
  append_to_exchange_view append_to_queue_view other_views

section \<open>Well-formed states\<close>

text \<open>
  The default exchange is there, and direct; a binding links a declared exchange to distinct
  declared queues; every queue is bound to the default exchange.
\<close>

definition broker_ok :: "broker \<Rightarrow> bool" where
  "broker_ok b \<longleftrightarrow>
     type_of b [] = Some (lit ''direct'')
     \<and> list_all (\<lambda>e. distinct (bound_queues b e)
         \<and> list_all (\<lambda>q. type_of b e \<noteq> None \<and> queue_log b q \<noteq> None) (bound_queues b e))
         (map fst (bound b))
     \<and> list_all (\<lambda>q. q \<in> set (bound_queues b [])) (map fst (queues b))"

lemma list_all_keys: "list_all P (map fst d) \<longleftrightarrow> (\<forall>k. map_of d k \<noteq> None \<longrightarrow> P k)"
  unfolding list_all_iff set_map
  by (metis domIff dom_map_of_conv_image_fst)

lemma broker_ok_iff:
  "broker_ok b \<longleftrightarrow>
     type_of b [] = Some (lit ''direct'')
     \<and> (\<forall>e. distinct (bound_queues b e))
     \<and> (\<forall>e q. q \<in> set (bound_queues b e) \<longrightarrow> type_of b e \<noteq> None \<and> queue_log b q \<noteq> None)
     \<and> (\<forall>q. queue_log b q \<noteq> None \<longrightarrow> q \<in> set (bound_queues b []))"
proof -
  have none: "map_of (bound b) e = None \<Longrightarrow> bound_queues b e = []" for e
    by (simp add: bound_queues_def)
  have "(\<forall>e. map_of (bound b) e \<noteq> None \<longrightarrow> distinct (bound_queues b e)
         \<and> list_all (\<lambda>q. type_of b e \<noteq> None \<and> queue_log b q \<noteq> None) (bound_queues b e))
    \<longleftrightarrow> (\<forall>e. distinct (bound_queues b e))
      \<and> (\<forall>e q. q \<in> set (bound_queues b e) \<longrightarrow> type_of b e \<noteq> None \<and> queue_log b q \<noteq> None)"
    using none unfolding list_all_iff by (metis distinct.simps(1) empty_iff list.set(1))
  then show ?thesis
    unfolding broker_ok_def list_all_keys views_None by blast
qed

lemma init_state_ok: "broker_ok (init_state user password)"
  by (simp add: init_state_def broker_ok_def view_defs new_exchange_def)

section \<open>What every operation respects\<close>

text \<open>
  An invariant of the state, from the point of view of the protocols: every operation they call
  keeps it. What a protocol does to the state is a composition of these operations, so it keeps it
  as well.
\<close>

locale broker_invariant =
  fixes P :: "broker \<Rightarrow> bool" and set_order :: "pystr list \<Rightarrow> pystr list"
  assumes keeps_check_credentials: "keeps P (check_credentials username password)"
    and keeps_declare_exchange: "keeps P (declare_exchange name ty)"
    and keeps_declare_queue: "keeps P (declare_queue queue_name)"
    and keeps_bind_queue: "keeps P (bind_queue queue_name with_exchange)"
    and keeps_register_consumer: "keeps P (register_consumer c consumer_tag queue_name channel)"
    and keeps_store_message: "keeps P (store_message set_order exchange_name hdrs body)"
    and keeps_message_ack: "keeps P (message_ack delivery_tag)"
    and keeps_message_nack: "keeps P (message_nack delivery_tag requeue)"

text \<open>Storing is appending to one exchange and to some queues, so two laws give its law.\<close>

lemma keeps_append_to_queues:
  "(\<And>q. keeps P (append_to_queue m q)) \<Longrightarrow> keeps P (append_to_queues m qs)"
  by (induction qs) (simp_all add: keeps_returnS keeps_bindS)

lemma keeps_store_message:
  assumes "\<And>m e. keeps P (append_to_exchange m e)" and "\<And>m q. keeps P (append_to_queue m q)"
  shows "keeps P (store_message set_order exchange_name hdrs body)"
proof (rule keepsI)
  fix b assume "P b"
  moreover have "keeps P (thenS (append_to_exchange m exchange_name)
      (bindS (getS (\<lambda>b. bound_queues b exchange_name)) (\<lambda>qs.
       thenS (append_to_queues m (set_order qs)) (returnS True))))" for m
    by (intro keeps_bindS assms keeps_append_to_queues keeps_getS keeps_returnS)
  ultimately show "P (snd (store_message set_order exchange_name hdrs body b))"
    by (simp add: store_message_def Let_def keepsD)
qed

text \<open>Well-formedness, and the type of an exchange once it is declared.\<close>

lemma keeps_broker_ok:
  "keeps broker_ok (check_credentials u p)" "keeps broker_ok (declare_exchange n ty)"
  "keeps broker_ok (declare_queue q)" "keeps broker_ok (bind_queue q e)"
  "keeps broker_ok (register_consumer c tg q ch)" "keeps broker_ok (append_to_exchange m e)"
  "keeps broker_ok (append_to_queue m q)" "keeps broker_ok (message_ack t)"
  "keeps broker_ok (message_nack t r)"
  unfolding keeps_def broker_ok_iff views set_add_def by auto

interpretation ok: broker_invariant broker_ok set_order
  by unfold_locales (intro keeps_broker_ok keeps_store_message)+

definition has_type :: "pystr \<Rightarrow> pystr \<Rightarrow> broker \<Rightarrow> bool" where
  "has_type e ty b \<longleftrightarrow> type_of b e = Some ty"

interpretation typed: broker_invariant "has_type e ty" set_order
  by (unfold_locales; (intro keeps_store_message)?; auto simp: keeps_def has_type_def views)

definition binds :: "pystr \<Rightarrow> pystr \<Rightarrow> broker \<Rightarrow> bool" where
  "binds e q b \<longleftrightarrow> q \<in> set (bound_queues b e)"

interpretation binding: broker_invariant "binds e q" set_order
  by (unfold_locales; (intro keeps_store_message)?; auto simp: keeps_def binds_def views set_add_def)

interpretation accounts: broker_invariant "\<lambda>b. users b = us" set_order
  by (unfold_locales; (intro keeps_store_message)?;
      simp add: keeps_def check_credentials_def Let_def declare_exchange_def bind_queue_def declare_queue_def
        register_consumer_def append_to_exchange_def append_to_queue_def message_ack_def message_nack_def
        bindS_apply split: option.split)

text \<open>A queue's consumers have distinct tags: they are the keys of a dictionary.\<close>

definition consumers_ok :: "broker \<Rightarrow> bool" where
  "consumers_ok b \<longleftrightarrow>
     list_all (\<lambda>q. case consumer_list b q of None \<Rightarrow> True | Some cs \<Rightarrow> distinct (map fst cs))
       (map fst (queues b))"

lemma consumers_ok_iff:
  "consumers_ok b \<longleftrightarrow> (\<forall>q cs. consumer_list b q = Some cs \<longrightarrow> distinct (map fst cs))"
  unfolding consumers_ok_def list_all_keys
  by (auto simp: consumer_list_def split: option.splits)

interpretation tags: broker_invariant consumers_ok set_order
  by (unfold_locales; (intro keeps_store_message)?;
      auto simp: keeps_def consumers_ok_iff consumer_list_view distinct_update)

section \<open>What the broker promises\<close>

text \<open>
  The contract, without dictionaries, consumers or iteration: maps from names to types and logs,
  and the set of bindings.
\<close>

record contract =
  c_type :: "pystr \<Rightarrow> pystr option"
  c_exchange :: "pystr \<Rightarrow> stored list option"
  c_queue :: "pystr \<Rightarrow> stored list option"
  c_bound :: "(pystr \<times> pystr) set"

definition contract_of :: "broker \<Rightarrow> contract" where
  "contract_of b =
     \<lparr>c_type = type_of b, c_exchange = exchange_log b, c_queue = queue_log b,
      c_bound = {(e, q). q \<in> set (bound_queues b e)}\<rparr>"

definition c_declare_exchange :: "pystr \<Rightarrow> pystr \<Rightarrow> contract \<Rightarrow> contract" where
  "c_declare_exchange n ty c =
     (if c_type c n = None
      then c\<lparr>c_type := (c_type c)(n \<mapsto> ty), c_exchange := (c_exchange c)(n \<mapsto> [])\<rparr> else c)"

definition c_declare_queue :: "pystr \<Rightarrow> contract \<Rightarrow> contract" where
  "c_declare_queue q c =
     (if c_queue c q = None
      then c\<lparr>c_queue := (c_queue c)(q \<mapsto> []), c_bound := insert ([], q) (c_bound c)\<rparr> else c)"

definition c_bind :: "pystr \<Rightarrow> pystr \<Rightarrow> contract \<Rightarrow> contract" where
  "c_bind q e c =
     (if c_type c e \<noteq> None \<and> c_queue c q \<noteq> None then c\<lparr>c_bound := insert (e, q) (c_bound c)\<rparr> else c)"

definition c_store :: "pystr \<Rightarrow> stored \<Rightarrow> contract \<Rightarrow> contract" where
  "c_store e m c =
     (if c_type c e = None then c
      else c\<lparr>c_exchange := (c_exchange c)(e := map_option (\<lambda>ms. ms @ [m]) (c_exchange c e)),
             c_queue := (\<lambda>q. if (e, q) \<in> c_bound c then map_option (\<lambda>ms. ms @ [m]) (c_queue c q)
                             else c_queue c q)\<rparr>)"

lemma declare_exchange_refines:
  "contract_of (snd (declare_exchange n ty b)) = c_declare_exchange n ty (contract_of b)"
  by (simp add: contract_of_def c_declare_exchange_def declare_exchange_view)

lemma bind_queue_refines: "contract_of (snd (bind_queue q e b)) = c_bind q e (contract_of b)"
  by (auto simp: contract_of_def c_bind_def bind_queue_view set_add_def split: if_splits)

lemma declare_queue_refines:
  "type_of b [] \<noteq> None \<Longrightarrow> contract_of (snd (declare_queue q b)) = c_declare_queue q (contract_of b)"
  by (auto simp: contract_of_def c_declare_queue_def declare_queue_view set_add_def split: if_splits)

lemma append_to_queues_run:
  assumes "distinct qs" and "\<forall>q\<in>set qs. queue_log b q \<noteq> None"
  shows "fst (append_to_queues m qs b) = Inr ()
    \<and> contract_of (snd (append_to_queues m qs b)) = (contract_of b)\<lparr>c_queue :=
      (\<lambda>q. if q \<in> set qs then map_option (\<lambda>ms. ms @ [m]) (queue_log b q) else queue_log b q)\<rparr>"
  using assms
proof (induction qs arbitrary: b)
  case Nil
  then show ?case by (simp add: contract_of_def)
next
  case (Cons q qs)
  then obtain ms where q: "queue_log b q = Some ms" by auto
  from Cons.prems have "\<forall>q'\<in>set qs. queue_log (snd (append_to_queue m q b)) q' \<noteq> None"
    by (auto simp: append_to_queue_view)
  with Cons have "fst (append_to_queues m qs (snd (append_to_queue m q b))) = Inr ()"
    and "contract_of (snd (append_to_queues m qs (snd (append_to_queue m q b))))
      = (contract_of (snd (append_to_queue m q b)))\<lparr>c_queue :=
      (\<lambda>q'. if q' \<in> set qs then map_option (\<lambda>ms. ms @ [m]) (queue_log (snd (append_to_queue m q b)) q')
        else queue_log (snd (append_to_queue m q b)) q')\<rparr>"
    by simp_all
  with q Cons.prems show ?case
    by (auto simp: bindS_apply append_to_queue_view contract_of_def fun_eq_iff)
qed

lemma store_message_result:
  assumes ok: "broker_ok b" and perm: "mset (set_order (bound_queues b e)) = mset (bound_queues b e)"
  shows "fst (store_message set_order e hdrs body b) = Inr (type_of b e \<noteq> None)"
    and "contract_of (snd (store_message set_order e hdrs body b))
      = c_store e \<lparr>stored_headers = hdrs, stored_body = body\<rparr> (contract_of b)"
proof -
  let ?m = "\<lparr>stored_headers = hdrs, stored_body = body\<rparr>" and ?qs = "set_order (bound_queues b e)"
  let ?b1 = "snd (append_to_exchange ?m e b)"
  from ok perm have qs: "distinct ?qs" "\<forall>q\<in>set ?qs. queue_log ?b1 q \<noteq> None"
    and mem: "set ?qs = set (bound_queues b e)"
    by (auto simp: broker_ok_iff append_to_exchange_view mset_eq_setD [OF perm] mset_eq_imp_distinct_iff [OF perm])
  have run: "store_message set_order e hdrs body b =
    (Inr True, snd (append_to_queues ?m ?qs ?b1))" if "type_of b e \<noteq> None"
    using that append_to_queues_run [OF qs, of ?m]
    by (simp add: store_message_def views_None Let_def bindS_apply append_to_exchange_view)
  show "fst (store_message set_order e hdrs body b) = Inr (type_of b e \<noteq> None)"
    using run by (cases "type_of b e") (simp_all add: store_message_def views_None)
  show "contract_of (snd (store_message set_order e hdrs body b)) = c_store e ?m (contract_of b)"
  proof (cases "type_of b e")
    case None
    then show ?thesis by (simp add: store_message_def views_None c_store_def contract_of_def)
  next
    case (Some ty)
    with run append_to_queues_run [OF qs, of ?m] mem show ?thesis
      by (simp add: contract_of_def c_store_def append_to_exchange_view fun_eq_iff)
  qed
qed

end
