(* ===== verification/World.thy ===== *)
theory World
  imports Sender Broker_State
begin

text \<open>
  The objects of a running server: the broker's state that every connection shares, one
  \<open>TrackerProtocol\<close> with its transport per AMQP connection (the fields of
  \<open>service/protocol.py\<close>), and the numbers \<open>randint\<close> will give. Methods of one object become
  computations on the whole.
\<close>

section \<open>Protocol objects\<close>

datatype connection_state =
    WAITING_PROTOCOL_HEADER
  | WAITING_START_OK
  | WAITING_TUNE_OK
  | WAITING_OPEN
  | OPENED
  | WAITING_OTHER

text \<open>The values of the IntEnum, which order the states along a connection's life.\<close>

fun state_value :: "connection_state \<Rightarrow> nat" where
  "state_value WAITING_PROTOCOL_HEADER = 1"
| "state_value WAITING_START_OK = 2"
| "state_value WAITING_TUNE_OK = 3"
| "state_value WAITING_OPEN = 4"
| "state_value OPENED = 5"
| "state_value WAITING_OTHER = 999"

lemma state_value_inject [simp]: "state_value a = state_value b \<longleftrightarrow> a = b"
  by (cases a; cases b) simp_all

instantiation connection_state :: linorder
begin

definition less_eq_connection_state :: "connection_state \<Rightarrow> connection_state \<Rightarrow> bool" where
  "less_eq_connection_state a b \<longleftrightarrow> state_value a \<le> state_value b"

definition less_connection_state :: "connection_state \<Rightarrow> connection_state \<Rightarrow> bool" where
  "less_connection_state a b \<longleftrightarrow> state_value a < state_value b"

instance
  by standard (auto simp: less_eq_connection_state_def less_connection_state_def dest: antisym)

end

lemmas connection_state_order = less_eq_connection_state_def less_connection_state_def

datatype channel_state =
    CH_WAITING_OPEN
  | CH_OPENED
  | CH_WAITING_HEADER
  | CH_WAITING_BODY

text \<open>
  An entry of \<open>_channels\<close>: a dictionary with the keys \<open>state\<close> and \<open>number\<close>, and with \<open>exchange\<close>,
  \<open>routing_key\<close> and \<open>on_going_message\<close> once a publish has put them there.
\<close>

record channel =
  ch_state :: channel_state
  ch_number :: int
  ch_exchange :: "pystr option"
  ch_routing_key :: "pystr option"
  ch_on_going :: "message option"

record tracker =
  buffer :: bytes
  parser_state :: connection_state
  channels :: "(int \<times> channel) list"

definition new_tracker :: tracker where
  \<comment> \<open>\<open>__init__\<close>\<close>
  "new_tracker = \<lparr>buffer = [], parser_state = WAITING_PROTOCOL_HEADER, channels = []\<rparr>"

section \<open>The server\<close>

record world =
  the_broker :: broker
  trackers :: "nat \<Rightarrow> tracker"
  transports :: "nat \<Rightarrow> transport"
  draws :: "nat \<Rightarrow> int"

definition on_broker :: "(broker, 'a) eff \<Rightarrow> (world, 'a) eff" where
  "on_broker m w = (case m (the_broker w) of (r, b) \<Rightarrow> (r, w\<lparr>the_broker := b\<rparr>))"

definition on_transport :: "nat \<Rightarrow> (transport, 'a) eff \<Rightarrow> (world, 'a) eff" where
  "on_transport c m w =
     (case m (transports w c) of (r, t) \<Rightarrow> (r, w\<lparr>transports := (transports w)(c := t)\<rparr>))"

definition set_tracker :: "nat \<Rightarrow> (tracker \<Rightarrow> tracker) \<Rightarrow> (world, unit) eff" where
  "set_tracker c f = modifyS (\<lambda>w. w\<lparr>trackers := (trackers w)(c := f (trackers w c))\<rparr>)"

definition randint :: "(world, int) eff" where
  \<comment> \<open>\<open>randint(1, 2**31)\<close>: the next number\<close>
  "randint w = (Inr (draws w 0), w\<lparr>draws := (\<lambda>i. draws w (Suc i))\<rparr>)"

lemma on_broker_apply:
  "fst (on_broker m w) = fst (m (the_broker w))"
  "snd (on_broker m w) = w\<lparr>the_broker := snd (m (the_broker w))\<rparr>"
  by (simp_all add: on_broker_def split: prod.split)

lemma on_transport_apply:
  "fst (on_transport c m w) = fst (m (transports w c))"
  "snd (on_transport c m w) = w\<lparr>transports := (transports w)(c := snd (m (transports w c)))\<rparr>"
  by (simp_all add: on_transport_def split: prod.split)

lemma set_tracker_apply [simp]:
  "set_tracker c f w = (Inr (), w\<lparr>trackers := (trackers w)(c := f (trackers w c))\<rparr>)"
  by (simp add: set_tracker_def)

text \<open>
  What a computation may touch. The combinators make an invariant of one part of the world an
  invariant of the whole, and what is not the connection's own stays as it is.
\<close>

lemma keeps_on_broker:
  "keeps P m \<Longrightarrow> keeps (\<lambda>w. P (the_broker w)) (on_broker m)"
  by (simp add: keeps_def on_broker_apply)

lemma keeps_broker_on_transport: "keeps (\<lambda>w. P (the_broker w)) (on_transport c m)"
  and keeps_broker_set_tracker: "keeps (\<lambda>w. P (the_broker w)) (set_tracker c f)"
  by (simp_all add: keeps_def on_transport_apply)

lemma keeps_tracker_on_broker: "keeps (\<lambda>w. P (trackers w c)) (on_broker m')"
  and keeps_tracker_on_transport: "keeps (\<lambda>w. P (trackers w c)) (on_transport c' m'')"
  by (simp_all add: keeps_def on_broker_apply on_transport_apply)

lemma keeps_tracker_set_tracker:
  "(\<And>t. P t \<Longrightarrow> P (f t)) \<Longrightarrow> keeps (\<lambda>w. P (trackers w c)) (set_tracker c f)"
  by (simp add: keeps_def)

end
