(* ===== verification/Delivery.thy ===== *)
theory Delivery
  imports World
begin

text \<open>
  \<open>push_message\<close> of \<open>service/protocol.py\<close> and the two publish methods of \<open>service/state.py\<close>, which
  use it: a message goes to the first consumer of a queue whose connection is still up, and the
  consumers before it, whose connections are closing, are removed.
\<close>

section \<open>Pushing to a consumer\<close>

definition push_message ::
  "pyval \<Rightarrow> pyval \<Rightarrow> int \<Rightarrow> pystr \<Rightarrow> int \<Rightarrow> pystr \<Rightarrow> (transport, unit) eff" where
  "push_message hdrs message channel consumer_tag delivery_tag exchange_name =
     thenS (send_basic_deliver channel consumer_tag delivery_tag False exchange_name [])
    (bindS (liftE (py_len message)) (\<lambda>n.
     thenS (send_content_header channel hdrs n)
           (send_content_body channel message)))"

definition encode_message :: "bool \<Rightarrow> pyval \<Rightarrow> pyval result" where
  \<comment> \<open>\<open>message_data.encode('utf8') if not is_binary else message_data\<close>\<close>
  "encode_message is_binary data =
     (if is_binary then Inr data
      else case data of PStr s \<Rightarrow> bindE (utf8_encode False s) (\<lambda>b. Inr (PBytes b))
                      | _ \<Rightarrow> Inl AttributeError)"

section \<open>Publishing\<close>

text \<open>
  The loop over the consumers of one queue: the tags of the dead ones it passed, and the delivery
  tag, which is drawn anew for each consumer.
\<close>

fun offer ::
  "pyval \<Rightarrow> pyval \<Rightarrow> bool \<Rightarrow> pystr \<Rightarrow> (pystr \<times> consumer) list \<Rightarrow> int option
   \<Rightarrow> (world, pystr list \<times> int option) eff" where
  "offer hdrs data is_binary exchange_name [] delivery_tag = returnS ([], delivery_tag)"
| "offer hdrs data is_binary exchange_name ((consumer_tag, c) # cs) delivery_tag =
     bindS randint (\<lambda>tag.
     bindS (getS (\<lambda>w. is_closing (transports w (protocol c)))) (\<lambda>closing.
       if closing
       then bindS (offer hdrs data is_binary exchange_name cs (Some tag)) (\<lambda>(dead, t).
            returnS (consumer_tag # dead, t))
       else bindS (liftE (encode_message is_binary data)) (\<lambda>message.
            thenS (on_transport (protocol c)
                (push_message hdrs message (consumer_channel c) consumer_tag tag exchange_name))
              (returnS ([], Some tag)))))"

definition consumers_of :: "broker \<Rightarrow> pystr \<Rightarrow> (pystr \<times> consumer) list result" where
  "consumers_of b queue_name =
     (case map_of (queues b) queue_name of None \<Rightarrow> Inl KeyError | Some q \<Rightarrow> Inr (consumers q))"

definition remove_consumers :: "pystr \<Rightarrow> pystr list \<Rightarrow> (broker, unit) eff" where
  "remove_consumers queue_name dead b =
     (case map_of (queues b) queue_name of
        None \<Rightarrow> (Inl KeyError, b)
      | Some q \<Rightarrow>
          (Inr (), b\<lparr>queues := AList.update queue_name
             (q\<lparr>consumers := fold AList.delete dead (consumers q)\<rparr>) (queues b)\<rparr>))"

definition deliver_to_queue ::
  "pyval \<Rightarrow> pyval \<Rightarrow> bool \<Rightarrow> pystr \<Rightarrow> pystr \<Rightarrow> (world, int option) eff" where
  "deliver_to_queue hdrs data is_binary exchange_name queue_name =
     bindS (getS (\<lambda>w. consumers_of (the_broker w) queue_name)) (\<lambda>r.
     bindS (liftE r) (\<lambda>cs.
     bindS (offer hdrs data is_binary exchange_name cs None) (\<lambda>(dead, delivery_tag).
     thenS (on_broker (remove_consumers queue_name dead)) (returnS delivery_tag))))"

text \<open>Only the first bound queue is served: the loop returns from its first round.\<close>

definition publish_message ::
  "(pystr list \<Rightarrow> pystr list) \<Rightarrow> pystr \<Rightarrow> pyval \<Rightarrow> pyval \<Rightarrow> bool \<Rightarrow> (world, int option) eff" where
  "publish_message set_order exchange_name hdrs data is_binary w =
     (if map_of (exchanges (the_broker w)) exchange_name = None then (Inr None, w)
      else
        thenS (on_broker (append_to_exchange
            \<lparr>stored_headers = hdrs, stored_body = data\<rparr> exchange_name))
       (bindS (getS (\<lambda>w. set_order (bound_queues (the_broker w) exchange_name))) (\<lambda>qs.
          case qs of
            [] \<Rightarrow> returnS None
          | queue_name # _ \<Rightarrow> deliver_to_queue hdrs data is_binary exchange_name queue_name)) w)"

definition publish_message_in_queue ::
  "pystr \<Rightarrow> pyval \<Rightarrow> pyval \<Rightarrow> bool \<Rightarrow> (world, int option) eff" where
  "publish_message_in_queue queue_name hdrs data is_binary w =
     (if map_of (queues (the_broker w)) queue_name = None then (Inr None, w)
      else
        thenS (on_broker (append_to_queue
            \<lparr>stored_headers = hdrs, stored_body = data\<rparr> queue_name))
          (deliver_to_queue hdrs data is_binary (lit ''dummy-exchange'') queue_name) w)"

section \<open>What a push writes\<close>

lemma push_frames:
  assumes "push_message hdrs (PBytes body) channel consumer_tag delivery_tag exchange_name t = (Inr (), t')"
  obtains marg args t1 t2
  where "dumps ''sLbss'' [PStr consumer_tag, PInt delivery_tag, PBool False, PStr exchange_name, PStr []] = Inr marg"
    and "content_header_args hdrs (int (length body)) = Inr args"
    and "sends_frame 1 channel ([0, 60, 0, 60] @ marg) t t1" and "sends_frame 2 channel args t1 t2"
    and "sends_frame 3 channel body t2 t'"
proof -
  from assms obtain t1 t2 where
    d: "send_basic_deliver channel consumer_tag delivery_tag False exchange_name [] t = (Inr (), t1)"
    and h: "send_content_header channel hdrs (int (length body)) t1 = (Inr (), t2)"
    and b: "send_content_body channel (PBytes body) t2 = (Inr (), t')"
    unfolding push_message_def py_len_def
    by (auto elim!: bindS_InrE)
  from d obtain marg where m: "dumps ''sLbss'' [PStr consumer_tag, PInt delivery_tag, PBool False,
      PStr exchange_name, PStr []] = Inr marg"
    unfolding send_basic_deliver_def by (auto elim!: bindS_InrE)
  from h obtain args where a: "content_header_args hdrs (int (length body)) = Inr args"
    unfolding send_content_header_def by (auto elim!: bindS_InrE)
  from that [OF m a] d h b writes_dumped_method [OF _ m, of "[0, 60, 0, 60]" channel] writes_content_header [OF a, of channel]
    writes_content_body [of channel body]
  show thesis unfolding send_basic_deliver_def writes_def by simp blast
qed

section \<open>Which consumer is served\<close>

definition closing :: "world \<Rightarrow> pystr \<times> consumer \<Rightarrow> bool" where
  "closing w = (\<lambda>(_, c). is_closing (transports w (protocol c)))"

definition drawn :: "nat \<Rightarrow> world \<Rightarrow> world" where
  "drawn n w = w\<lparr>draws := (\<lambda>i. draws w (i + n))\<rparr>"

lemma drawn_simps [simp]:
  "drawn 0 w = w" "drawn n (drawn m w) = drawn (m + n) w"
  "closing (drawn n w) = closing w" "transports (drawn n w) = transports w"
  "the_broker (drawn n w) = the_broker w" "trackers (drawn n w) = trackers w"
  by (simp_all add: drawn_def closing_def ac_simps)

lemma randint_drawn: "randint w = (Inr (draws w 0), drawn 1 w)"
  by (simp add: randint_def drawn_def)

lemma draws_drawn [simp]: "draws (drawn n w) i = draws w (i + n)"
  by (simp add: drawn_def)

text \<open>The loop, without recursion: the consumers up to the first live one are dead.\<close>

lemma offer_dead:
  assumes "\<forall>x\<in>set cs. closing w x"
  shows "offer hdrs data is_binary e cs dt w =
    (Inr (map fst cs, if cs = [] then dt else Some (draws w (length cs - 1))), drawn (length cs) w)"
  using assms
proof (induction cs arbitrary: w dt)
  case Nil
  then show ?case by simp
next
  case (Cons x cs)
  obtain ct c where x: "x = (ct, c)" by (cases x)
  from Cons.prems have "\<forall>x\<in>set cs. closing (drawn 1 w) x" and "closing w (ct, c)" by (simp_all add: x)
  with Cons.IH [of "drawn 1 w" "Some (draws w 0)"] show ?case
    by (cases "cs = []") (auto simp: x bindS_apply randint_drawn closing_def Suc_diff_le)
qed

lemma offer_live:
  assumes "\<forall>x\<in>set dead. closing w x" and "\<not> closing w (ct, c)"
  shows "offer hdrs data is_binary e (dead @ (ct, c) # cs) dt w =
    (case encode_message is_binary data of
       Inl err \<Rightarrow> (Inl err, drawn (length dead + 1) w)
     | Inr message \<Rightarrow>
         (case push_message hdrs message (consumer_channel c) ct (draws w (length dead)) e
             (transports w (protocol c)) of
            (r, t) \<Rightarrow>
              (case r of Inl err \<Rightarrow> Inl err | Inr _ \<Rightarrow> Inr (map fst dead, Some (draws w (length dead))),
               (drawn (length dead + 1) w)\<lparr>transports := (transports w)(protocol c := t)\<rparr>)))"
  using assms
proof (induction dead arbitrary: w dt)
  case Nil
  then show ?case
    by (auto simp: bindS_apply randint_drawn closing_def on_transport_def split: sum.split prod.split)
next
  case (Cons x dead)
  obtain ct' c' where x: "x = (ct', c')" by (cases x)
  from Cons.prems have "\<forall>x\<in>set dead. closing (drawn 1 w) x" "\<not> closing (drawn 1 w) (ct, c)"
    and "closing w (ct', c')" by (simp_all add: x)
  with Cons.IH [of "drawn 1 w" "Some (draws w 0)"] show ?case
    by (auto simp: x bindS_apply randint_drawn closing_def fun_upd_def split: sum.split prod.split)
qed

lemma delete_dead:
  "distinct (map fst (dead @ cs)) \<Longrightarrow> fold AList.delete (map fst dead) (dead @ cs) = cs"
proof (induction dead)
  case (Cons x dead)
  then have "fst x \<notin> fst ` set (dead @ cs)" by auto
  then have "AList.delete (fst x) (x # dead @ cs) = dead @ cs"
    by (cases x) simp
  with Cons show ?case by simp
qed simp

lemma remove_consumers_view:
  "consumer_list (snd (remove_consumers q dead b)) =
     (consumer_list b)(q := map_option (fold AList.delete dead) (consumer_list b q))"
  "type_of (snd (remove_consumers q dead b)) = type_of b"
  "exchange_log (snd (remove_consumers q dead b)) = exchange_log b"
  "queue_log (snd (remove_consumers q dead b)) = queue_log b"
  "bound_queues (snd (remove_consumers q dead b)) = bound_queues b"
  "fst (remove_consumers q dead b) = (if consumer_list b q = None then Inl KeyError else Inr ())"
  by (auto simp: remove_consumers_def consumer_list_def view_defs AList.update_conv' fun_eq_iff
      split: option.split)

lemma consumers_of_view:
  "consumers_of b q = (case consumer_list b q of None \<Rightarrow> Inl KeyError | Some cs \<Rightarrow> Inr cs)"
  by (simp add: consumers_of_def consumer_list_def split: option.split)

text \<open>No consumer is up: nothing is written, and the tag drawn for the last one is returned.\<close>

lemma deliver_dead:
  assumes "consumer_list (the_broker w) q = Some cs" and "\<forall>x\<in>set cs. closing w x"
  shows "deliver_to_queue hdrs data is_binary e q w =
    (Inr (if cs = [] then None else Some (draws w (length cs - 1))),
     (drawn (length cs) w)\<lparr>the_broker := snd (remove_consumers q (map fst cs) (the_broker w))\<rparr>)"
  using offer_dead [OF assms(2), of hdrs data is_binary e None] assms(1)
  by (simp add: deliver_to_queue_def consumers_of_view bindS_apply on_broker_apply remove_consumers_view)

text \<open>Some consumer is up: the first one gets the message, on its own connection.\<close>

lemma deliver_live:
  assumes "consumer_list (the_broker w) q = Some (dead @ (ct, c) # cs)"
    and "\<forall>x\<in>set dead. closing w x" and "\<not> closing w (ct, c)"
    and "deliver_to_queue hdrs data is_binary e q w = (Inr r, w')"
  obtains message t where "encode_message is_binary data = Inr message"
    and "push_message hdrs message (consumer_channel c) ct (draws w (length dead)) e
           (transports w (protocol c)) = (Inr (), t)"
    and "r = Some (draws w (length dead))"
    and "w' = (drawn (length dead + 1) w)\<lparr>transports := (transports w)(protocol c := t),
           the_broker := snd (remove_consumers q (map fst dead) (the_broker w))\<rparr>"
  using offer_live [OF assms(2,3), of hdrs data is_binary e cs None] assms(1,4)
  by (auto simp: deliver_to_queue_def consumers_of_view bindS_apply on_broker_apply
      remove_consumers_view split: sum.splits prod.splits if_splits)

lemma split_first_live:
  assumes "dropWhile (closing w) cs = (ct, c) # rest"
  shows "cs = takeWhile (closing w) cs @ (ct, c) # rest"
    and "\<forall>x\<in>set (takeWhile (closing w) cs). closing w x" and "\<not> closing w (ct, c)"
  using assms takeWhile_dropWhile_id [of "closing w" cs] hd_dropWhile [of "closing w" cs]
  by (auto dest: set_takeWhileD)

section \<open>When a push returns\<close>

lemma write_str_short:
  assumes "short_str s"
  obtains b where "write_str pack_B (PStr s) = Inr b" and "length b \<le> 256"
proof -
  from assms obtain e where "utf8_encode True s = Inr e" "length e < 256"
    by (auto simp: short_str_def split: sum.splits)
  then show ?thesis
    using that by (simp add: write_str_PStr str_to_bytes_def pack_B_def pack_u_def del: be_bytes.simps)
qed

lemma dumps_deliver_ok:
  assumes "short_str s" "short_str e" "0 \<le> v" "v < 2 ^ 64"
  obtains b where "dumps ''sLbss'' [PStr s, PInt v, PBool r, PStr e, PStr []] = Inr b" and "length b \<le> 1000"
proof -
  obtain x where x: "write_str pack_B (PStr s) = Inr x" "length x \<le> 256"
    using write_str_short [OF assms(1)] .
  obtain y where y: "write_str pack_B (PStr e) = Inr y" "length y \<le> 256"
    using write_str_short [OF assms(2)] .
  have "short_str []" by (simp add: short_str_def)
  from write_str_short [OF this] obtain z where z: "write_str pack_B (PStr []) = Inr z" "length z \<le> 256" .
  show ?thesis
    using that assms(3,4) x y z
    by (simp add: dumps_def dumps_field_def pack_Q_def pack_u_def emit_def flushbits_def dump_bit_def
        Let_def del: be_bytes.simps)
qed

lemma write_content_ok:
  assumes "sendable_on ch"
  shows "content_header_args hdrs n = Inr args \<Longrightarrow> int (length args) < 2 ^ 32 \<Longrightarrow>
      fst (send_content_header ch hdrs n t) = Inr ()"
    and "int (length b) < 2 ^ 32 \<Longrightarrow> fst (send_content_body ch (PBytes b) t) = Inr ()"
  using assms
  by (simp_all add: send_content_header_def send_content_body_def py_len_def as_buffer_def bindS_apply
      write_runs byte_list_def sendable_on_def del: be_bytes.simps)

lemma push_ok:
  assumes "sendable_on ch" "short_str s" "short_str e" "0 \<le> v" "v < 2 ^ 64"
    and "content_header_args hdrs (int (length b)) = Inr args"
    and "int (length args) < 2 ^ 32" "int (length b) < 2 ^ 32"
  shows "fst (push_message hdrs (PBytes b) ch s v e t) = Inr ()"
proof -
  obtain m where m: "dumps ''sLbss'' [PStr s, PInt v, PBool False, PStr e, PStr []] = Inr m" "length m \<le> 1000"
    using dumps_deliver_ok [OF assms(2-5)] .
  have "fst (send_basic_deliver ch s v False e [] t) = Inr ()"
    using m assms(1) by (simp add: send_basic_deliver_def write_method_ok byte_list_def sendable_on_def)
  then show ?thesis
    using write_content_ok [OF assms(1)] assms(6-8)
    by (simp add: push_message_def py_len_def bindS_apply)
qed

section \<open>Publishing on an exchange\<close>

lemma publish_first_queue:
  assumes "type_of (the_broker w) e \<noteq> None" and "set_order (bound_queues (the_broker w) e) = q # qs"
  shows "publish_message set_order e hdrs data is_binary w = deliver_to_queue hdrs data is_binary e q
    (w\<lparr>the_broker := snd (append_to_exchange \<lparr>stored_headers = hdrs, stored_body = data\<rparr> e (the_broker w))\<rparr>)"
  using assms
  by (cases "type_of (the_broker w) e")
    (simp_all add: publish_message_def views_None bindS_apply on_broker_apply append_to_exchange_view)

lemma publish_no_queue:
  assumes "type_of (the_broker w) e \<noteq> None" and "set_order (bound_queues (the_broker w) e) = []"
  shows "publish_message set_order e hdrs data is_binary w = (Inr None,
    w\<lparr>the_broker := snd (append_to_exchange \<lparr>stored_headers = hdrs, stored_body = data\<rparr> e (the_broker w))\<rparr>)"
  using assms
  by (cases "type_of (the_broker w) e")
    (simp_all add: publish_message_def views_None bindS_apply on_broker_apply append_to_exchange_view)

lemma closing_broker [simp]: "closing (w\<lparr>the_broker := b\<rparr>) = closing w"
  by (simp add: closing_def)

end
