(* ===== verification/Broker_Properties.thy ===== *)
theory Broker_Properties
  imports Delivery
begin

text \<open>
  What the shared state guarantees to its clients: declarations, bindings and stored messages
  against their contract, inspection, and to whom a published message goes.
\<close>

section \<open>Declarations and stored messages\<close>

text \<open>C17: The declarations do to the dictionaries what the contract says of maps and sets: a name that
  is there already changes nothing, a new queue is bound to the default exchange, a binding needs both
  ends.\<close>

theorem declarations_refine_contract:
  assumes "broker_ok b"
  shows "contract_of (snd (declare_exchange n ty b)) = c_declare_exchange n ty (contract_of b)
    \<and> contract_of (snd (declare_queue q b)) = c_declare_queue q (contract_of b)
    \<and> contract_of (snd (bind_queue q e b)) = c_bind q e (contract_of b)"
  using assms
  by (simp add: declare_exchange_refines bind_queue_refines declare_queue_refines broker_ok_iff)

theorem declarations_refine_contract_witness:
  "c_bound (contract_of (snd (declare_queue (lit ''q'') (init_state [] [])))) = {([], lit ''q'')}"
  using declarations_refine_contract [OF init_state_ok, of "[]" "[]" "[]" "[]" "lit ''q''" "[]"]
  by (simp add: c_declare_queue_def contract_of_def init_state_def view_defs)

text \<open>Redeclaring an exchange never changes the state, and is accepted exactly when the type is the
  one it was declared with.\<close>

lemma redeclaration:
  assumes "type_of b n = Some ty"
  shows "declare_exchange n ty' b = (Inr (ty' = ty), b)"
  using assms by (auto simp: declare_exchange_def type_of_def)

lemma redeclaration_example:
  "declare_exchange [] (lit ''fanout'') (init_state [] []) = (Inr False, init_state [] [])"
proof -
  have "type_of (init_state [] []) [] = Some (lit ''direct'')"
    by (simp add: type_of_def init_state_def new_exchange_def)
  from redeclaration [OF this, of "lit ''fanout''"] show ?thesis by simp
qed

text \<open>C14: Storing a message on an exchange never raises in a well-formed state. It appends the message
  to the exchange and to exactly the queues bound to it, once each, whatever order the set of queues
  is iterated in; on an unknown exchange it returns False and changes nothing.\<close>

theorem store_refines_contract:
  assumes "broker_ok b" and "\<forall>xs. mset (set_order xs) = mset xs"
  shows "fst (store_message set_order e hdrs body b) = Inr (type_of b e \<noteq> None)
    \<and> contract_of (snd (store_message set_order e hdrs body b))
      = c_store e \<lparr>stored_headers = hdrs, stored_body = body\<rparr> (contract_of b)"
  using store_message_result [OF assms(1)] assms(2) by blast

theorem store_refines_contract_witness:
  "queue_log (snd (store_message rev [] PNone (PBytes [1])
     (snd (declare_queue (lit ''q'') (init_state [] []))))) (lit ''q'')
   = Some [\<lparr>stored_headers = PNone, stored_body = PBytes [1]\<rparr>]"
proof -
  let ?b = "snd (declare_queue (lit ''q'') (init_state [] []))"
  have ok: "broker_ok ?b" using keeps_broker_ok(3) init_state_ok by (rule keepsD)
  have "contract_of (snd (store_message rev [] PNone (PBytes [1]) ?b)) =
      c_store [] \<lparr>stored_headers = PNone, stored_body = PBytes [1]\<rparr> (contract_of ?b)"
    using store_refines_contract [OF ok, of rev] by simp
  then have "c_queue (contract_of (snd (store_message rev [] PNone (PBytes [1]) ?b))) (lit ''q'') =
      c_queue (c_store [] \<lparr>stored_headers = PNone, stored_body = PBytes [1]\<rparr> (contract_of ?b)) (lit ''q'')"
    by simp
  then show ?thesis
    by (simp add: contract_of_def c_store_def declare_queue_view)
      (simp add: init_state_def view_defs set_add_def new_exchange_def)
qed

section \<open>Inspection\<close>

definition text_of :: "stored \<Rightarrow> pystr result" where
  \<comment> \<open>the text of a body of bytes\<close>
  "text_of m = (case stored_body m of PBytes bs \<Rightarrow> utf8_decode False bs | _ \<Rightarrow> Inl TypeError)"

definition binary :: "stored \<Rightarrow> bool" where
  "binary m \<longleftrightarrow> (case stored_body m of PBytes _ \<Rightarrow> True | _ \<Rightarrow> False)"

definition readable :: "stored \<Rightarrow> bool" where
  "readable m \<longleftrightarrow> (case text_of m of Inr _ \<Rightarrow> True | Inl _ \<Rightarrow> False)"

lemma decode_body_binary:
  "binary m \<Longrightarrow> decode_body m =
     (case text_of m of Inr s \<Rightarrow> Inr (m\<lparr>stored_body := PStr s\<rparr>) | Inl _ \<Rightarrow> Inl NameError)"
  by (auto simp: binary_def decode_body_def text_of_def split: pyval.splits)

lemma base64encode_binary:
  assumes "list_all binary ms"
  shows "base64encode_messages ms =
    (if list_all readable ms
     then Inr (map (\<lambda>m. m\<lparr>stored_body := PStr (case text_of m of Inr s \<Rightarrow> s | Inl _ \<Rightarrow> [])\<rparr>) ms)
     else Inl NameError)"
  using assms
proof (induction ms)
  case (Cons m ms)
  then show ?case
    by (cases "text_of m") (simp_all add: decode_body_binary readable_def)
qed simp

text \<open>C40: Inspecting a queue whose messages came over AMQP gives their bodies as text, in order, if
  all of them are UTF-8; a single one that is not makes the whole inspection fail with the NameError
  of the missing \<open>base64\<close> import.\<close>

theorem inspection_of_stored_bytes:
  assumes "queue_log b q = Some ms" and "list_all binary ms"
  shows "get_messages_of_queue q b =
    (if list_all readable ms
     then Inr (Some (map (\<lambda>m. m\<lparr>stored_body := PStr (case text_of m of Inr s \<Rightarrow> s | Inl _ \<Rightarrow> [])\<rparr>) ms))
     else Inl NameError)"
proof -
  from assms(1) obtain x where "map_of (queues b) q = Some x" "queue_messages x = ms"
    by (auto simp: queue_log_def)
  with base64encode_binary [OF assms(2)] show ?thesis by (simp add: get_messages_of_queue_def)
qed

definition binary_example :: broker where
  "binary_example = (init_state [] [])\<lparr>queues := [(lit ''q'', new_queue\<lparr>queue_messages :=
     [\<lparr>stored_headers = PNone, stored_body = PBytes [104]\<rparr>, \<lparr>stored_headers = PNone, stored_body = PBytes [0xFF]\<rparr>]\<rparr>)]\<rparr>"

theorem inspection_of_stored_bytes_witness:
  "get_messages_of_queue (lit ''q'') binary_example = Inl NameError"
proof -
  let ?ms = "[\<lparr>stored_headers = PNone, stored_body = PBytes [104]\<rparr>, \<lparr>stored_headers = PNone, stored_body = PBytes [0xFF]\<rparr>]"
  have "queue_log binary_example (lit ''q'') = Some ?ms"
    by (simp add: binary_example_def init_state_def queue_log_def new_queue_def)
  moreover have "list_all binary ?ms" by (simp add: binary_def)
  moreover have "\<not> list_all readable ?ms"
    by (simp add: readable_def text_of_def utf8_decode_Cons utf8_step_def)
  ultimately show ?thesis using inspection_of_stored_bytes [of binary_example "lit ''q''" ?ms] by simp
qed

text \<open>A message that was published over HTTP with a text body makes the inspection of its queue
  fail with an AttributeError: only bytes have a \<open>decode\<close>.\<close>

lemma inspection_of_text:
  assumes "queue_log b q = Some (m # ms)" and "stored_body m = PStr s"
  shows "get_messages_of_queue q b = Inl AttributeError"
  using assms by (auto simp: queue_log_def get_messages_of_queue_def decode_body_def)

lemma inspection_of_text_example:
  "get_messages_of_queue (lit ''q'') (snd (append_to_queue \<lparr>stored_headers = PNone, stored_body = PStr (lit ''hi'')\<rparr>
     (lit ''q'') (snd (declare_queue (lit ''q'') (init_state [] []))))) = Inl AttributeError"
  by (rule inspection_of_text [where m = "\<lparr>stored_headers = PNone, stored_body = PStr (lit ''hi'')\<rparr>"])
    (simp_all add: append_to_queue_view declare_queue_view, simp_all add: init_state_def view_defs)

section \<open>Publishing\<close>

text \<open>C6: A published message goes to the first consumer whose connection is up, of the first bound
  queue, and to no one else: its connection alone is written to, with a push of the message; the
  consumers before it are removed; and the delivery tag that is returned is the one it was given.\<close>

theorem publish_serves_first_live_consumer:
  assumes "consumers_ok (the_broker w)" and "type_of (the_broker w) e \<noteq> None"
    and "set_order (bound_queues (the_broker w) e) = q # qs"
    and "consumer_list (the_broker w) q = Some cs"
    and "dropWhile (closing w) cs = (ct, c) # rest"
    and "publish_message set_order e hdrs data is_binary w = (Inr r, w')"
  shows "r = Some (draws w (length (takeWhile (closing w) cs)))
    \<and> consumer_list (the_broker w') q = Some ((ct, c) # rest)
    \<and> (\<forall>p. p \<noteq> protocol c \<longrightarrow> transports w' p = transports w p)
    \<and> (\<exists>message. encode_message is_binary data = Inr message
         \<and> push_message hdrs message (consumer_channel c) ct (draws w (length (takeWhile (closing w) cs))) e
             (transports w (protocol c)) = (Inr (), transports w' (protocol c)))"
proof -
  let ?m = "\<lparr>stored_headers = hdrs, stored_body = data\<rparr>"
  let ?w = "w\<lparr>the_broker := snd (append_to_exchange ?m e (the_broker w))\<rparr>"
  let ?dead = "takeWhile (closing w) cs"
  note split = split_first_live [OF assms(5)]
  have cs: "consumer_list (the_broker ?w) q = Some (?dead @ (ct, c) # rest)"
    using assms(4) split(1) by (simp add: consumer_list_view)
  have dead: "\<forall>x\<in>set ?dead. closing ?w x" and live: "\<not> closing ?w (ct, c)"
    using split(2,3) by simp_all
  have "deliver_to_queue hdrs data is_binary e q ?w = (Inr r, w')"
    using publish_first_queue [where set_order = set_order, OF assms(2,3)] assms(6) by simp
  from deliver_live [OF cs dead live this] obtain message t where
    m: "encode_message is_binary data = Inr message"
    and push: "push_message hdrs message (consumer_channel c) ct (draws w (length ?dead)) e
      (transports w (protocol c)) = (Inr (), t)"
    and r: "r = Some (draws w (length ?dead))"
    and w': "w' = (drawn (length ?dead + 1) ?w)\<lparr>transports := (transports w)(protocol c := t),
      the_broker := snd (remove_consumers q (map fst ?dead) (the_broker ?w))\<rparr>"
    by auto
  have "distinct (map fst (?dead @ (ct, c) # rest))"
    using assms(1,4) split(1) by (simp add: consumers_ok_iff)
  from delete_dead [OF this] have "consumer_list (the_broker w') q = Some ((ct, c) # rest)"
    using cs by (simp add: w' remove_consumers_view)
  with m push r show ?thesis by (simp add: w')
qed

definition two_consumers :: world where
  \<comment> \<open>a queue with a consumer whose connection is closing and one whose connection is up\<close>
  "two_consumers =
     \<lparr>the_broker = (init_state [] [])\<lparr>
        queues := [(lit ''q'', new_queue\<lparr>consumers :=
          [(lit ''a'', \<lparr>protocol = 0, consumer_channel = 1\<rparr>),
           (lit ''b'', \<lparr>protocol = 1, consumer_channel = 1\<rparr>)]\<rparr>)],
        bound := [([], [lit ''q''])]\<rparr>,
      trackers = (\<lambda>_. new_tracker),
      transports = (\<lambda>_. new_transport)(0 := new_transport\<lparr>is_closing := True\<rparr>),
      draws = (\<lambda>i. int i + 7)\<rparr>"

theorem publish_serves_first_live_consumer_witness:
  "\<exists>w'. publish_message id [] (PDict []) (PBytes [104]) True two_consumers = (Inr (Some 8), w')
     \<and> consumer_list (the_broker w') (lit ''q'') = Some [(lit ''b'', \<lparr>protocol = 1, consumer_channel = 1\<rparr>)]
     \<and> transports w' 0 = transports two_consumers 0"
proof -
  let ?w = two_consumers
  let ?cs = "[(lit ''a'', \<lparr>protocol = 0, consumer_channel = 1\<rparr>), (lit ''b'', \<lparr>protocol = 1, consumer_channel = 1\<rparr>)]"
  have ok: "consumers_ok (the_broker ?w)"
    by (simp add: two_consumers_def consumers_ok_def consumer_list_def new_queue_def)
  have ty: "type_of (the_broker ?w) [] \<noteq> None"
    by (simp add: two_consumers_def type_of_def init_state_def)
  have bq: "id (bound_queues (the_broker ?w) []) = [lit ''q'']"
    by (simp add: two_consumers_def bound_queues_def)
  have cs: "consumer_list (the_broker ?w) (lit ''q'') = Some ?cs"
    by (simp add: two_consumers_def consumer_list_def new_queue_def)
  have dw: "dropWhile (closing ?w) ?cs = [(lit ''b'', \<lparr>protocol = 1, consumer_channel = 1\<rparr>)]"
    and tw: "takeWhile (closing ?w) ?cs = [(lit ''a'', \<lparr>protocol = 0, consumer_channel = 1\<rparr>)]"
    by (simp_all add: two_consumers_def closing_def new_transport_def)
  have args: "content_header_args (PDict []) 1 = Inr [0, 60, 0, 0, 0, 0, 0, 0, 0, 0, 0, 1, 0, 0]"
    by (simp add: content_header_args_def sender_properties_def py_has_def dumps_def dumps_field_def
        pack_H_def pack_Q_def pack_u_def be_bytes_eval flushbits_def emit_def del: be_bytes.simps)
  have "short_str (lit ''b'')" "short_str []"
    by (simp_all add: short_str_def lit_def valid_cp_def utf8_encode_cp_def)
  then have push: "fst (push_message (PDict []) (PBytes [104]) 1 (lit ''b'') 8 [] t) = Inr ()" for t
  proof -
    have a: "content_header_args (PDict []) (int (length [104 :: byte]))
      = Inr [0, 60, 0, 0, 0, 0, 0, 0, 0, 0, 0, 1, 0, 0]" using args by simp
    show ?thesis
      by (rule push_ok [OF _ \<open>short_str (lit ''b'')\<close> \<open>short_str []\<close> _ _ a]) (simp_all add: sendable_on_def)
  qed
  let ?w1 = "?w\<lparr>the_broker := snd (append_to_exchange \<lparr>stored_headers = PDict [], stored_body = PBytes [104]\<rparr> [] (the_broker ?w))\<rparr>"
  have "fst (publish_message id [] (PDict []) (PBytes [104]) True ?w) = Inr (Some 8)"
  proof -
    have d: "\<forall>x\<in>set [(lit ''a'', \<lparr>protocol = 0, consumer_channel = 1\<rparr>)]. closing ?w1 x"
      and l: "\<not> closing ?w1 (lit ''b'', \<lparr>protocol = 1, consumer_channel = 1\<rparr>)"
      by (simp_all add: two_consumers_def closing_def new_transport_def)
    have dr: "draws ?w 1 = 8" by (simp add: two_consumers_def)
    obtain t where "push_message (PDict []) (PBytes [104]) 1 (lit ''b'') 8 [] (transports ?w 1) = (Inr (), t)"
      using push by (metis prod.collapse)
    then show ?thesis
      unfolding publish_first_queue [where set_order = id, OF ty bq]
      using offer_live [OF d l, of "PDict []" "PBytes [104]" True "[]" "[]" None] cs dr
      by (simp add: deliver_to_queue_def consumers_of_view consumer_list_view bindS_apply encode_message_def
          on_broker_apply remove_consumers_view del: offer.simps)
  qed
  then obtain w' where run: "publish_message id [] (PDict []) (PBytes [104]) True ?w = (Inr (Some 8), w')"
    by (metis prod.collapse)
  from publish_serves_first_live_consumer [where set_order = id, OF ok ty bq cs dw run] run show ?thesis by auto
qed

text \<open>When no consumer of the first bound queue is up, nothing is written to any connection and all
  its consumers are removed, yet a delivery tag is returned as if the message had been delivered: the
  one drawn for the last dead consumer. Only a queue without consumers gives None.\<close>

lemma publish_to_dead_consumers:
  assumes "type_of (the_broker w) e \<noteq> None"
    and "set_order (bound_queues (the_broker w) e) = q # qs"
    and "consumers_ok (the_broker w)" and "consumer_list (the_broker w) q = Some cs"
    and "list_all (closing w) cs"
  shows "\<exists>w'. publish_message set_order e hdrs data is_binary w =
      (Inr (if cs = [] then None else Some (draws w (length cs - 1))), w')
    \<and> transports w' = transports w \<and> consumer_list (the_broker w') q = Some []"
proof -
  let ?m = "\<lparr>stored_headers = hdrs, stored_body = data\<rparr>"
  let ?w = "w\<lparr>the_broker := snd (append_to_exchange ?m e (the_broker w))\<rparr>"
  have cs: "consumer_list (the_broker ?w) q = Some cs" using assms(4) by (simp add: consumer_list_view)
  have dead: "\<forall>x\<in>set cs. closing ?w x" using assms(5) by (simp add: list_all_iff)
  have "distinct (map fst (cs @ []))" using assms(3,4) by (simp add: consumers_ok_iff)
  from delete_dead [OF this] have "fold AList.delete (map fst cs) cs = []" by simp
  with cs show ?thesis
    unfolding publish_first_queue [where set_order = set_order, OF assms(1,2)] deliver_dead [OF cs dead]
    by (simp add: remove_consumers_view)
qed

lemma publish_to_dead_consumers_example:
  "\<exists>w'. publish_message id [] PNone PNone True
     (two_consumers\<lparr>transports := (\<lambda>_. new_transport\<lparr>is_closing := True\<rparr>)\<rparr>) = (Inr (Some 8), w')"
proof -
  let ?w = "two_consumers\<lparr>transports := (\<lambda>_. new_transport\<lparr>is_closing := True\<rparr>)\<rparr>"
  let ?cs = "[(lit ''a'', \<lparr>protocol = 0, consumer_channel = 1\<rparr>), (lit ''b'', \<lparr>protocol = 1, consumer_channel = 1\<rparr>)]"
  have "type_of (the_broker ?w) [] \<noteq> None" "id (bound_queues (the_broker ?w) []) = lit ''q'' # []"
    "consumers_ok (the_broker ?w)" "consumer_list (the_broker ?w) (lit ''q'') = Some ?cs"
    "list_all (closing ?w) ?cs"
    by (simp_all add: two_consumers_def type_of_def init_state_def bound_queues_def consumers_ok_def
        consumer_list_def new_queue_def closing_def)
  from publish_to_dead_consumers [where set_order = id, OF this, of PNone PNone True]
  obtain w' where "publish_message id [] PNone PNone True ?w =
    (Inr (if ?cs = [] then None else Some (draws ?w (length ?cs - 1))), w')" by blast
  moreover have "(if ?cs = [] then None else Some (draws ?w (length ?cs - 1))) = Some 8"
    by (simp add: two_consumers_def)
  ultimately have "publish_message id [] PNone PNone True ?w = (Inr (Some 8), w')" by (simp only:)
  then show ?thesis by blast
qed

end
