(* ===== verification/Tracker_Protocol.thy ===== *)
theory Tracker_Protocol
  imports World
begin

text \<open>
  \<open>service/protocol.py\<close>: the AMQP side of the server. A method of the protocol object of connection
  \<open>me\<close> is a computation on the world; \<open>data_received\<close> runs the loop over the frames in the buffer.
\<close>

section \<open>The handshake\<close>

definition PROTOCOL_HEADER :: bytes where
  "PROTOCOL_HEADER = [0x41, 0x4D, 0x51, 0x50, 0, 0, 9, 1]"

definition check_protocol_header :: "nat \<Rightarrow> (world, bool) eff" where
  "check_protocol_header me =
     bindS (getS (\<lambda>w. buffer (trackers w me))) (\<lambda>buf.
       if length buf < length PROTOCOL_HEADER then returnS False
       else if buf \<noteq> PROTOCOL_HEADER then
         thenS (on_transport me transport_close)
        (thenS (set_tracker me (buffer_update (\<lambda>_. [])))
               (returnS False))
       else
         thenS (set_tracker me (buffer_update (\<lambda>_. [])))
               (returnS True))"

definition plain_credentials :: "pystr \<Rightarrow> (pystr \<times> pystr) result" where
  \<comment> \<open>\<open>_, username, password = response.split('\x00', 3)\<close>\<close>
  "plain_credentials response =
     (case py_split 0 response 3 of
        [_, username, password] \<Rightarrow> Inr (username, password)
      | _ \<Rightarrow> Inl ValueError)"

definition amqplain_credentials :: "pystr \<Rightarrow> (pystr \<times> pystr) result" where
  \<comment> \<open>\<open>_, _, username, _, _, password = loads('soSsoS', response.encode('utf-8'))[0]\<close>\<close>
  "amqplain_credentials response =
     bindE (utf8_encode False response) (\<lambda>buf.
     bindE (loads ''soSsoS'' buf 0) (\<lambda>(vs, _).
       case vs of
         [_, _, username, _, _, password] \<Rightarrow>
           bindE (as_str username) (\<lambda>u. bindE (as_str password) (\<lambda>p. Inr (u, p)))
       | _ \<Rightarrow> Inl ValueError))"

definition credentials :: "pyval \<Rightarrow> pydict \<Rightarrow> (pystr \<times> pystr) result" where
  "credentials mechanism d =
     bindE (get_str d ''response'') (\<lambda>response.
       if mechanism = PStr (lit ''PLAIN'') then plain_credentials response
       else amqplain_credentials response)"

definition check_start_ok :: "frame \<Rightarrow> (world, bool) eff" where
  "check_start_ok f =
     bindS (liftE (properties f)) (\<lambda>d.
     bindS (liftE (py_get d (lit ''mechanism''))) (\<lambda>mechanism.
       if mechanism \<noteq> PStr (lit ''PLAIN'') \<and> mechanism \<noteq> PStr (lit ''AMQPLAIN'')
       then returnS False
       else bindS (liftE (credentials mechanism d)) (\<lambda>(username, password).
            on_broker (check_credentials username password))))"

definition check_open :: "frame \<Rightarrow> bool" where
  "check_open f = True"

definition check_channel_open :: "frame \<Rightarrow> bool" where
  "check_channel_open f = True"

section \<open>Channels\<close>

definition upsert_channel :: "nat \<Rightarrow> int \<Rightarrow> (world, unit) eff" where
  "upsert_channel me n = set_tracker me (\<lambda>t.
     if map_of (channels t) n = None
     then t\<lparr>channels := AList.update n
            \<lparr>ch_state = CH_WAITING_OPEN, ch_number = n, ch_exchange = None,
             ch_routing_key = None, ch_on_going = None\<rparr> (channels t)\<rparr>
     else t)"

definition get_channel :: "nat \<Rightarrow> int \<Rightarrow> (world, channel) eff" where
  "get_channel me n w =
     (case map_of (channels (trackers w me)) n of
        None \<Rightarrow> (Inl KeyError, w)
      | Some ch \<Rightarrow> (Inr ch, w))"

definition set_channel :: "nat \<Rightarrow> int \<Rightarrow> (channel \<Rightarrow> channel) \<Rightarrow> (world, unit) eff" where
  \<comment> \<open>an assignment to keys of the channel's dictionary\<close>
  "set_channel me n f = set_tracker me (\<lambda>t.
     case map_of (channels t) n of
       None \<Rightarrow> t
     | Some ch \<Rightarrow> t\<lparr>channels := AList.update n (f ch) (channels t)\<rparr>)"

definition del_channel :: "nat \<Rightarrow> int \<Rightarrow> (world, unit) eff" where
  "del_channel me n = set_tracker me (\<lambda>t. t\<lparr>channels := AList.delete n (channels t)\<rparr>)"

definition str_prop :: "frame \<Rightarrow> string \<Rightarrow> (world, pystr) eff" where
  \<comment> \<open>\<open>frame_value.properties['...']\<close>\<close>
  "str_prop f key = liftE (bindE (properties f) (\<lambda>d. get_str d key))"

definition int_prop :: "frame \<Rightarrow> string \<Rightarrow> (world, int) eff" where
  "int_prop f key = liftE (bindE (properties f) (\<lambda>d. get_int d key))"

definition bool_prop :: "frame \<Rightarrow> string \<Rightarrow> (world, bool) eff" where
  "bool_prop f key = liftE (bindE (properties f) (\<lambda>d. get_bool d key))"

definition the_key :: "'a option \<Rightarrow> (world, 'a) eff" where
  \<comment> \<open>\<open>channel['...']\<close> for a key that may be missing\<close>
  "the_key v = liftE (case v of None \<Rightarrow> Inl KeyError | Some x \<Rightarrow> Inr x)"

definition on_channel_open :: "nat \<Rightarrow> channel \<Rightarrow> int \<Rightarrow> frame \<Rightarrow> (world, unit) eff" where
  "on_channel_open me channel n f =
     (if \<not> is_method f CHANNEL_OPEN then on_transport me transport_close
      else if \<not> check_channel_open f then on_transport me transport_close
      else
        thenS (on_transport me (send_channel_open_ok (ch_number channel) (lit ''42'')))
              (set_channel me n (ch_state_update (\<lambda>_. CH_OPENED))))"

definition on_channel_close :: "nat \<Rightarrow> int \<Rightarrow> (world, unit) eff" where
  "on_channel_close me n =
     thenS (del_channel me n)
    (thenS (on_transport me (send_channel_close_ok n))
           (on_transport me transport_close))"

definition on_exchange_declare :: "nat \<Rightarrow> int \<Rightarrow> frame \<Rightarrow> (world, unit) eff" where
  "on_exchange_declare me n f =
     bindS (str_prop f ''exchange-name'') (\<lambda>name.
     bindS (str_prop f ''type'') (\<lambda>ty.
     bindS (on_broker (declare_exchange name ty)) (\<lambda>ok.
     thenS (if \<not> ok then on_transport me transport_close else returnS ())
           (on_transport me (send_exchange_declare_ok n)))))"

definition on_queue_declare :: "nat \<Rightarrow> int \<Rightarrow> frame \<Rightarrow> (world, unit) eff" where
  "on_queue_declare me n f =
     bindS (str_prop f ''queue-name'') (\<lambda>name.
     bindS (on_broker (declare_queue name)) (\<lambda>(ok, message_count, consumer_count).
     thenS (if \<not> ok then on_transport me transport_close else returnS ())
           (on_transport me (send_queue_declare_ok n name message_count consumer_count))))"

definition on_queue_bind :: "nat \<Rightarrow> int \<Rightarrow> frame \<Rightarrow> (world, unit) eff" where
  "on_queue_bind me n f =
     bindS (str_prop f ''queue-name'') (\<lambda>name.
     bindS (str_prop f ''exchange-name'') (\<lambda>ex.
     bindS (on_broker (bind_queue name ex)) (\<lambda>ok.
       if \<not> ok then on_transport me transport_close
       else on_transport me (send_queue_bind_ok n))))"

definition on_basic_publish :: "nat \<Rightarrow> int \<Rightarrow> frame \<Rightarrow> (world, unit) eff" where
  "on_basic_publish me n f =
     thenS (set_channel me n (ch_state_update (\<lambda>_. CH_WAITING_HEADER)))
    (bindS (str_prop f ''exchange-name'') (\<lambda>ex.
     thenS (set_channel me n (ch_exchange_update (\<lambda>_. Some ex)))
    (bindS (str_prop f ''routing-key'') (\<lambda>key.
     set_channel me n (ch_routing_key_update (\<lambda>_. Some key))))))"

definition on_basic_consume :: "nat \<Rightarrow> int \<Rightarrow> frame \<Rightarrow> (world, unit) eff" where
  "on_basic_consume me n f =
     bindS (str_prop f ''consumer-tag'') (\<lambda>consumer_tag.
     bindS (str_prop f ''queue-name'') (\<lambda>name.
     bindS (on_broker (register_consumer me consumer_tag name n)) (\<lambda>_.
     on_transport me (send_basic_consume_ok n consumer_tag))))"

definition on_basic_ack :: "frame \<Rightarrow> (world, unit) eff" where
  "on_basic_ack f =
     bindS (int_prop f ''delivery-tag'') (\<lambda>delivery_tag. on_broker (message_ack delivery_tag))"

definition on_basic_nack :: "frame \<Rightarrow> (world, unit) eff" where
  "on_basic_nack f =
     bindS (int_prop f ''delivery-tag'') (\<lambda>delivery_tag.
     bindS (bool_prop f ''requeue'') (\<lambda>requeue.
     on_broker (message_nack delivery_tag requeue)))"

definition on_basic_cancel :: "nat \<Rightarrow> int \<Rightarrow> frame \<Rightarrow> (world, unit) eff" where
  "on_basic_cancel me n f =
     bindS (str_prop f ''consumer-tag'') (\<lambda>consumer_tag.
     on_transport me (send_basic_cancel_ok n consumer_tag))"

definition on_opened :: "nat \<Rightarrow> int \<Rightarrow> frame \<Rightarrow> (world, unit) eff" where
  "on_opened me n f =
     (if is_method f EXCHANGE_DECLARE then on_exchange_declare me n f
      else if is_method f QUEUE_DECLARE then on_queue_declare me n f
      else if is_method f QUEUE_BIND then on_queue_bind me n f
      else if is_method f BASIC_QOS then on_transport me (send_basic_qos_ok n)
      else if is_method f BASIC_PUBLISH then on_basic_publish me n f
      else if is_method f BASIC_CONSUME then on_basic_consume me n f
      else if is_method f BASIC_ACK then on_basic_ack f
      else if is_method f BASIC_NACK then on_basic_nack f
      else if is_method f BASIC_CANCEL then on_basic_cancel me n f
      else returnS ())"

text \<open>
  Content. A header frame starts a message and falls through to the state it has just entered,
  which ignores it; a body frame that completes the message stores it.
\<close>

definition on_waiting_body ::
  "(pystr list \<Rightarrow> pystr list) \<Rightarrow> nat \<Rightarrow> int \<Rightarrow> frame \<Rightarrow> (world, unit) eff" where
  "on_waiting_body set_order me n f =
     (if \<not> is_body f then returnS ()
      else
        bindS (get_channel me n) (\<lambda>channel.
        bindS (the_key (ch_on_going channel)) (\<lambda>m.
        let message = add_content (content f) m
        in thenS (set_channel me n (ch_on_going_update (\<lambda>_. Some message)))
             (if \<not> is_complete message then returnS ()
              else
                bindS (the_key (ch_exchange channel)) (\<lambda>ex.
                bindS (liftE (properties (headers message))) (\<lambda>props.
                bindS (on_broker (store_message set_order ex (PDict props)
                         (PBytes (msg_content message)))) (\<lambda>ok.
                  if \<not> ok then on_transport me transport_close
                  else thenS (set_channel me n (ch_on_going_update (\<lambda>_. None)))
                             (set_channel me n (ch_state_update (\<lambda>_. CH_OPENED))))))))))"

definition on_waiting_header ::
  "(pystr list \<Rightarrow> pystr list) \<Rightarrow> nat \<Rightarrow> int \<Rightarrow> frame \<Rightarrow> (world, unit) eff" where
  "on_waiting_header set_order me n f =
     (if \<not> is_header f then returnS ()
      else
        thenS (set_channel me n (ch_on_going_update (\<lambda>_. Some (new_message f))))
       (thenS (set_channel me n (ch_state_update (\<lambda>_. CH_WAITING_BODY)))
              (on_waiting_body set_order me n f)))"

definition treat_channel_frame ::
  "(pystr list \<Rightarrow> pystr list) \<Rightarrow> nat \<Rightarrow> frame \<Rightarrow> (world, unit) eff" where
  "treat_channel_frame set_order me f =
     (let n = channel_number f in
      bindS (get_channel me n) (\<lambda>channel.
        if ch_state channel = CH_WAITING_OPEN then on_channel_open me channel n f
        else if is_method f CHANNEL_CLOSE then on_channel_close me n
        else if ch_state channel = CH_OPENED then on_opened me n f
        else if ch_state channel = CH_WAITING_HEADER then on_waiting_header set_order me n f
        else on_waiting_body set_order me n f))"

section \<open>Frames\<close>

definition set_parser_state :: "nat \<Rightarrow> connection_state \<Rightarrow> (world, unit) eff" where
  "set_parser_state me s = set_tracker me (parser_state_update (\<lambda>_. s))"

definition on_start_ok :: "nat \<Rightarrow> frame \<Rightarrow> (world, bool) eff" where
  "on_start_ok me f =
     bindS (check_start_ok f) (\<lambda>correct_credentials.
       if \<not> correct_credentials then thenS (on_transport me transport_close) (returnS False)
       else thenS (on_transport me send_connection_tune)
           (thenS (set_parser_state me WAITING_TUNE_OK)
                  (returnS False)))"

definition on_tune_ok :: "nat \<Rightarrow> frame \<Rightarrow> (world, bool) eff" where
  "on_tune_ok me f =
     (if \<not> is_method f TUNE_OK then thenS (on_transport me transport_close) (returnS False)
      else thenS (set_parser_state me WAITING_OPEN) (returnS True))"

definition on_open :: "nat \<Rightarrow> frame \<Rightarrow> (world, bool) eff" where
  "on_open me f =
     (if \<not> is_method f OPEN then thenS (on_transport me transport_close) (returnS False)
      else if \<not> check_open f then thenS (on_transport me transport_close) (returnS False)
      else thenS (on_transport me send_connection_ok)
          (thenS (set_parser_state me OPENED)
                 (returnS True)))"

definition on_handshake :: "nat \<Rightarrow> frame \<Rightarrow> (world, bool) eff" where
  "on_handshake me f =
     bindS (getS (\<lambda>w. parser_state (trackers w me))) (\<lambda>ps.
       if ps = WAITING_START_OK then on_start_ok me f
       else if ps = WAITING_TUNE_OK then on_tune_ok me f
       else if ps = WAITING_OPEN then on_open me f
       else returnS True)"

text \<open>One round of the loop for a frame already taken off the buffer; True to go on with the next one.\<close>

definition on_frame ::
  "(pystr list \<Rightarrow> pystr list) \<Rightarrow> nat \<Rightarrow> frame \<Rightarrow> (world, bool) eff" where
  "on_frame set_order me f =
     (case f of
        HeartBeat _ \<Rightarrow> thenS (on_transport me send_heartbeat) (returnS True)
      | _ \<Rightarrow>
          if channel_number f \<noteq> 0 then
            thenS (upsert_channel me (channel_number f))
           (thenS (treat_channel_frame set_order me f)
                  (returnS True))
          else if is_method f CLOSE then
            thenS (on_transport me send_connection_close_ok)
           (thenS (on_transport me transport_close)
                  (returnS False))
          else
            on_handshake me f)"

lemmas handlers = check_start_ok_def upsert_channel_def get_channel_def set_channel_def del_channel_def
  str_prop_def int_prop_def bool_prop_def the_key_def set_parser_state_def

section \<open>What every handler respects\<close>

text \<open>
  Every handler is built from the same steps: a call on the shared state, calls on its own
  transport, and changes of its own tracker. On a channel these changes are to the channels alone;
  the other handlers move the parser state along the handshake as well. An invariant under these
  steps is one of every handler.
\<close>

locale channel_invariant =
  fixes Q :: "world \<Rightarrow> bool" and set_order :: "pystr list \<Rightarrow> pystr list" and me :: nat
  assumes h_check_credentials: "keeps Q (on_broker (check_credentials username password))"
    and h_declare_exchange: "keeps Q (on_broker (declare_exchange name ty))"
    and h_declare_queue: "keeps Q (on_broker (declare_queue queue_name))"
    and h_bind_queue: "keeps Q (on_broker (bind_queue queue_name with_exchange))"
    and h_register_consumer: "keeps Q (on_broker (register_consumer me consumer_tag queue_name ch))"
    and h_store_message: "keeps Q (on_broker (store_message set_order exchange_name hdrs body))"
    and h_message_ack: "keeps Q (on_broker (message_ack delivery_tag))"
    and h_message_nack: "keeps Q (on_broker (message_nack delivery_tag requeue))"
    and h_transport: "keeps Q (on_transport me (m :: (transport, unit) eff))"
    and h_channels: "keeps Q (set_tracker me (\<lambda>t. t\<lparr>channels := g t\<rparr>))"

lemma channel_updates:
  "upsert_channel me n = set_tracker me (\<lambda>t. t\<lparr>channels :=
     if map_of (channels t) n = None
     then AList.update n \<lparr>ch_state = CH_WAITING_OPEN, ch_number = n, ch_exchange = None,
            ch_routing_key = None, ch_on_going = None\<rparr> (channels t)
     else channels t\<rparr>)"
  "set_channel me n f = set_tracker me (\<lambda>t. t\<lparr>channels :=
     case map_of (channels t) n of
       None \<Rightarrow> channels t | Some ch \<Rightarrow> AList.update n (f ch) (channels t)\<rparr>)"
  unfolding upsert_channel_def set_channel_def
  by (rule arg_cong [of _ _ "set_tracker me"], auto simp: fun_eq_iff split: option.split)+

lemma on_transport_trackers: "trackers (snd (on_transport c m w)) = trackers w"
  by (simp add: on_transport_apply)

lemma check_start_ok_trackers: "trackers (snd (check_start_ok f w)) = trackers w"
  by (simp add: check_start_ok_def bindS_apply on_broker_apply split: sum.split prod.split)

context channel_invariant
begin

lemma keeps_channel_ops:
  "keeps Q (upsert_channel me n)" "keeps Q (set_channel me n f')" "keeps Q (del_channel me n)"
  unfolding channel_updates del_channel_def by (rule h_channels)+

lemma keeps_reads:
  "keeps Q (get_channel me n)" "keeps Q (str_prop f key)" "keeps Q (int_prop f key)"
  "keeps Q (bool_prop f key)" "keeps Q (the_key v)"
  by (auto simp: keeps_def get_channel_def str_prop_def int_prop_def bool_prop_def the_key_def
      split: option.split)

lemmas keeps_steps = h_check_credentials h_declare_exchange h_declare_queue h_bind_queue
  h_register_consumer h_store_message h_message_ack h_message_nack h_transport
  keeps_channel_ops keeps_reads keeps_returnS keeps_liftE keeps_getS

lemma keeps_on_opened: "keeps Q (on_opened me n f)"
  unfolding on_opened_def on_exchange_declare_def on_queue_declare_def on_queue_bind_def
    on_basic_publish_def on_basic_consume_def on_basic_ack_def on_basic_nack_def on_basic_cancel_def
  by (intro keeps_rules keeps_steps)

lemma keeps_on_waiting_body: "keeps Q (on_waiting_body set_order me n f)"
  unfolding on_waiting_body_def by (intro keeps_rules keeps_steps)

lemma keeps_treat_channel_frame: "keeps Q (treat_channel_frame set_order me f)"
  unfolding treat_channel_frame_def on_channel_open_def on_channel_close_def on_waiting_header_def
  by (intro keeps_rules keeps_steps keeps_on_opened keeps_on_waiting_body)

lemma keeps_check_start_ok: "keeps Q (check_start_ok f)"
  unfolding check_start_ok_def by (intro keeps_rules keeps_steps)

end

locale handler_invariant = channel_invariant +
  assumes h_tune_ok: "Q w \<Longrightarrow> parser_state (trackers w me) = WAITING_START_OK \<Longrightarrow>
      Q (snd (set_parser_state me WAITING_TUNE_OK w))"
    and h_waiting_open: "Q w \<Longrightarrow> parser_state (trackers w me) = WAITING_TUNE_OK \<Longrightarrow>
      Q (snd (set_parser_state me WAITING_OPEN w))"
    and h_opened: "Q w \<Longrightarrow> parser_state (trackers w me) = WAITING_OPEN \<Longrightarrow>
      Q (snd (set_parser_state me OPENED w))"
begin

text \<open>The handshake steps know the state they start from.\<close>

lemma on_start_ok_keeps:
  assumes "Q w" and "parser_state (trackers w me) = WAITING_START_OK"
  shows "Q (snd (on_start_ok me f w))"
proof -
  let ?w = "snd (check_start_ok f w)"
  have q: "Q ?w" by (rule keepsD [OF keeps_check_start_ok assms(1)])
  have "parser_state (trackers (snd (on_transport me send_connection_tune ?w)) me) = WAITING_START_OK"
    by (simp add: on_transport_trackers check_start_ok_trackers assms(2))
  with keepsD [OF h_transport q] h_tune_ok q show ?thesis
    by (auto simp: on_start_ok_def bindS_apply split: sum.split)
qed

lemma on_tune_ok_keeps:
  assumes "Q w" and "parser_state (trackers w me) = WAITING_TUNE_OK"
  shows "Q (snd (on_tune_ok me f w))"
  using keepsD [OF h_transport assms(1)] h_waiting_open [OF assms]
  by (auto simp: on_tune_ok_def bindS_apply split: sum.split)

lemma on_open_keeps:
  assumes "Q w" and "parser_state (trackers w me) = WAITING_OPEN"
  shows "Q (snd (on_open me f w))"
proof -
  have "parser_state (trackers (snd (on_transport me send_connection_ok w)) me) = WAITING_OPEN"
    by (simp add: on_transport_trackers assms(2))
  with keepsD [OF h_transport assms(1)] h_opened show ?thesis
    by (auto simp: on_open_def bindS_apply split: sum.split)
qed

lemma keeps_on_handshake: "keeps Q (on_handshake me f)"
  by (rule keepsI) (simp add: on_handshake_def on_start_ok_keeps on_tune_ok_keeps on_open_keeps)

theorem keeps_on_frame: "keeps Q (on_frame set_order me f)"
proof -
  have "keeps Q (if channel_number f \<noteq> 0 then
       thenS (upsert_channel me (channel_number f))
      (thenS (treat_channel_frame set_order me f) (returnS True))
    else if is_method f CLOSE then
       thenS (on_transport me send_connection_close_ok)
      (thenS (on_transport me transport_close) (returnS False))
    else on_handshake me f)"
    by (intro keeps_rules keeps_steps keeps_treat_channel_frame keeps_on_handshake)
  moreover have "keeps Q (thenS (on_transport me send_heartbeat) (returnS True))"
    by (intro keeps_rules keeps_steps)
  ultimately show ?thesis
    unfolding on_frame_def by (cases f) (simp_all only: frame.case)
qed

end

text \<open>No handler touches its own buffer, so each round of the loop shortens it by one frame.\<close>

lemma set_parser_state_apply:
  "set_parser_state me s w = (Inr (), w\<lparr>trackers := (trackers w)(me :=
     (trackers w me)\<lparr>parser_state := s\<rparr>)\<rparr>)"
  by (simp add: set_parser_state_def)

lemmas world_simps = keeps_def on_broker_apply on_transport_apply set_parser_state_apply

interpretation own_buffer: handler_invariant "\<lambda>w. buffer (trackers w me) = b" set_order me
  by unfold_locales (simp_all add: world_simps)

definition take_frame :: "nat \<Rightarrow> frame \<Rightarrow> world \<Rightarrow> world" where
  \<comment> \<open>\<open>self._buffer = self._buffer[frame_value.size:]\<close>\<close>
  "take_frame me f w = w\<lparr>trackers := (trackers w)(me :=
     (trackers w me)\<lparr>buffer := drop (frame_size f) (buffer (trackers w me))\<rparr>)\<rparr>"

lemma on_frame_buffer: "buffer (trackers (snd (on_frame set_order me f w)) me) = buffer (trackers w me)"
  using keepsD [OF own_buffer.keeps_on_frame [of me "buffer (trackers w me)"], of w set_order f] by simp

lemma serve_shorter:
  assumes "read_frame (buffer (trackers w me)) = Inr (Some f)"
    and "on_frame set_order me f (take_frame me f w) = (r, w')"
  shows "length (buffer (trackers w' me)) < length (buffer (trackers w me))"
proof -
  have "buffer (trackers w' me) = drop (frame_size f) (buffer (trackers w me))"
    using on_frame_buffer [of set_order me f "take_frame me f w"] assms(2) by (simp add: take_frame_def)
  with read_frame_Some(2,3) [OF assms(1)] show ?thesis by simp
qed

function serve :: "(pystr list \<Rightarrow> pystr list) \<Rightarrow> nat \<Rightarrow> world \<Rightarrow> unit result \<times> world" where
  \<comment> \<open>\<open>while len(self._buffer) > 0\<close>\<close>
  "serve set_order me w =
     (if buffer (trackers w me) = [] then (Inr (), w)
      else case read_frame (buffer (trackers w me)) of
        Inl e \<Rightarrow> (Inl e, w)
      | Inr None \<Rightarrow> (Inr (), w)
      | Inr (Some f) \<Rightarrow>
          (case on_frame set_order me f (take_frame me f w) of
             (Inl e, w') \<Rightarrow> (Inl e, w')
           | (Inr False, w') \<Rightarrow> (Inr (), w')
           | (Inr True, w') \<Rightarrow> serve set_order me w'))"
  by pat_completeness auto
termination
  by (relation "measure (\<lambda>(_, me, w). length (buffer (trackers w me)))")
    (auto intro: serve_shorter [OF _ sym])

declare serve.simps [simp del]

text \<open>The three ways a round can go.\<close>

lemma serve_cases:
  obtains (idle) r where "serve set_order me w = (r, w)"
      and "buffer (trackers w me) = [] \<or> (\<nexists>f. read_frame (buffer (trackers w me)) = Inr (Some f))"
  | (final) f r' w' where "read_frame (buffer (trackers w me)) = Inr (Some f)"
      and "on_frame set_order me f (take_frame me f w) = (r', w')" and "r' \<noteq> Inr True"
      and "serve set_order me w = (case r' of Inl e \<Rightarrow> Inl e | Inr _ \<Rightarrow> Inr (), w')"
  | (again) f w' where "read_frame (buffer (trackers w me)) = Inr (Some f)"
      and "on_frame set_order me f (take_frame me f w) = (Inr True, w')"
      and "length (buffer (trackers w' me)) < length (buffer (trackers w me))"
      and "serve set_order me w = serve set_order me w'"
proof (cases "buffer (trackers w me) = [] \<or> (\<nexists>f. read_frame (buffer (trackers w me)) = Inr (Some f))")
  case True
  have "\<exists>r. serve set_order me w = (r, w)"
    using True by (subst serve.simps) (auto split: sum.split option.split)
  with True idle show ?thesis by blast
next
  case False
  then obtain f where f: "buffer (trackers w me) \<noteq> []" "read_frame (buffer (trackers w me)) = Inr (Some f)"
    by blast
  obtain r' w' where o: "on_frame set_order me f (take_frame me f w) = (r', w')" by fastforce
  show ?thesis
  proof (cases "r' = Inr True")
    case True
    with f o have "serve set_order me w = serve set_order me w'" by (subst serve.simps) simp
    with again f o True serve_shorter show ?thesis by blast
  next
    case False
    with f o have "serve set_order me w = (case r' of Inl e \<Rightarrow> Inl e | Inr _ \<Rightarrow> Inr (), w')"
      by (subst serve.simps) (auto split: sum.split bool.split)
    with final f o False show ?thesis by blast
  qed
qed

definition connection_made :: "nat \<Rightarrow> world \<Rightarrow> world" where
  \<comment> \<open>a new protocol object on a new transport\<close>
  "connection_made c w =
     w\<lparr>trackers := (trackers w)(c := new_tracker), transports := (transports w)(c := new_transport)\<rparr>"

definition data_received ::
  "(pystr list \<Rightarrow> pystr list) \<Rightarrow> nat \<Rightarrow> bytes \<Rightarrow> (world, unit) eff" where
  "data_received set_order me data =
     thenS (set_tracker me (\<lambda>t. t\<lparr>buffer := buffer t @ data\<rparr>))
    (bindS (getS (\<lambda>w. parser_state (trackers w me))) (\<lambda>ps.
       if ps = WAITING_PROTOCOL_HEADER then
         bindS (check_protocol_header me) (\<lambda>protocol_ok.
           if \<not> protocol_ok then returnS ()
           else thenS (on_transport me send_connection_start)
                      (set_parser_state me WAITING_START_OK))
       else serve set_order me))"

section \<open>What a connection respects\<close>

lemma check_protocol_header_state:
  "parser_state (trackers (snd (check_protocol_header me w)) me) = parser_state (trackers w me)"
  by (simp add: check_protocol_header_def bindS_apply on_transport_apply split: sum.split)

text \<open>
  With the two other things \<open>data_received\<close> does, to the buffer and to the state at the start of the
  handshake, an invariant of the handlers becomes one of the connection.
\<close>

locale connection_invariant = handler_invariant +
  assumes c_buffer: "keeps Q (set_tracker me (\<lambda>t. t\<lparr>buffer := h t\<rparr>))"
    and c_start_ok: "Q w \<Longrightarrow> parser_state (trackers w me) = WAITING_PROTOCOL_HEADER \<Longrightarrow>
      Q (snd (set_parser_state me WAITING_START_OK w))"
begin

lemma take_frame_keeps: "Q w \<Longrightarrow> Q (take_frame me f w)"
  using keepsD [OF c_buffer, of w "\<lambda>t. drop (frame_size f) (buffer t)"] by (simp add: take_frame_def)

lemma serve_keeps: "Q w \<Longrightarrow> Q (snd (serve set_order me w))"
proof (induction "length (buffer (trackers w me))" arbitrary: w rule: less_induct)
  case less
  have step: "Q (snd (on_frame set_order me f (take_frame me f w)))" for f
    by (rule keepsD [OF keeps_on_frame take_frame_keeps [OF less.prems]])
  show ?case
  proof (cases rule: serve_cases [of set_order me w])
    case (again f w')
    with step [of f] less.hyps [of w'] show ?thesis by simp
  qed (use less.prems step in \<open>auto dest: sym [of "on_frame _ _ _ _"] simp: prod_eq_iff\<close>)
qed

lemma keeps_check_protocol_header: "keeps Q (check_protocol_header me)"
proof -
  have "keeps Q (set_tracker me (buffer_update (\<lambda>_. [])))"
    using c_buffer [of "\<lambda>_. []"] by (simp add: fun_eq_iff)
  then show ?thesis
    unfolding check_protocol_header_def by (intro keeps_rules h_transport)
qed

theorem keeps_data_received: "keeps Q (data_received set_order me data)"
proof (rule keepsI)
  fix w assume "Q w"
  let ?w1 = "snd (set_tracker me (\<lambda>t. t\<lparr>buffer := buffer t @ data\<rparr>) w)"
  let ?w2 = "snd (check_protocol_header me ?w1)"
  have q1: "Q ?w1" by (rule keepsD [OF c_buffer \<open>Q w\<close>])
  then have q2: "Q ?w2" by (rule keepsD [OF keeps_check_protocol_header])
  then have q3: "Q (snd (on_transport me send_connection_start ?w2))" by (rule keepsD [OF h_transport])
  have q4: "Q (snd (set_parser_state me WAITING_START_OK (snd (on_transport me send_connection_start ?w2))))"
    if "parser_state (trackers w me) = WAITING_PROTOCOL_HEADER"
  proof (rule c_start_ok [OF q3])
    show "parser_state (trackers (snd (on_transport me send_connection_start ?w2)) me) = WAITING_PROTOCOL_HEADER"
      using that by (simp only: on_transport_trackers check_protocol_header_state) simp
  qed
  show "Q (snd (data_received set_order me data w))"
    using serve_keeps [OF q1] q2 q3 q4
    by (auto simp: data_received_def bindS_apply split: sum.split)
qed

end

text \<open>
  Every invariant of the broker's operations is one of a connection. A connection touches no other
  connection's tracker or transport, moves its parser state forward only, and stays within the
  handshake's states.
\<close>

sublocale broker_invariant \<subseteq> connected: connection_invariant "\<lambda>w. P (the_broker w)" set_order me for me
  by unfold_locales
    (simp_all add: world_simps keepsD [OF keeps_check_credentials] keepsD [OF keeps_declare_exchange]
      keepsD [OF keeps_declare_queue] keepsD [OF keeps_bind_queue] keepsD [OF keeps_register_consumer]
      keepsD [OF keeps_store_message] keepsD [OF keeps_message_ack] keepsD [OF keeps_message_nack])

interpretation elsewhere: connection_invariant
  "\<lambda>w. other \<noteq> me \<longrightarrow> trackers w other = t \<and> transports w other = x" set_order me
  by unfold_locales (simp_all add: world_simps)

interpretation forward: connection_invariant "\<lambda>w. s \<le> parser_state (trackers w me)" set_order me
  by unfold_locales (auto simp: world_simps connection_state_order)

text \<open>Frames on a channel do not move the parser state at all.\<close>

interpretation same_state: channel_invariant "\<lambda>w. parser_state (trackers w me) = s" set_order me
  by unfold_locales (simp_all add: world_simps)

interpretation known: connection_invariant "\<lambda>w. parser_state (trackers w me) \<le> OPENED" set_order me
  by unfold_locales (auto simp: world_simps connection_state_order)

end
