(* ===== verification/Channels.thy ===== *)
theory Channels
  imports Tracker_Protocol
begin

text \<open>
  The channels of a connection: their invariant, and that a frame on a channel is treated without an
  exception as long as the channel number fits the one byte the replies have for it.
\<close>

section \<open>Well-formed channels\<close>

text \<open>
  A channel that waits for content knows the exchange it is for, and one that waits for a body has
  a message, with a header frame. A channel whose number does not fit a byte is never opened: the
  reply to the opening cannot be written.
\<close>

definition channel_ok :: "int \<Rightarrow> channel \<Rightarrow> bool" where
  "channel_ok n ch \<longleftrightarrow>
     ch_number ch = n
     \<and> (256 \<le> n \<longrightarrow> ch_state ch = CH_WAITING_OPEN)
     \<and> (ch_state ch = CH_WAITING_HEADER \<or> ch_state ch = CH_WAITING_BODY \<longrightarrow> ch_exchange ch \<noteq> None)
     \<and> (ch_state ch = CH_WAITING_BODY \<longrightarrow>
          (case ch_on_going ch of None \<Rightarrow> False | Some m \<Rightarrow> is_header (headers m)))"

definition tracker_ok :: "tracker \<Rightarrow> bool" where
  "tracker_ok t \<longleftrightarrow>
     list_all (\<lambda>n. case map_of (channels t) n of None \<Rightarrow> True | Some ch \<Rightarrow> channel_ok n ch)
       (map fst (channels t))"

lemma tracker_ok_iff: "tracker_ok t \<longleftrightarrow> (\<forall>n ch. map_of (channels t) n = Some ch \<longrightarrow> channel_ok n ch)"
  unfolding tracker_ok_def list_all_keys by (auto split: option.splits)

lemma new_tracker_ok: "tracker_ok new_tracker"
  by (simp add: tracker_ok_def new_tracker_def)

lemma tracker_ok_update:
  "tracker_ok t \<Longrightarrow> channel_ok n ch \<Longrightarrow> tracker_ok (t\<lparr>channels := AList.update n ch (channels t)\<rparr>)"
  by (simp add: tracker_ok_iff AList.update_conv')

lemma tracker_ok_delete: "tracker_ok t \<Longrightarrow> tracker_ok (t\<lparr>channels := AList.delete n (channels t)\<rparr>)"
  by (simp add: tracker_ok_iff AList.delete_conv')

section \<open>Running the handlers\<close>

lemma returns_world:
  "returns (on_transport c m) Q w =
     returns m (\<lambda>x t. Q x (w\<lparr>transports := (transports w)(c := t)\<rparr>)) (transports w c)"
  "returns (on_broker m') Q' w = returns m' (\<lambda>x b. Q' x (w\<lparr>the_broker := b\<rparr>)) (the_broker w)"
  "returns (set_tracker c f) Q'' w = Q'' () (w\<lparr>trackers := (trackers w)(c := f (trackers w c))\<rparr>)"
  by (auto simp: returns_def on_transport_def on_broker_def split: prod.split sum.split)

lemma returns_channel:
  assumes "map_of (channels (trackers w me)) n = Some ch"
  shows "returns (get_channel me n) Q w = Q ch w"
    and "returns (set_channel me n f) Q' w = Q' () (w\<lparr>trackers := (trackers w)(me :=
      (trackers w me)\<lparr>channels := AList.update n (f ch) (channels (trackers w me))\<rparr>)\<rparr>)"
  using assms by (simp_all add: returns_def get_channel_def set_channel_def)

lemma returns_del_channel:
  "returns (del_channel me n) Q w = Q () (w\<lparr>trackers := (trackers w)(me :=
     (trackers w me)\<lparr>channels := AList.delete n (channels (trackers w me))\<rparr>)\<rparr>)"
  by (simp add: returns_def del_channel_def)

lemma is_methodE:
  assumes "is_method f m" and "frame_typed f"
  obtains sz d where "f = MethodFrame (channel_number f) sz (id_of m) d" and "args_typed m d"
  using assms by (cases f) (auto simp: is_method_def frame_typed_def)

lemma returns_prop:
  assumes "f = MethodFrame c sz i d"
  shows "get_str d key = Inr s \<Longrightarrow> returns (str_prop f key) Q w = Q s w"
    and "get_int d key = Inr v \<Longrightarrow> returns (int_prop f key) Q' w = Q' v w"
    and "get_bool d key = Inr b \<Longrightarrow> returns (bool_prop f key) Q'' w = Q'' b w"
  using assms by (simp_all add: str_prop_def int_prop_def bool_prop_def)

text \<open>Replies, and the calls on the broker the handlers make.\<close>

lemma returns_close [simp]: "returns transport_close Q t = Q () (snd (transport_close t))"
  by (simp add: returns_def transport_close_def)

lemmas returns_sends = sends_ok [THEN returns_fst]

lemma broker_op_results:
  "fst (declare_exchange n ty b) = Inr (type_of b n = None \<or> type_of b n = Some ty)"
  "fst (declare_queue q b) = Inr (True, 0, 0)"
  "fst (bind_queue q e b) = Inr (type_of b e \<noteq> None \<and> queue_log b q \<noteq> None)"
  "fst (register_consumer c tg q ch b) = Inr (queue_log b q \<noteq> None)"
  "fst (message_ack t b) = Inr ()" "fst (message_nack t r b) = Inr ()"
  by (simp_all add: views declare_queue_alt message_ack_def message_nack_def)

lemmas returns_ops = broker_op_results [THEN returns_fst]

lemma short_args:
  assumes "args_typed m d" and "key \<in> set (str_args m)"
  obtains s where "get_str d key = Inr s" and "short_str s"
  using assms by (auto simp: args_typed_def list_all_iff)

text \<open>Each handler of an open channel returns; only a publish changes the channel.\<close>

definition runs :: "world \<Rightarrow> (world, unit) eff \<Rightarrow> bool" where
  "runs w m \<longleftrightarrow> returns m (\<lambda>_ w'. trackers w' = trackers w) w"

lemma runs_if: "(c \<Longrightarrow> runs w a) \<Longrightarrow> (\<not> c \<Longrightarrow> runs w b) \<Longrightarrow> runs w (if c then a else b)"
  by simp

lemma run_exchange_declare:
  assumes m: "is_method f EXCHANGE_DECLARE" and f: "frame_typed f" and n: "sendable_on n"
  shows "runs w (on_exchange_declare me n f)"
proof -
  obtain sz d where d: "f = MethodFrame (channel_number f) sz (id_of EXCHANGE_DECLARE) d"
    and t: "args_typed EXCHANGE_DECLARE d" using is_methodE [OF m f] .
  obtain e ty where "get_str d ''exchange-name'' = Inr e" "get_str d ''type'' = Inr ty"
    using short_args [OF t] by (metis list.set_intros str_args.simps(2))
  with n show ?thesis
    by (simp add: runs_def on_exchange_declare_def returns_prop [OF d] returns_world returns_ops returns_sends)
qed

lemma run_queue_declare:
  assumes m: "is_method f QUEUE_DECLARE" and f: "frame_typed f" and n: "sendable_on n"
  shows "runs w (on_queue_declare me n f)"
proof -
  obtain sz d where d: "f = MethodFrame (channel_number f) sz (id_of QUEUE_DECLARE) d"
    and t: "args_typed QUEUE_DECLARE d" using is_methodE [OF m f] .
  obtain q where "get_str d ''queue-name'' = Inr q" "short_str q"
    using short_args [OF t] by (metis list.set_intros str_args.simps(3))
  with n show ?thesis
    by (simp add: runs_def on_queue_declare_def returns_prop [OF d] returns_world returns_ops returns_sends)
qed

lemma run_queue_bind:
  assumes m: "is_method f QUEUE_BIND" and f: "frame_typed f" and n: "sendable_on n"
  shows "runs w (on_queue_bind me n f)"
proof -
  obtain sz d where d: "f = MethodFrame (channel_number f) sz (id_of QUEUE_BIND) d"
    and t: "args_typed QUEUE_BIND d" using is_methodE [OF m f] .
  obtain q e where "get_str d ''queue-name'' = Inr q" "get_str d ''exchange-name'' = Inr e"
    using short_args [OF t] by (metis list.set_intros str_args.simps(4))
  with n show ?thesis
    by (simp add: runs_def on_queue_bind_def returns_prop [OF d] returns_world returns_ops returns_sends)
qed

lemma run_basic_consume:
  assumes m: "is_method f BASIC_CONSUME" and f: "frame_typed f" and n: "sendable_on n"
  shows "runs w (on_basic_consume me n f)"
proof -
  obtain sz d where d: "f = MethodFrame (channel_number f) sz (id_of BASIC_CONSUME) d"
    and t: "args_typed BASIC_CONSUME d" using is_methodE [OF m f] .
  obtain q c where "get_str d ''queue-name'' = Inr q" "get_str d ''consumer-tag'' = Inr c" "short_str c"
    using short_args [OF t] by (metis list.set_intros str_args.simps(6))
  with n show ?thesis
    by (simp add: runs_def on_basic_consume_def returns_prop [OF d] returns_world returns_ops returns_sends)
qed

lemma run_basic_cancel:
  assumes m: "is_method f BASIC_CANCEL" and f: "frame_typed f" and n: "sendable_on n"
  shows "runs w (on_basic_cancel me n f)"
proof -
  obtain sz d where d: "f = MethodFrame (channel_number f) sz (id_of BASIC_CANCEL) d"
    and t: "args_typed BASIC_CANCEL d" using is_methodE [OF m f] .
  obtain c where "get_str d ''consumer-tag'' = Inr c" "short_str c"
    using short_args [OF t] by (metis list.set_intros str_args.simps(7))
  with n show ?thesis
    by (simp add: runs_def on_basic_cancel_def returns_prop [OF d] returns_world returns_ops returns_sends)
qed

lemma run_basic_ack:
  assumes m: "is_method f BASIC_ACK" and f: "frame_typed f"
  shows "runs w (on_basic_ack f)"
proof -
  obtain sz d where d: "f = MethodFrame (channel_number f) sz (id_of BASIC_ACK) d"
    and "args_typed BASIC_ACK d" using is_methodE [OF m f] .
  then obtain v where "get_int d ''delivery-tag'' = Inr v" by (auto simp: args_typed_def)
  then show ?thesis
    by (simp add: runs_def on_basic_ack_def returns_prop [OF d] returns_world returns_ops)
qed

lemma run_basic_nack:
  assumes m: "is_method f BASIC_NACK" and f: "frame_typed f"
  shows "runs w (on_basic_nack f)"
proof -
  obtain sz d where d: "f = MethodFrame (channel_number f) sz (id_of BASIC_NACK) d"
    and "args_typed BASIC_NACK d" using is_methodE [OF m f] .
  then obtain v b where "get_int d ''delivery-tag'' = Inr v" "get_bool d ''requeue'' = Inr b"
    by (auto simp: args_typed_def)
  then show ?thesis
    by (simp add: runs_def on_basic_nack_def returns_prop [OF d] returns_world returns_ops)
qed

lemma run_basic_qos: "sendable_on n \<Longrightarrow> runs w (on_transport me (send_basic_qos_ok n))"
  by (simp add: runs_def returns_world returns_sends)

lemma returns_mono: "returns m P s \<Longrightarrow> (\<And>x s'. P x s' \<Longrightarrow> Q x s') \<Longrightarrow> returns m Q s"
  by (auto simp: returns_def split: prod.splits sum.splits)

abbreviation leaves_ok :: "nat \<Rightarrow> world \<Rightarrow> (world, unit) eff \<Rightarrow> bool" where
  "leaves_ok me w m \<equiv> returns m (\<lambda>_ w'. tracker_ok (trackers w' me)) w"

lemma runs_leaves_ok: "runs w m \<Longrightarrow> tracker_ok (trackers w me) \<Longrightarrow> leaves_ok me w m"
  unfolding runs_def by (erule returns_mono) simp

text \<open>The handlers that change their channel; each starts on a channel that is well formed.\<close>

lemma this_channel_ok:
  "map_of (channels (trackers w me)) n = Some ch \<Longrightarrow> tracker_ok (trackers w me) \<Longrightarrow> channel_ok n ch"
  by (simp add: tracker_ok_iff)

lemma run_channel_open:
  assumes ch: "map_of (channels (trackers w me)) n = Some ch" and ok: "tracker_ok (trackers w me)"
    and n: "sendable_on n"
  shows "leaves_ok me w (on_channel_open me ch n f)"
proof -
  from this_channel_ok [OF ch ok] have "ch_number ch = n" "channel_ok n (ch\<lparr>ch_state := CH_OPENED\<rparr>)"
    using n by (simp_all add: channel_ok_def sendable_on_def)
  with ok n show ?thesis
    by (simp add: on_channel_open_def check_channel_open_def returns_world returns_sends
        returns_channel ch tracker_ok_update)
qed

lemma run_channel_close:
  assumes ch: "map_of (channels (trackers w me)) n = Some ch" and ok: "tracker_ok (trackers w me)"
    and n: "sendable_on n"
  shows "leaves_ok me w (on_channel_close me n)"
  using ok n by (simp add: on_channel_close_def returns_world returns_sends returns_del_channel tracker_ok_delete)

lemma run_basic_publish:
  assumes ch: "map_of (channels (trackers w me)) n = Some ch" and ok: "tracker_ok (trackers w me)"
    and m: "is_method f BASIC_PUBLISH" and f: "frame_typed f" and n: "sendable_on n"
  shows "leaves_ok me w (on_basic_publish me n f)"
proof -
  obtain sz d where d: "f = MethodFrame (channel_number f) sz (id_of BASIC_PUBLISH) d"
    and t: "args_typed BASIC_PUBLISH d" using is_methodE [OF m f] .
  obtain e k where "get_str d ''exchange-name'' = Inr e" "get_str d ''routing-key'' = Inr k"
    using short_args [OF t] by (metis list.set_intros str_args.simps(5))
  moreover have "channel_ok n (ch\<lparr>ch_state := CH_WAITING_HEADER, ch_exchange := Some e, ch_routing_key := Some k\<rparr>)" for e k
    using this_channel_ok [OF ch ok] n by (simp add: channel_ok_def sendable_on_def)
  ultimately show ?thesis
    using ok by (simp add: on_basic_publish_def returns_channel ch returns_prop [OF d] AList.update_conv'
        tracker_ok_iff)
qed

lemma run_opened:
  assumes ch: "map_of (channels (trackers w me)) n = Some ch" and ok: "tracker_ok (trackers w me)"
    and f: "frame_typed f" and n: "sendable_on n"
  shows "leaves_ok me w (on_opened me n f)"
  unfolding on_opened_def
  using run_exchange_declare [OF _ f n, of w me] run_queue_declare [OF _ f n, of w me]
    run_queue_bind [OF _ f n, of w me] run_basic_qos [OF n, of w me]
    run_basic_publish [OF ch ok _ f n] run_basic_consume [OF _ f n, of w me]
    run_basic_ack [OF _ f, of w] run_basic_nack [OF _ f, of w] run_basic_cancel [OF _ f n, of w me]
    ok runs_leaves_ok [OF _ ok]
  by (simp split: if_split)

lemma store_message_returns:
  assumes "broker_ok b" and "\<forall>xs. mset (set_order xs) = mset xs"
  shows "returns (store_message set_order e hdrs body) Q b =
    Q (type_of b e \<noteq> None) (snd (store_message set_order e hdrs body b))"
  using store_message_result(1) [OF assms(1), of set_order e hdrs body] assms(2)
  by (simp add: returns_fst)

lemma add_content_headers [simp]: "headers (add_content c m) = headers m"
  by (simp add: add_content_def)

lemma run_waiting_body:
  assumes ch: "map_of (channels (trackers w me)) n = Some ch" and ok: "tracker_ok (trackers w me)"
    and state: "ch_state ch = CH_WAITING_BODY"
    and broker: "broker_ok (the_broker w)" and order: "\<forall>xs. mset (set_order xs) = mset xs"
  shows "leaves_ok me w (on_waiting_body set_order me n f)"
proof -
  from this_channel_ok [OF ch ok] state obtain m e where m: "ch_on_going ch = Some m" "is_header (headers m)"
    and e: "ch_exchange ch = Some e" and num: "ch_number ch = n" "n < 256"
    by (auto simp: channel_ok_def split: option.splits)
  from m(2) obtain d where d: "properties (headers m) = Inr d" by (cases "headers m") auto
  from ok num e m(2) show ?thesis
    by (simp add: on_waiting_body_def returns_channel ch the_key_def m e d Let_def returns_world
        store_message_returns broker order AList.update_conv' tracker_ok_iff channel_ok_def state
        split: if_split)
qed

lemma run_waiting_header:
  assumes ch: "map_of (channels (trackers w me)) n = Some ch" and ok: "tracker_ok (trackers w me)"
    and state: "ch_state ch = CH_WAITING_HEADER"
  shows "leaves_ok me w (on_waiting_header set_order me n f)"
proof -
  from this_channel_ok [OF ch ok] state
  have "channel_ok n (ch\<lparr>ch_on_going := Some (new_message f), ch_state := CH_WAITING_BODY\<rparr>)" if "is_header f"
    using that by (simp add: channel_ok_def new_message_def)
  moreover have "is_header f \<Longrightarrow> \<not> is_body f" by (cases f) simp_all
  ultimately show ?thesis
    using ok by (simp add: on_waiting_header_def on_waiting_body_def returns_channel ch
        AList.update_conv' tracker_ok_iff)
qed

section \<open>Every frame\<close>

lemma treat_channel_frame_runs:
  assumes ch: "map_of (channels (trackers w me)) (channel_number f) = Some ch"
    and ok: "tracker_ok (trackers w me)" and f: "frame_typed f" and n: "sendable_on (channel_number f)"
    and broker: "broker_ok (the_broker w)" and order: "\<forall>xs. mset (set_order xs) = mset xs"
  shows "leaves_ok me w (treat_channel_frame set_order me f)"
  using run_channel_open [OF ch ok n, of f] run_channel_close [OF ch ok n] run_opened [OF ch ok f n]
    run_waiting_header [OF ch ok, of set_order f]
    run_waiting_body [OF ch ok _ broker order, of f]
  by (cases "ch_state ch") (simp_all add: treat_channel_frame_def Let_def returns_channel ch)

lemma treat_channel_frame_refused:
  assumes ch: "map_of (channels (trackers w me)) (channel_number f) = Some ch"
    and ok: "tracker_ok (trackers w me)" and n: "256 \<le> channel_number f"
  shows "treat_channel_frame set_order me f w =
    (if is_method f CHANNEL_OPEN then (Inl ValueError, w) else on_transport me transport_close w)"
proof -
  from this_channel_ok [OF ch ok] n have "ch_state ch = CH_WAITING_OPEN" "ch_number ch = channel_number f"
    by (simp_all add: channel_ok_def)
  then show ?thesis
    using n by (simp add: treat_channel_frame_def Let_def get_channel_def ch bindS_apply on_channel_open_def
        check_channel_open_def on_transport_def send_channel_open_ok_def dumps_channel_id channel_refused)
qed

lemma upsert_channel_run:
  assumes ok: "tracker_ok (trackers w me)"
  obtains ch w1 where "upsert_channel me n w = (Inr (), w1)"
    and "map_of (channels (trackers w1 me)) n = Some ch" and "tracker_ok (trackers w1 me)"
    and "the_broker w1 = the_broker w"
proof
  let ?ch = "case map_of (channels (trackers w me)) n of
    None \<Rightarrow> \<lparr>ch_state = CH_WAITING_OPEN, ch_number = n, ch_exchange = None,
             ch_routing_key = None, ch_on_going = None\<rparr> | Some c \<Rightarrow> c"
  let ?w = "snd (upsert_channel me n w)"
  show "upsert_channel me n w = (Inr (), ?w)" by (simp add: upsert_channel_def)
  show "map_of (channels (trackers ?w me)) n = Some ?ch"
    by (simp add: upsert_channel_def AList.update_conv' split: option.split)
  show "tracker_ok (trackers ?w me)"
    using ok by (simp add: upsert_channel_def tracker_ok_update channel_ok_def)
  show "the_broker ?w = the_broker w" by (simp add: upsert_channel_def)
qed

text \<open>
  A frame on a channel: no exception but the refusal of a channel number above 255, and the
  channels stay well formed in both cases.
\<close>

lemma channel_frame_result:
  assumes ok: "tracker_ok (trackers w me)" and f: "frame_typed f"
    and broker: "broker_ok (the_broker w)" and order: "\<forall>xs. mset (set_order xs) = mset xs"
    and n: "0 < channel_number f"
    and run: "thenS (upsert_channel me (channel_number f)) (treat_channel_frame set_order me f) w = (r, w')"
  shows "tracker_ok (trackers w' me)"
    and "r = Inr () \<or> r = Inl ValueError \<and> 256 \<le> channel_number f \<and> is_method f CHANNEL_OPEN"
proof -
  obtain ch w1 where u: "upsert_channel me (channel_number f) w = (Inr (), w1)"
    and ch: "map_of (channels (trackers w1 me)) (channel_number f) = Some ch"
    and ok1: "tracker_ok (trackers w1 me)" and b: "the_broker w1 = the_broker w"
    using upsert_channel_run [OF ok] .
  from run u have run1: "treat_channel_frame set_order me f w1 = (r, w')" by (simp add: bindS_def)
  have "tracker_ok (trackers w' me) \<and>
    (r = Inr () \<or> r = Inl ValueError \<and> 256 \<le> channel_number f \<and> is_method f CHANNEL_OPEN)"
  proof (cases "channel_number f < 256")
    case True
    with n have "sendable_on (channel_number f)" by (simp add: sendable_on_def)
    from treat_channel_frame_runs [OF ch ok1 f this _ order] broker b run1 show ?thesis
      by (auto simp: returns_def split: sum.splits)
  next
    case False
    with treat_channel_frame_refused [OF ch ok1, of set_order] run1 ok1 show ?thesis
      by (auto simp: on_transport_def transport_close_def split: if_splits)
  qed
  then show "tracker_ok (trackers w' me)"
    and "r = Inr () \<or> r = Inl ValueError \<and> 256 \<le> channel_number f \<and> is_method f CHANNEL_OPEN"
    by simp_all
qed

lemma on_handshake_channels: "channels (trackers (snd (on_handshake me f w)) c) = channels (trackers w c)"
  by (simp add: on_handshake_def on_start_ok_def on_tune_ok_def on_open_def bindS_apply
      on_transport_apply check_start_ok_trackers set_parser_state_apply split: sum.split)

text \<open>The same for any frame, and for everything a connection receives.\<close>

lemma on_frame_cases:
  assumes "\<nexists>k. f = HeartBeat k"
  shows "on_frame set_order me f =
    (if channel_number f \<noteq> 0 then
       thenS (upsert_channel me (channel_number f))
      (thenS (treat_channel_frame set_order me f) (returnS True))
     else if is_method f CLOSE then
       thenS (on_transport me send_connection_close_ok)
      (thenS (on_transport me transport_close) (returnS False))
     else on_handshake me f)"
  using assms by (cases f) (simp_all add: on_frame_def)

lemma then_continue:
  "thenS m (thenS k (returnS True)) w = (r, w') \<Longrightarrow>
     \<exists>r0. thenS m k w = (r0, w') \<and> (r = Inr True \<and> r0 = Inr () \<or> (\<exists>e. r = Inl e \<and> r0 = Inl e))"
  by (auto simp: bindS_def split: prod.splits sum.splits)

definition frame_ok :: "frame \<Rightarrow> bool" where
  "frame_ok f \<longleftrightarrow> frame_typed f \<and> (case f of HeartBeat _ \<Rightarrow> True | _ \<Rightarrow> 0 \<le> channel_number f)"

lemma read_frame_ok: "read_frame d = Inr (Some f) \<Longrightarrow> frame_ok f"
  using read_frame_Some(4) [of d f] read_frame_channel(1) [of d f]
  by (cases f) (auto simp: frame_ok_def)

definition connection_ok :: "nat \<Rightarrow> world \<Rightarrow> bool" where
  "connection_ok me w \<longleftrightarrow> broker_ok (the_broker w) \<and> tracker_ok (trackers w me)"

lemma on_frame_ok:
  assumes ok: "connection_ok me w" and f: "frame_ok f" and order: "\<forall>xs. mset (set_order xs) = mset xs"
    and run: "on_frame set_order me f w = (r, w')"
  shows "connection_ok me w'"
    and "WAITING_TUNE_OK \<le> parser_state (trackers w me) \<Longrightarrow> r = Inl e \<Longrightarrow>
      e = ValueError \<and> 256 \<le> channel_number f \<and> is_method f CHANNEL_OPEN"
proof -
  have broker: "broker_ok (the_broker w')"
    using keepsD [OF ok.connected.keeps_on_frame, of w set_order me f] ok run
    by (simp add: connection_ok_def)
  have tr: "tracker_ok (trackers w me)" and b: "broker_ok (the_broker w)"
    using ok by (simp_all add: connection_ok_def)
  have "tracker_ok (trackers w' me) \<and>
    (WAITING_TUNE_OK \<le> parser_state (trackers w me) \<longrightarrow> r = Inl e \<longrightarrow>
      e = ValueError \<and> 256 \<le> channel_number f \<and> is_method f CHANNEL_OPEN)"
  proof (cases "\<exists>k. f = HeartBeat k")
    case True
    with run tr show ?thesis
      by (auto simp: on_frame_def bindS_apply on_transport_apply connection_sends_ok)
  next
    case False
    consider (channel) "channel_number f \<noteq> 0" | (close) "channel_number f = 0" "is_method f CLOSE"
      | (handshake) "channel_number f = 0" "\<not> is_method f CLOSE" by blast
    then show ?thesis
    proof cases
      case channel
      with False f have "0 < channel_number f" by (cases f) (auto simp: frame_ok_def)
      moreover from run channel False obtain r0 where
        r0: "thenS (upsert_channel me (channel_number f)) (treat_channel_frame set_order me f) w = (r0, w')"
        and "r = Inr True \<and> r0 = Inr () \<or> (\<exists>e. r = Inl e \<and> r0 = Inl e)"
        by (auto simp: on_frame_cases dest: then_continue)
      moreover have "frame_typed f" using f by (simp add: frame_ok_def)
      ultimately show ?thesis
        using channel_frame_result [OF tr _ b order _ r0] by auto
    next
      case close
      with run False tr show ?thesis
        by (auto simp: on_frame_cases bindS_apply on_transport_apply connection_sends_ok transport_close_def)
    next
      case handshake
      with run False have h: "on_handshake me f w = (r, w')" by (simp add: on_frame_cases)
      have "tracker_ok (trackers w' me)"
        using tr on_handshake_channels [of me f w me] h by (simp add: tracker_ok_def)
      moreover have "fst (on_handshake me f w) = Inl e \<Longrightarrow> WAITING_TUNE_OK \<le> parser_state (trackers w me) \<Longrightarrow> False"
        by (auto simp: on_handshake_def on_tune_ok_def on_open_def bindS_apply connection_state_order
            on_transport_apply connection_sends_ok transport_close_def set_parser_state_apply
            split: if_splits sum.splits)
      ultimately show ?thesis using h by auto
    qed
  qed
  with broker show "connection_ok me w'"
    and "WAITING_TUNE_OK \<le> parser_state (trackers w me) \<Longrightarrow> r = Inl e \<Longrightarrow>
      e = ValueError \<and> 256 \<le> channel_number f \<and> is_method f CHANNEL_OPEN"
    by (simp_all add: connection_ok_def)
qed

lemma take_frame_ok: "connection_ok me w \<Longrightarrow> connection_ok me (take_frame me f w)"
  by (simp add: connection_ok_def take_frame_def tracker_ok_def)

lemma serve_ok:
  assumes "connection_ok me w" and order: "\<forall>xs. mset (set_order xs) = mset xs"
  shows "connection_ok me (snd (serve set_order me w))"
  using assms(1)
proof (induction "length (buffer (trackers w me))" arbitrary: w rule: less_induct)
  case less
  have step: "read_frame (buffer (trackers w me)) = Inr (Some f) \<Longrightarrow>
    on_frame set_order me f (take_frame me f w) = (r', w') \<Longrightarrow> connection_ok me w'" for f r' w'
    using on_frame_ok(1) [OF take_frame_ok [OF less.prems] read_frame_ok order] .
  show ?case
  proof (cases rule: serve_cases [of set_order me w])
    case (again f w')
    with step less.hyps [of w'] show ?thesis by metis
  qed (use less.prems step in auto)
qed

lemma data_received_serves:
  "parser_state (trackers w me) \<noteq> WAITING_PROTOCOL_HEADER \<Longrightarrow>
     data_received set_order me data w = serve set_order me
       (w\<lparr>trackers := (trackers w)(me := (trackers w me)\<lparr>buffer := buffer (trackers w me) @ data\<rparr>)\<rparr>)"
  by (simp add: data_received_def bindS_apply)

lemma check_protocol_header_channels:
  "channels (trackers (snd (check_protocol_header me w)) c) = channels (trackers w c)"
  by (simp add: check_protocol_header_def bindS_apply on_transport_apply split: sum.split)

lemma data_received_ok:
  assumes ok: "connection_ok me w" and order: "\<forall>xs. mset (set_order xs) = mset xs"
  shows "connection_ok me (snd (data_received set_order me data w))"
proof (cases "parser_state (trackers w me) = WAITING_PROTOCOL_HEADER")
  case True
  have "channels (trackers (snd (data_received set_order me data w)) me) = channels (trackers w me)"
    using True by (simp add: data_received_def bindS_apply check_protocol_header_channels
        on_transport_apply set_parser_state_apply split: sum.split)
  then have "tracker_ok (trackers (snd (data_received set_order me data w)) me)"
    using ok by (simp add: connection_ok_def tracker_ok_def)
  with keepsD [OF ok.connected.keeps_data_received, of w set_order me data] ok show ?thesis
    by (simp add: connection_ok_def)
next
  case False
  have "connection_ok me (w\<lparr>trackers := (trackers w)(me :=
      (trackers w me)\<lparr>buffer := buffer (trackers w me) @ data\<rparr>)\<rparr>)"
    using ok by (simp add: connection_ok_def tracker_ok_def)
  from serve_ok [OF this order] False show ?thesis
    by (simp add: data_received_serves)
qed

end
