(* ===== verification/Contents.thy ===== *)
theory Contents
  imports Channels
begin

text \<open>
  Published messages: a publish, a content header and body frames on a channel become one message in
  the exchange and its queues, whatever the cut of the body; and the messages for which the
  assembly never ends.
\<close>

section \<open>A run of frames on one channel\<close>

definition channel_frame :: "(pystr list \<Rightarrow> pystr list) \<Rightarrow> nat \<Rightarrow> frame \<Rightarrow> (world, unit) eff" where
  \<comment> \<open>\<open>self._upsert_channel(frame_value.channel_number); self._treat_channel_frame(frame_value)\<close>\<close>
  "channel_frame set_order me f =
     thenS (upsert_channel me (channel_number f)) (treat_channel_frame set_order me f)"

fun treat_frames :: "(pystr list \<Rightarrow> pystr list) \<Rightarrow> nat \<Rightarrow> frame list \<Rightarrow> (world, unit) eff" where
  "treat_frames set_order me [] = returnS ()"
| "treat_frames set_order me (f # fs) =
     thenS (channel_frame set_order me f) (treat_frames set_order me fs)"

definition channel_at :: "world \<Rightarrow> nat \<Rightarrow> int \<Rightarrow> channel option" where
  "channel_at w me n = map_of (channels (trackers w me)) n"

lemma channel_at_update [simp]:
  "channel_at (w\<lparr>trackers := ts(me := t\<lparr>channels := AList.update n c cs\<rparr>)\<rparr>) me n = Some c"
  by (simp add: channel_at_def AList.update_conv')

lemma channel_at_other [simp]:
  "channel_at (w\<lparr>the_broker := b\<rparr>) = channel_at w" "channel_at (w\<lparr>transports := x\<rparr>) = channel_at w"
  by (simp_all add: channel_at_def fun_eq_iff)

lemma returns_returnS_fun [simp]: "returns (returnS x) Q = Q x"
  by (simp add: fun_eq_iff)

lemma returns_set_channel:
  "channel_at w me n = Some ch \<Longrightarrow>
     returns (set_channel me n f) Q w = Q () (w\<lparr>trackers := (trackers w)(me :=
       (trackers w me)\<lparr>channels := AList.update n (f ch) (channels (trackers w me))\<rparr>)\<rparr>)"
  and returns_get_channel: "channel_at w me n = Some ch \<Longrightarrow> returns (get_channel me n) Q' w = Q' ch w"
  by (simp_all add: channel_at_def returns_channel)

lemma upsert_known: "channel_at w me n = Some ch \<Longrightarrow> upsert_channel me n w = (Inr (), w)"
  by (simp add: channel_at_def upsert_channel_def)

lemma frame_on_known:
  "channel_at w me (channel_number f) = Some ch \<Longrightarrow>
     channel_frame set_order me f w = treat_channel_frame set_order me f w"
  by (simp add: channel_frame_def bindS_apply upsert_known)

lemma returns_frame:
  "channel_at w me (channel_number f) = Some ch \<Longrightarrow>
     returns (channel_frame set_order me f) Q w = returns (treat_channel_frame set_order me f) Q w"
  by (simp add: returns_def frame_on_known)

text \<open>What the assembly has to leave: everything outside the channel and the broker as it was.\<close>

definition leaves :: "nat \<Rightarrow> int \<Rightarrow> world \<Rightarrow> broker \<Rightarrow> channel \<Rightarrow> world \<Rightarrow> bool" where
  "leaves me n w b ch w' \<longleftrightarrow>
     the_broker w' = b \<and> transports w' = transports w \<and> channel_at w' me n = Some ch"

section \<open>Bodies\<close>

lemma body_part:
  assumes "channel_at w me n = Some ch" and "ch_state ch = CH_WAITING_BODY"
    and "ch_on_going ch = Some m" and "\<not> is_complete (add_content b m)"
  shows "returns (channel_frame set_order me (BodyFrame n sz b))
    (\<lambda>_. leaves me n w (the_broker w) (ch\<lparr>ch_on_going := Some (add_content b m)\<rparr>)) w"
  using assms
  by (simp add: returns_frame treat_channel_frame_def Let_def returns_get_channel returns_set_channel is_method_def
      on_waiting_body_def the_key_def leaves_def)

lemma body_last:
  assumes "channel_at w me n = Some ch" and "ch_state ch = CH_WAITING_BODY"
    and "ch_on_going ch = Some m" and "is_complete (add_content b m)"
    and "ch_exchange ch = Some e" and "properties (headers m) = Inr props"
    and "store_message set_order e (PDict props) (PBytes (msg_content m @ b)) (the_broker w) = (Inr True, b')"
  shows "returns (channel_frame set_order me (BodyFrame n sz b))
    (\<lambda>_. leaves me n w b' (ch\<lparr>ch_on_going := None, ch_state := CH_OPENED\<rparr>)) w"
proof -
  have c: "msg_content (add_content b m) = msg_content m @ b" by (simp add: add_content_def)
  have s: "returns (store_message set_order e (PDict props) (PBytes (msg_content m @ b))) Q (the_broker w)
    = Q True b'" for Q
    using assms(7) by (simp add: returns_def)
  show ?thesis
    using assms(1-6)
    by (simp add: returns_frame treat_channel_frame_def Let_def returns_get_channel returns_set_channel is_method_def
        on_waiting_body_def the_key_def leaves_def c s returns_world)
qed

lemma bodies_assemble:
  assumes "bs \<noteq> []" and "snd (last bs) \<noteq> []"
    and "body_size (headers m) = int (length (msg_content m @ concat (map snd bs)))"
    and "channel_at w me n = Some ch" and "ch_state ch = CH_WAITING_BODY"
    and "ch_on_going ch = Some m" and "ch_exchange ch = Some e"
    and "properties (headers m) = Inr props"
    and "store_message set_order e (PDict props) (PBytes (msg_content m @ concat (map snd bs)))
      (the_broker w) = (Inr True, b')"
  shows "returns (treat_frames set_order me (map (\<lambda>(sz, b). BodyFrame n sz b) bs))
    (\<lambda>_. leaves me n w b' (ch\<lparr>ch_on_going := None, ch_state := CH_OPENED\<rparr>)) w"
  using assms
proof (induction bs arbitrary: m w ch)
  case Nil
  then show ?case by simp
next
  case (Cons x bs)
  obtain sz b where x: "x = (sz, b)" by (cases x)
  show ?case
  proof (cases "bs = []")
    case True
    with Cons.prems have "is_complete (add_content b m)"
      by (simp add: is_complete_def x) (simp add: add_content_def)
    from body_last [OF Cons.prems(4-6) this Cons.prems(7,8), of set_order b' sz] Cons.prems(9) True
    show ?thesis by (simp add: x)
  next
    case False
    with Cons.prems(2) have "0 < length (concat (map snd bs))"
      by (auto intro: last_in_set)
    with Cons.prems(3) have "\<not> is_complete (add_content b m)"
      by (simp add: is_complete_def x) (simp add: add_content_def)
    note first = body_part [OF Cons.prems(4-6) this, of set_order sz]
    let ?m = "add_content b m" and ?ch = "ch\<lparr>ch_on_going := Some (add_content b m)\<rparr>"
    have rest: "returns (treat_frames set_order me (map (\<lambda>(sz, b). BodyFrame n sz b) bs))
        (\<lambda>_. leaves me n w1 b' (?ch\<lparr>ch_on_going := None, ch_state := CH_OPENED\<rparr>)) w1"
      if "leaves me n w (the_broker w) ?ch w1" for w1
      by (rule Cons.IH [of ?m w1 ?ch])
        (use that Cons.prems False in \<open>simp_all add: leaves_def x\<close>, simp_all add: add_content_def)
    show ?thesis
      unfolding x list.map prod.case treat_frames.simps returns_simps
    proof (rule returns_mono [OF first])
      fix w1 assume l: "leaves me n w (the_broker w) ?ch w1"
      from rest [OF l] show "returns (treat_frames set_order me (map (\<lambda>(sz, b). BodyFrame n sz b) bs))
        (\<lambda>_. leaves me n w b' (ch\<lparr>ch_on_going := None, ch_state := CH_OPENED\<rparr>)) w1"
        by (rule returns_mono) (use l in \<open>auto simp: leaves_def\<close>)
    qed
  qed
qed

section \<open>A whole message\<close>

lemma header_step:
  assumes "channel_at w me n = Some ch" and "ch_state ch = CH_WAITING_HEADER"
  shows "returns (channel_frame set_order me (HeaderFrame n sz cid len props))
    (\<lambda>_. leaves me n w (the_broker w)
       (ch\<lparr>ch_on_going := Some (new_message (HeaderFrame n sz cid len props)),
           ch_state := CH_WAITING_BODY\<rparr>)) w"
  using assms
  by (simp add: returns_frame treat_channel_frame_def Let_def returns_get_channel returns_set_channel is_method_def
      on_waiting_header_def on_waiting_body_def leaves_def)

lemma publish_step:
  assumes "channel_at w me n = Some ch" and "ch_state ch = CH_OPENED"
    and "get_str d ''exchange-name'' = Inr e" and "get_str d ''routing-key'' = Inr k"
  shows "returns (channel_frame set_order me (MethodFrame n sz (id_of BASIC_PUBLISH) d))
    (\<lambda>_. leaves me n w (the_broker w)
       (ch\<lparr>ch_state := CH_WAITING_HEADER, ch_exchange := Some e, ch_routing_key := Some k\<rparr>)) w"
  using assms
  by (simp add: returns_frame treat_channel_frame_def Let_def returns_get_channel returns_set_channel is_method_def
      on_opened_def on_basic_publish_def returns_prop [OF refl] leaves_def)

lemma leaves_trans:
  "leaves me n w b1 ch1 w1 \<Longrightarrow> leaves me n w1 b ch w' \<Longrightarrow> leaves me n w b ch w'"
  by (simp add: leaves_def)

definition publication ::
  "int \<Rightarrow> nat \<Rightarrow> nat \<Rightarrow> pydict \<Rightarrow> pydict \<Rightarrow> (nat \<times> bytes) list \<Rightarrow> frame list" where
  \<comment> \<open>the frames of one publish: the method, the header with the length of the whole body, the bodies\<close>
  "publication n szm szh d props bodies =
     MethodFrame n szm (id_of BASIC_PUBLISH) d
     # HeaderFrame n szh 60 (int (length (concat (map snd bodies)))) props
     # map (\<lambda>(sz, b). BodyFrame n sz b) bodies"

lemma publication_stored:
  assumes "channel_at w me n = Some ch" and "ch_state ch = CH_OPENED"
    and "get_str d ''exchange-name'' = Inr e" and "get_str d ''routing-key'' = Inr k"
    and "bodies \<noteq> []" and "snd (last bodies) \<noteq> []"
    and "store_message set_order e (PDict props) (PBytes (concat (map snd bodies))) (the_broker w)
      = (Inr True, b')"
  shows "returns (treat_frames set_order me (publication n szm szh d props bodies))
    (\<lambda>_. leaves me n w b' (ch\<lparr>ch_exchange := Some e,
        ch_routing_key := Some k, ch_on_going := None, ch_state := CH_OPENED\<rparr>)) w"
  unfolding publication_def treat_frames.simps returns_simps
proof (rule returns_mono [OF publish_step [OF assms(1-4)]])
  let ?h = "HeaderFrame n szh 60 (int (length (concat (map snd bodies)))) props"
  let ?ch1 = "ch\<lparr>ch_state := CH_WAITING_HEADER, ch_exchange := Some e, ch_routing_key := Some k\<rparr>"
  let ?ch2 = "?ch1\<lparr>ch_on_going := Some (new_message ?h), ch_state := CH_WAITING_BODY\<rparr>"
  fix w1 assume l1: "leaves me n w (the_broker w) ?ch1 w1"
  then have at: "channel_at w1 me n = Some ?ch1" by (simp add: leaves_def)
  show "returns (channel_frame set_order me ?h) (\<lambda>x. returns (treat_frames set_order me
      (map (\<lambda>(sz, b). BodyFrame n sz b) bodies)) (\<lambda>_. leaves me n w b' (ch\<lparr>ch_exchange := Some e,
        ch_routing_key := Some k, ch_on_going := None, ch_state := CH_OPENED\<rparr>))) w1"
  proof (rule returns_mono [OF header_step [OF at]])
    fix w2 assume l2: "leaves me n w1 (the_broker w1) ?ch2 w2"
    have "returns (treat_frames set_order me (map (\<lambda>(sz, b). BodyFrame n sz b) bodies))
      (\<lambda>_. leaves me n w2 b' (?ch2\<lparr>ch_on_going := None, ch_state := CH_OPENED\<rparr>)) w2"
      by (rule bodies_assemble [where m = "new_message ?h"])
        (use assms(5-7) l1 l2 in \<open>simp_all add: leaves_def new_message_def\<close>)
    then show "returns (treat_frames set_order me (map (\<lambda>(sz, b). BodyFrame n sz b) bodies))
      (\<lambda>_. leaves me n w b' (ch\<lparr>ch_exchange := Some e,
        ch_routing_key := Some k, ch_on_going := None, ch_state := CH_OPENED\<rparr>)) w2"
      by (rule returns_mono) (use leaves_trans [OF leaves_trans [OF l1 l2]] in auto)
  qed simp
qed

section \<open>Messages that never end\<close>

text \<open>
  The length is compared for equality, after a body frame only. So a body that is longer than
  announced never completes, and neither does a message announced with no body at all: AMQP sends no
  body frame for it. Until its channel is closed, every frame on it is taken for another body or
  ignored.
\<close>

definition overrun :: "channel \<Rightarrow> bool" where
  "overrun ch \<longleftrightarrow> ch_state ch = CH_WAITING_BODY
     \<and> (case ch_on_going ch of None \<Rightarrow> False
        | Some m \<Rightarrow> body_size (headers m) < int (length (msg_content m)))"

lemma overrun_step:
  assumes "channel_at w me (channel_number f) = Some ch" and "overrun ch"
    and "\<not> is_method f CHANNEL_CLOSE"
  shows "returns (channel_frame set_order me f)
    (\<lambda>_ w'. \<exists>ch'. overrun ch' \<and> leaves me (channel_number f) w (the_broker w) ch' w') w"
proof -
  obtain m where m: "ch_state ch = CH_WAITING_BODY" "ch_on_going ch = Some m"
    "body_size (headers m) < int (length (msg_content m))"
    using assms(2) by (auto simp: overrun_def split: option.splits)
  show ?thesis
  proof (cases "is_body f")
    case True
    then obtain sz b where f: "f = BodyFrame (channel_number f) sz b" by (cases f) simp_all
    have "\<not> is_complete (add_content b m)" using m(3) by (simp add: is_complete_def) (simp add: add_content_def)
    from body_part [OF assms(1) m(1,2) this, of set_order sz] f
    have "returns (channel_frame set_order me f) (\<lambda>_. leaves me (channel_number f) w (the_broker w)
      (ch\<lparr>ch_on_going := Some (add_content b m)\<rparr>)) w" by metis
    moreover have "overrun (ch\<lparr>ch_on_going := Some (add_content b m)\<rparr>)"
      using m by (simp add: overrun_def) (simp add: add_content_def)
    ultimately show ?thesis by (auto intro: returns_mono)
  next
    case False
    with m assms show ?thesis
      by (auto simp: returns_frame treat_channel_frame_def Let_def returns_get_channel on_waiting_body_def leaves_def)
  qed
qed

lemma overrun_forever:
  assumes "channel_at w me n = Some ch" and "overrun ch"
    and "\<forall>f\<in>set fs. channel_number f = n \<and> \<not> is_method f CHANNEL_CLOSE"
  shows "returns (treat_frames set_order me fs)
    (\<lambda>_ w'. \<exists>ch'. overrun ch' \<and> leaves me n w (the_broker w) ch' w') w"
  using assms
proof (induction fs arbitrary: w ch)
  case Nil
  then show ?case unfolding treat_frames.simps returns_simps by (auto simp: leaves_def)
next
  case (Cons f fs)
  then have n: "channel_number f = n" by simp
  show ?case
    unfolding treat_frames.simps returns_simps
  proof (rule returns_mono [OF overrun_step [where ch = ch]])
    fix w1 assume "\<exists>ch'. overrun ch' \<and> leaves me (channel_number f) w (the_broker w) ch' w1"
    then obtain ch1 where o: "overrun ch1" and l: "leaves me n w (the_broker w) ch1 w1"
      using n by auto
    then have "channel_at w1 me n = Some ch1" by (simp add: leaves_def)
    from Cons.IH [OF this o] Cons.prems(3)
    have "returns (treat_frames set_order me fs)
      (\<lambda>_ w'. \<exists>ch'. overrun ch' \<and> leaves me n w1 (the_broker w1) ch' w') w1" by simp
    then show "returns (treat_frames set_order me fs)
      (\<lambda>_ w'. \<exists>ch'. overrun ch' \<and> leaves me n w (the_broker w) ch' w') w1"
      by (rule returns_mono) (use l in \<open>auto simp: leaves_def\<close>)
  qed (use Cons.prems n in auto)
qed

lemma waiting_ignores:
  assumes "channel_at w me n = Some ch" and "ch_state ch = CH_WAITING_BODY"
    and "channel_number f = n" and "\<not> is_body f" and "\<not> is_method f CHANNEL_CLOSE"
  shows "channel_frame set_order me f w = (Inr (), w)"
  using assms
  by (simp add: frame_on_known) (simp add: treat_channel_frame_def Let_def channel_at_def get_channel_def
      bindS_apply on_waiting_body_def)

lemma treat_frames_append:
  "treat_frames set_order me (fs @ gs) = thenS (treat_frames set_order me fs) (treat_frames set_order me gs)"
proof (induction fs)
  case Nil
  then show ?case by (simp add: fun_eq_iff bindS_apply)
next
  case (Cons f fs)
  then show ?case by (auto simp: fun_eq_iff bindS_apply split: sum.split)
qed

lemma empty_publication:
  assumes "channel_at w me n = Some ch" and "ch_state ch = CH_OPENED"
    and "get_str d ''exchange-name'' = Inr e" and "get_str d ''routing-key'' = Inr k"
  shows "returns (treat_frames set_order me (publication n szm szh d props []))
    (\<lambda>_. leaves me n w (the_broker w) (ch\<lparr>ch_state := CH_WAITING_BODY, ch_exchange := Some e,
      ch_routing_key := Some k, ch_on_going := Some (new_message (HeaderFrame n szh 60 0 props))\<rparr>)) w"
  using assms
  by (simp add: publication_def returns_frame treat_channel_frame_def Let_def returns_get_channel returns_set_channel
      is_method_def on_opened_def on_basic_publish_def returns_prop [OF refl] on_waiting_header_def
      on_waiting_body_def leaves_def)

lemma next_publication_lost:
  assumes at: "channel_at w me n = Some ch" and st: "ch_state ch = CH_WAITING_BODY"
    and m: "ch_on_going ch = Some (new_message (HeaderFrame n sz0 60 0 props0))"
    and b: "bodies \<noteq> []" "\<forall>x\<in>set bodies. snd x \<noteq> []"
  shows "returns (treat_frames set_order me (publication n szm szh d props bodies))
    (\<lambda>_ w'. \<exists>ch'. overrun ch' \<and> leaves me n w (the_broker w) ch' w') w"
proof -
  obtain sz x bodies' where bodies: "bodies = (sz, x) # bodies'" and x: "x \<noteq> []"
    using b by (cases bodies) auto
  let ?m = "new_message (HeaderFrame n sz0 60 0 props0)"
  have "\<not> is_complete (add_content x ?m)" using x by (simp add: is_complete_def add_content_def new_message_def)
  note first = body_part [OF at st m this, of set_order sz]
  let ?ch = "ch\<lparr>ch_on_going := Some (add_content x ?m)\<rparr>"
  have o: "overrun ?ch" using x st by (simp add: overrun_def add_content_def new_message_def)
  have skip: "channel_frame set_order me f w = (Inr (), w)"
    if "channel_number f = n" "\<not> is_body f" "\<not> is_method f CHANNEL_CLOSE" for f
    using waiting_ignores [OF at st that] .
  have skips: "returns (channel_frame set_order me (MethodFrame n szm (id_of BASIC_PUBLISH) d)) Q w = Q () w"
    "returns (channel_frame set_order me (HeaderFrame n szh 60 len props)) Q w = Q () w" for Q len
    by (rule returns_fst [THEN trans]; simp add: skip is_method_def)+
  show ?thesis
    unfolding publication_def bodies list.map prod.case treat_frames.simps returns_simps skips
  proof (rule returns_mono [OF first])
    fix w1 assume l: "leaves me n w (the_broker w) ?ch w1"
    then have "channel_at w1 me n = Some ?ch" by (simp add: leaves_def)
    then have "returns (treat_frames set_order me (map (\<lambda>(sz, b). BodyFrame n sz b) bodies'))
      (\<lambda>_ w'. \<exists>ch'. overrun ch' \<and> leaves me n w1 (the_broker w1) ch' w') w1"
      by (rule overrun_forever [OF _ o]) (auto simp: is_method_def)
    then show "returns (treat_frames set_order me (map (\<lambda>(sz, b). BodyFrame n sz b) bodies'))
      (\<lambda>_ w'. \<exists>ch'. overrun ch' \<and> leaves me n w (the_broker w) ch' w') w1"
      by (rule returns_mono) (use l in \<open>auto simp: leaves_def\<close>)
  qed
qed

end
