(* ===== verification/Chunks.thy ===== *)
theory Chunks
  imports Channels
begin

text \<open>
  What the handlers do not look at. Frames are handled alike whatever follows them in the buffer, so
  how the bytes of a connection are cut into pieces does not matter; and frames on a channel are
  handled alike in every state of the handshake.
\<close>

section \<open>Changes of a tracker that the handlers do not see\<close>

definition change :: "nat \<Rightarrow> (tracker \<Rightarrow> tracker) \<Rightarrow> world \<Rightarrow> world" where
  "change me h w = w\<lparr>trackers := (trackers w)(me := h (trackers w me))\<rparr>"

locale channel_blind =
  fixes h :: "tracker \<Rightarrow> tracker"
  assumes same_channels: "channels (h t) = channels t"
    and channels_commute: "h (t\<lparr>channels := c\<rparr>) = (h t)\<lparr>channels := c\<rparr>"
begin

lemma commutes_on_broker: "commutes (change me h) (on_broker m)"
  and commutes_on_transport: "commutes (change me h) (on_transport c m')"
  by (simp_all add: commutes_def change_def on_broker_def on_transport_def split: prod.split)

lemma commutes_channels:
  "(\<And>t. g (h t) = g t) \<Longrightarrow> commutes (change me h) (set_tracker me (\<lambda>t. t\<lparr>channels := g t\<rparr>))"
  by (simp add: commutes_def change_def channels_commute)

lemma commutes_channel_ops:
  "commutes (change me h) (upsert_channel me n)"
  "commutes (change me h) (set_channel me n f)"
  "commutes (change me h) (del_channel me n)"
  unfolding channel_updates del_channel_def
  by (rule commutes_channels, simp add: same_channels cong: option.case_cong)+

lemma commutes_reads:
  "commutes (change me h) (get_channel me n)" "commutes (change me h) (str_prop f key)"
  "commutes (change me h) (int_prop f key)" "commutes (change me h) (bool_prop f key)"
  "commutes (change me h) (the_key v)"
  by (simp_all add: commutes_def change_def get_channel_def same_channels str_prop_def int_prop_def
      bool_prop_def the_key_def split: option.split)

lemmas commutes_steps = commutes_on_broker commutes_on_transport commutes_channel_ops commutes_reads

lemma commutes_on_opened: "commutes (change me h) (on_opened me n f)"
  unfolding on_opened_def on_exchange_declare_def on_queue_declare_def on_queue_bind_def
    on_basic_publish_def on_basic_consume_def on_basic_ack_def on_basic_nack_def on_basic_cancel_def
  by (intro commutes_rules commutes_steps)

lemma commutes_on_waiting_body: "commutes (change me h) (on_waiting_body set_order me n f)"
  unfolding on_waiting_body_def by (intro commutes_rules commutes_steps)

lemma commutes_treat_channel_frame: "commutes (change me h) (treat_channel_frame set_order me f)"
  unfolding treat_channel_frame_def on_channel_open_def on_channel_close_def on_waiting_header_def
  by (intro commutes_rules commutes_steps commutes_on_opened commutes_on_waiting_body)

lemma commutes_channel_frame:
  assumes "\<nexists>k. f = HeartBeat k" and "channel_number f \<noteq> 0"
  shows "commutes (change me h) (on_frame set_order me f)"
  unfolding on_frame_cases [OF assms(1)] using assms(2)
  by (simp add: commutes_rules commutes_steps commutes_treat_channel_frame)

end

text \<open>A change that leaves the parser state alone as well is invisible to every handler.\<close>

locale frame_blind = channel_blind +
  assumes same_state: "parser_state (h t) = parser_state t"
    and state_commutes: "h (t\<lparr>parser_state := s\<rparr>) = (h t)\<lparr>parser_state := s\<rparr>"
begin

lemma commutes_set_parser_state: "commutes (change me h) (set_parser_state me s)"
  by (simp add: commutes_def change_def set_parser_state_apply state_commutes)

lemma commutes_check_start_ok: "commutes (change me h) (check_start_ok f)"
  unfolding check_start_ok_def by (intro commutes_rules commutes_steps)

lemma commutes_on_handshake: "commutes (change me h) (on_handshake me f)"
  unfolding on_handshake_def on_start_ok_def on_tune_ok_def on_open_def
  by (intro commutes_rules commutes_steps commutes_set_parser_state commutes_check_start_ok commutes_getS)
    (simp add: change_def same_state)

lemma commutes_on_frame: "commutes (change me h) (on_frame set_order me f)"
proof (cases "\<exists>k. f = HeartBeat k")
  case True
  then show ?thesis
    by (auto simp: on_frame_def intro!: commutes_rules commutes_steps)
next
  case False
  then show ?thesis
    unfolding on_frame_cases [OF False]
    by (intro commutes_rules commutes_steps commutes_treat_channel_frame commutes_on_handshake)
qed

end

interpretation appended: frame_blind "\<lambda>t. t\<lparr>buffer := buffer t @ x\<rparr>"
  by unfold_locales simp_all

interpretation restated: channel_blind "\<lambda>t. t\<lparr>parser_state := s\<rparr>"
  by unfold_locales simp_all

section \<open>Cutting the input\<close>

definition more :: "nat \<Rightarrow> bytes \<Rightarrow> world \<Rightarrow> world" where
  "more me x = change me (\<lambda>t. t\<lparr>buffer := buffer t @ x\<rparr>)"

lemma buffer_more [simp]: "buffer (trackers (more me x w) me) = buffer (trackers w me) @ x"
  by (simp add: more_def change_def)

lemma on_frame_more: "on_frame set_order me f (more me x w) =
    (fst (on_frame set_order me f w), more me x (snd (on_frame set_order me f w)))"
  unfolding more_def by (rule commutesD [OF appended.commutes_on_frame])

lemma take_frame_more:
  "frame_size f \<le> length (buffer (trackers w me)) \<Longrightarrow>
     take_frame me f (more me x w) = more me x (take_frame me f w)"
  by (simp add: take_frame_def more_def change_def)

text \<open>A handler that ends the loop after the start of the handshake has closed the transport.\<close>

lemma stop_closes:
  assumes "on_frame set_order me f w = (Inr False, w')"
    and "WAITING_TUNE_OK \<le> parser_state (trackers w me)"
  shows "is_closing (transports w' me)"
proof (cases "\<exists>k. f = HeartBeat k")
  case True
  with assms(1) show ?thesis
    by (auto simp: on_frame_def bindS_apply on_transport_apply connection_sends_ok)
next
  case False
  with assms show ?thesis
    by (auto simp: on_frame_cases bindS_apply on_transport_apply transport_close_def
        connection_sends_ok on_handshake_def on_tune_ok_def on_open_def connection_state_order
        split: if_splits sum.splits)
qed

lemma serve_more:
  assumes "serve set_order me w = (Inr (), w1)" and "\<not> is_closing (transports w1 me)"
    and "\<not> complete_frame (buffer (trackers w1 me))"
    and "WAITING_TUNE_OK \<le> parser_state (trackers w me)"
  shows "serve set_order me (more me x w) = serve set_order me (more me x w1)"
  using assms(1,4)
proof (induction "length (buffer (trackers w me))" arbitrary: w rule: less_induct)
  case less
  have st: "WAITING_TUNE_OK \<le> parser_state (trackers (take_frame me f w) me)" for f
    using less.prems(2) by (simp add: take_frame_def)
  show ?case
  proof (cases rule: serve_cases [of set_order me w])
    case (idle r)
    with less.prems show ?thesis by simp
  next
    case (final f r' w')
    with less.prems(1) have "r' = Inr False" "w1 = w'" by (auto split: sum.splits)
    with stop_closes [OF _ st] final(2) assms(2) show ?thesis by blast
  next
    case (again f w')
    have "WAITING_TUNE_OK \<le> parser_state (trackers w' me)"
      using keepsD [OF forward.keeps_on_frame st [of f], of set_order f] again(2) by simp
    with less.hyps [OF again(3)] less.prems(1) again(4)
    have ih: "serve set_order me (more me x w') = serve set_order me (more me x w1)" by simp
    from read_frame_Some(1,3) [OF again(1)] have c: "complete_frame (buffer (trackers w me))"
      and sz: "frame_size f \<le> length (buffer (trackers w me))" by simp_all
    from complete_frame_append(2) [OF c] again(1)
    have rf: "read_frame (buffer (trackers w me) @ x) = Inr (Some f)" by simp
    from c have "buffer (trackers w me) \<noteq> []" by (auto simp: complete_frame_def frame_length_def frame_head_def unpack_BHL_def split: option.splits)
    then have "serve set_order me (more me x w) = serve set_order me (more me x w')"
      by (subst serve.simps) (simp add: rf take_frame_more [OF sz] on_frame_more again(2))
    with ih show ?thesis by simp
  qed
qed

lemma data_received_more:
  assumes "parser_state (trackers w me) \<noteq> WAITING_PROTOCOL_HEADER"
  shows "data_received set_order me data w = serve set_order me (more me data w)"
  using data_received_serves [OF assms] by (simp add: more_def change_def)

end
