(* ===== verification/Streams.thy ===== *)
theory Streams
  imports Contents Chunks
begin

text \<open>
  From the bytes of a connection to the frames that are treated: a buffer that holds the bytes of
  some frames is served by treating these frames one after the other.
\<close>

definition reads_as :: "bytes \<Rightarrow> frame \<Rightarrow> bool" where
  \<comment> \<open>the bytes are those of one frame, with nothing behind it\<close>
  "reads_as bs f \<longleftrightarrow> read_frame bs = Inr (Some f) \<and> frame_size f = length bs"

lemma reads_as_append: "reads_as bs f \<Longrightarrow> read_frame (bs @ x) = Inr (Some f)"
  using complete_frame_append(2) [of bs x] read_frame_Some(1) [of bs f] by (simp add: reads_as_def)

lemma reads_as_nonempty: "reads_as bs f \<Longrightarrow> bs \<noteq> []"
  using read_frame_Some(2) [of bs f] by (auto simp: reads_as_def)

lemma reads_as_frame_bytes:
  assumes "0 \<le> ty" "ty < 2 ^ 8" "0 \<le> ch" "ch < 2 ^ 16" "int (length payload) < 2 ^ 32"
    and "build_frame ty ch (8 + length payload) payload = Inr (Some f)"
  shows "reads_as (frame_bytes ty ch payload) f"
proof -
  have "read_frame (frame_bytes ty ch payload) = Inr (Some f)"
    using read_frame_bytes [OF assms(1-5), of "[]"] assms(6) by simp
  moreover have "frame_size f = 8 + length payload" by (rule build_frame_size [OF assms(6)])
  ultimately show ?thesis by (simp add: reads_as_def frame_bytes_def)
qed

section \<open>One frame after the other\<close>

lemma serve_frame:
  assumes "reads_as bs f" and "buffer (trackers w me) = []"
    and "on_frame set_order me f w = (r, w1)"
  shows "serve set_order me (more me (bs @ x) w) =
    (case r of Inl e \<Rightarrow> (Inl e, more me x w1)
     | Inr go_on \<Rightarrow> if go_on then serve set_order me (more me x w1) else (Inr (), more me x w1))"
proof -
  have "take_frame me f (more me (bs @ x) w) = more me x w"
    using assms(1,2) by (simp add: reads_as_def take_frame_def more_def change_def)
  with assms show ?thesis
    by (subst serve.simps)
      (simp add: reads_as_append reads_as_nonempty on_frame_more split: sum.split bool.split)
qed

lemma on_channel_frame:
  assumes "\<nexists>k. f = HeartBeat k" and "channel_number f \<noteq> 0"
    and "channel_frame set_order me f w = (Inr (), w1)"
  shows "on_frame set_order me f w = (Inr True, w1)"
  using assms(3) unfolding channel_frame_def on_frame_cases [OF assms(1)]
  by (auto simp: assms(2) bindS_def split: prod.splits sum.splits)

lemma serve_channel_frames:
  assumes "list_all2 reads_as bss fs" and "\<forall>f\<in>set fs. (\<nexists>k. f = HeartBeat k) \<and> channel_number f \<noteq> 0"
    and "buffer (trackers w me) = []" and "treat_frames set_order me fs w = (Inr (), w')"
  shows "serve set_order me (more me (concat bss @ x) w) = serve set_order me (more me x w')"
  using assms
proof (induction fs arbitrary: bss w rule: list.induct)
  case Nil
  from Nil.prems(1) have "bss = []" by simp
  with Nil.prems(4) show ?case by simp
next
  case (Cons f fs)
  from Cons.prems(1) obtain b bs where bss: "bss = b # bs" and b: "reads_as b f"
    and bs: "list_all2 reads_as bs fs" by (auto simp: list_all2_Cons2)
  from Cons.prems(4) obtain w1 where "channel_frame set_order me f w = (Inr (), w1)"
    and rest: "treat_frames set_order me fs w1 = (Inr (), w')"
    by (auto elim!: bindS_InrE)
  then have f: "on_frame set_order me f w = (Inr True, w1)"
    using Cons.prems(2) on_channel_frame by simp
  have "buffer (trackers w1 me) = []"
    using on_frame_buffer [of set_order me f w] f Cons.prems(3) by simp
  from Cons.IH [OF bs _ this rest] Cons.prems(2) serve_frame [OF b Cons.prems(3) f]
  show ?case by (simp add: bss)
qed

lemma serve_nothing: "buffer (trackers w me) = [] \<Longrightarrow> serve set_order me w = (Inr (), w)"
  by (subst serve.simps) simp

lemma more_nothing [simp]: "more me [] w = w"
  by (simp add: more_def change_def)

lemma more_more: "more me y (more me x w) = more me (x @ y) w"
  by (simp add: more_def change_def)

lemma treat_frames_buffer:
  assumes "treat_frames set_order me fs w = (Inr (), w')"
    and "\<forall>f\<in>set fs. (\<nexists>k. f = HeartBeat k) \<and> channel_number f \<noteq> 0"
  shows "buffer (trackers w' me) = buffer (trackers w me)"
  using assms
proof (induction fs arbitrary: w)
  case Nil
  then show ?case by simp
next
  case (Cons f fs)
  from Cons.prems(1) obtain w1 where "channel_frame set_order me f w = (Inr (), w1)"
    and rest: "treat_frames set_order me fs w1 = (Inr (), w')"
    by (auto elim!: bindS_InrE)
  then have "on_frame set_order me f w = (Inr True, w1)"
    using Cons.prems(2) on_channel_frame by simp
  with on_frame_buffer [of set_order me f w] Cons.IH [OF rest] Cons.prems(2) show ?case by simp
qed

text \<open>The frames of a stream that arrives as a whole are all treated, and nothing is left.\<close>

lemma data_received_frames:
  assumes "list_all2 reads_as bss fs" and "\<forall>f\<in>set fs. (\<nexists>k. f = HeartBeat k) \<and> channel_number f \<noteq> 0"
    and "buffer (trackers w me) = []" and "parser_state (trackers w me) \<noteq> WAITING_PROTOCOL_HEADER"
    and "treat_frames set_order me fs w = (Inr (), w')"
  shows "data_received set_order me (concat bss) w = (Inr (), w')"
proof -
  have "buffer (trackers w' me) = []" using treat_frames_buffer [OF assms(5,2)] assms(3) by simp
  with serve_channel_frames [OF assms(1-3,5), of "[]"] assms(4) show ?thesis
    by (simp add: data_received_more serve_nothing)
qed

section \<open>The frames of a publication\<close>

lemma publication_frames:
  "n \<noteq> 0 \<Longrightarrow> \<forall>f\<in>set (publication n sz1 sz2 d props bodies). (\<nexists>k. f = HeartBeat k) \<and> channel_number f \<noteq> 0"
  by (auto simp: publication_def)

end
