(* ===== verification/Handshake.thy ===== *)
theory Handshake
  imports Streams
begin

text \<open>
  The handshake of a connection: that its first reply can always be written, that nobody gets past
  \<open>start-ok\<close> without credentials, and that a client which follows the protocol gets through.
\<close>

section \<open>The first reply\<close>

definition ascii :: "string \<Rightarrow> bool" where
  "ascii s \<longleftrightarrow> list_all (\<lambda>c. of_char c < (128 :: nat)) s"

lemma utf8_encode_lit: "ascii s \<Longrightarrow> utf8_encode sp (lit s) = Inr (map tag s)"
  by (induction s)
    (simp_all add: ascii_def lit_def valid_cp_def is_surrogate_def utf8_encode_cp_def byte_of_def tag_def)

lemma write_text:
  "ascii s \<Longrightarrow> length s < 2 ^ 32 \<Longrightarrow>
     write_item (PStr (lit s)) = Inr (tag CHR ''S'' # be_bytes 4 (int (length s)) @ map tag s)"
  "ascii s \<Longrightarrow> length s < 2 ^ 32 \<Longrightarrow>
     write_str pack_I (PStr (lit s)) = Inr (be_bytes 4 (int (length s)) @ map tag s)"
  "ascii s \<Longrightarrow> length s < 256 \<Longrightarrow>
     write_str pack_B (PStr (lit s)) = Inr (be_bytes 1 (int (length s)) @ map tag s)"
  by (simp_all add: str_to_bytes_def utf8_encode_lit with_length_def pack_I_def pack_B_def pack_u_def write_str_PStr
      del: be_bytes.simps)

lemma write_pair_text:
  "ascii k \<Longrightarrow> length k < 256 \<Longrightarrow> write_pairs ((lit k, v) # d) =
     bindE (value_error_as_syntax (write_item v)) (\<lambda>b.
     bindE (write_pairs d) (\<lambda>r. Inr (be_bytes 1 (int (length k)) @ map tag k @ b @ r)))"
  by (simp add: str_to_bytes_def utf8_encode_lit pack_B_def pack_u_def del: be_bytes.simps)

lemma peer_properties_written:
  "\<exists>b. write_table peer_properties = Inr b \<and> length b \<le> 459"
  by (simp add: peer_properties_def write_table_def write_pair_text write_text ascii_def with_length_def
      pack_I_def pack_B_def pack_u_def value_error_as_syntax_def
      del: be_bytes.simps write_item.simps(1) write_pairs.simps(2))

lemma dumps_start:
  obtains b where "dumps ''ooFSS''
    [PInt 0, PInt 9, PDict peer_properties, PStr (lit ''PLAIN AMQPLAIN''), PStr (lit ''en_US'')] = Inr b"
    and "length b \<le> 600"
proof -
  obtain t where t: "write_table peer_properties = Inr t" "length t \<le> 459"
    using peer_properties_written by blast
  have "peer_properties \<noteq> []" by (simp add: peer_properties_def)
  then have o: "or_else (PDict peer_properties) (PDict []) = PDict peer_properties" by (simp add: or_else_def)
  show ?thesis
    using that t by (simp add: dumps_def dumps_field_def o write_text ascii_def pack_B_def pack_u_def
        emit_def flushbits_def del: be_bytes.simps)
qed

lemma send_connection_start_ok: "fst (send_connection_start t) = Inr ()"
proof -
  obtain b where b: "dumps ''ooFSS''
    [PInt 0, PInt 9, PDict peer_properties, PStr (lit ''PLAIN AMQPLAIN''), PStr (lit ''en_US'')] = Inr b"
    "length b \<le> 600" using dumps_start .
  then show ?thesis by (simp add: send_connection_start_def write_method_ok byte_list_def)
qed

text \<open>No reply of the handshake closes the transport.\<close>

lemma one_frame_open:
  "one_frame ty ch m \<Longrightarrow> m t = (Inr x, t') \<Longrightarrow> is_closing t' = is_closing t"
  by (auto simp: one_frame_def writes_def sends_frame_def sends_def)

lemma handshake_replies:
  "send_connection_start t = (Inr (), snd (send_connection_start t))"
  "send_connection_tune t = (Inr (), snd (send_connection_tune t))"
  "send_connection_ok t = (Inr (), snd (send_connection_ok t))"
  by (simp_all add: prod_eq_iff send_connection_start_ok connection_sends_ok)

lemmas replies_open = one_frame_methods(1) [THEN one_frame_open, OF handshake_replies(1)]
  one_frame_methods(3) [THEN one_frame_open, OF handshake_replies(2)]
  one_frame_methods(4) [THEN one_frame_open, OF handshake_replies(3)]

section \<open>Nobody gets in without credentials\<close>

definition login :: "frame \<Rightarrow> (pystr \<times> pystr) result" where
  \<comment> \<open>the credentials in the arguments of \<open>start-ok\<close>\<close>
  "login f =
     bindE (properties f) (\<lambda>d.
     bindE (py_get d (lit ''mechanism'')) (\<lambda>mechanism.
       if mechanism \<noteq> PStr (lit ''PLAIN'') \<and> mechanism \<noteq> PStr (lit ''AMQPLAIN'') then Inl ValueError
       else credentials mechanism d))"

lemma check_start_ok_login:
  "login f = Inr (u, p) \<Longrightarrow> check_start_ok f = on_broker (check_credentials u p)"
  by (auto simp: login_def check_start_ok_def fun_eq_iff bindS_apply elim!: bindE_InrE split: if_splits)

lemma check_start_ok_accepts:
  assumes "check_start_ok f w = (Inr True, w')"
  obtains u p where "login f = Inr (u, p)" and "map_of (users (the_broker w)) u = Some p"
    and "map_of (auth_tried (the_broker w')) u = Some True"
proof -
  from assms obtain u p where l: "login f = Inr (u, p)"
    and c: "on_broker (check_credentials u p) w = (Inr True, w')"
    by (auto simp: check_start_ok_def login_def liftE_def elim!: bindS_InrE split: if_splits prod.splits)
  from c have "map_of (users (the_broker w)) u = Some p" "map_of (auth_tried (the_broker w')) u = Some True"
    by (auto simp: on_broker_def check_credentials_def Let_def AList.update_conv')
  with l that show ?thesis by blast
qed

text \<open>
  A frame moves the connection out of its first state only with the credentials of a user, which
  are then on record.
\<close>

definition lets_in :: "broker \<Rightarrow> frame \<Rightarrow> broker \<Rightarrow> bool" where
  "lets_in b f b' \<longleftrightarrow>
     (case login f of Inl _ \<Rightarrow> False
      | Inr (u, p) \<Rightarrow> map_of (users b) u = Some p \<and> map_of (auth_tried b') u = Some True)"

lemma on_frame_lets_in:
  assumes st: "parser_state (trackers w me) = WAITING_START_OK"
    and run: "on_frame set_order me f w = (r, w')"
  shows "parser_state (trackers w' me) = WAITING_START_OK
    \<or> r = Inr False \<and> parser_state (trackers w' me) = WAITING_TUNE_OK
      \<and> lets_in (the_broker w) f (the_broker w')"
proof (cases "\<exists>k. f = HeartBeat k")
  case True
  with st run show ?thesis by (auto simp: on_frame_def bindS_apply on_transport_trackers split: sum.splits)
next
  case False
  note cases = run [unfolded on_frame_cases [OF False]]
  consider (channel) "channel_number f \<noteq> 0" | (close) "channel_number f = 0" "is_method f CLOSE"
    | (handshake) "channel_number f = 0" "\<not> is_method f CLOSE" by blast
  then show ?thesis
  proof cases
    case channel
    have "keeps (\<lambda>w. parser_state (trackers w me) = WAITING_START_OK)
      (thenS (upsert_channel me (channel_number f)) (thenS (treat_channel_frame set_order me f) (returnS True)))"
      by (intro keeps_rules same_state.keeps_channel_ops same_state.keeps_treat_channel_frame)
    from keepsD [OF this st] cases channel show ?thesis by simp
  next
    case close
    with cases st show ?thesis by (auto simp: bindS_apply on_transport_trackers split: sum.splits)
  next
    case handshake
    with cases st have run': "on_start_ok me f w = (r, w')" by (simp add: on_handshake_def)
    obtain c w1 where c: "check_start_ok f w = (c, w1)" by fastforce
    have st1: "parser_state (trackers w1 me) = WAITING_START_OK"
      using check_start_ok_trackers [of f w] c st by simp
    show ?thesis
    proof (cases "c = Inr True")
      case True
      then obtain u p where "login f = Inr (u, p)" "map_of (users (the_broker w)) u = Some p"
        "map_of (auth_tried (the_broker w1)) u = Some True"
        using c check_start_ok_accepts by blast
      with run' c True show ?thesis
        by (auto simp: lets_in_def on_start_ok_def bindS_apply on_transport_apply connection_sends_ok
            set_parser_state_apply)
    next
      case False
      with run' c st1 show ?thesis
        by (auto simp: on_start_ok_def bindS_apply on_transport_apply transport_close_def split: sum.splits)
    qed
  qed
qed

lemma serve_lets_in:
  assumes "parser_state (trackers w me) = WAITING_START_OK" and "serve set_order me w = (r, w')"
  shows "parser_state (trackers w' me) = WAITING_START_OK
    \<or> parser_state (trackers w' me) = WAITING_TUNE_OK
      \<and> (\<exists>k f. read_frame (drop k (buffer (trackers w me))) = Inr (Some f)
           \<and> lets_in (the_broker w) f (the_broker w'))"
  using assms
proof (induction "length (buffer (trackers w me))" arbitrary: w rule: less_induct)
  case less
  let ?buf = "buffer (trackers w me)"
  have st: "parser_state (trackers (take_frame me f w) me) = WAITING_START_OK"
    and b: "the_broker (take_frame me f w) = the_broker w"
    and buf: "buffer (trackers (take_frame me f w) me) = drop (frame_size f) ?buf" for f
    using less.prems(1) by (simp_all add: take_frame_def)
  show ?case
  proof (cases rule: serve_cases [of set_order me w])
    case (idle r')
    with less.prems show ?thesis by simp
  next
    case (final f r' w1)
    with less.prems(2) have w1: "w1 = w'" by simp
    from final(1) have "read_frame (drop 0 ?buf) = Inr (Some f)" by simp
    with on_frame_lets_in [OF st final(2)] show ?thesis unfolding w1 b by blast
  next
    case (again f w1)
    from on_frame_lets_in [OF st again(2)] have st1: "parser_state (trackers w1 me) = WAITING_START_OK" by simp
    have same: "users (the_broker w1) = users (the_broker w)"
      using keepsD [OF accounts.connected.keeps_on_frame [of "users (the_broker w)" set_order me f],
          of "take_frame me f w"] again(2) by (simp add: b)
    have buf1: "buffer (trackers w1 me) = drop (frame_size f) ?buf"
      using on_frame_buffer [of set_order me f "take_frame me f w"] again(2) buf by simp
    from less.hyps [OF again(3) st1] less.prems(2) again(4)
    have "parser_state (trackers w' me) = WAITING_START_OK
      \<or> parser_state (trackers w' me) = WAITING_TUNE_OK
        \<and> (\<exists>k g. read_frame (drop (k + frame_size f) ?buf) = Inr (Some g)
             \<and> lets_in (the_broker w1) g (the_broker w'))"
      by (simp add: buf1)
    then show ?thesis unfolding lets_in_def same by blast
  qed
qed

section \<open>A client that follows the protocol gets through\<close>

fun receive_all :: "(pystr list \<Rightarrow> pystr list) \<Rightarrow> nat \<Rightarrow> bytes list \<Rightarrow> (world, unit) eff" where
  \<comment> \<open>the calls of \<open>data_received\<close> that asyncio makes for the pieces of the stream\<close>
  "receive_all set_order me [] = returnS ()"
| "receive_all set_order me (d # ds) =
     thenS (data_received set_order me d) (receive_all set_order me ds)"

lemma protocol_header_received:
  assumes "trackers w me = new_tracker"
  obtains w' where "data_received set_order me PROTOCOL_HEADER w = (Inr (), w')"
    and "the_broker w' = the_broker w" and "is_closing (transports w' me) = is_closing (transports w me)"
    and "trackers w' me = new_tracker\<lparr>parser_state := WAITING_START_OK\<rparr>"
proof -
  let ?w = "w\<lparr>transports := (transports w)(me := snd (send_connection_start (transports w me))),
    trackers := (trackers w)(me := new_tracker\<lparr>parser_state := WAITING_START_OK\<rparr>)\<rparr>"
  have "data_received set_order me PROTOCOL_HEADER w = (Inr (), ?w)"
    using assms by (simp add: data_received_def check_protocol_header_def PROTOCOL_HEADER_def
        new_tracker_def bindS_apply on_transport_apply send_connection_start_ok set_parser_state_apply)
  then show ?thesis using that by (simp add: replies_open)
qed

lemma start_ok_received:
  assumes w: "buffer (trackers w me) = []" "parser_state (trackers w me) = WAITING_START_OK"
    and b: "reads_as b f" and f: "\<nexists>k. f = HeartBeat k" "channel_number f = 0" "\<not> is_method f CLOSE"
    and l: "login f = Inr (u, p)" "map_of (users (the_broker w)) u = Some p"
  obtains w' where "data_received set_order me (b @ x) w = (Inr (), w')"
    and "buffer (trackers w' me) = x" and "parser_state (trackers w' me) = WAITING_TUNE_OK"
    and "is_closing (transports w' me) = is_closing (transports w me)"
proof -
  let ?b = "snd (check_credentials u p (the_broker w))"
  let ?w = "w\<lparr>the_broker := ?b, transports := (transports w)(me := snd (send_connection_tune (transports w me))),
    trackers := (trackers w)(me := (trackers w me)\<lparr>parser_state := WAITING_TUNE_OK\<rparr>)\<rparr>"
  have "fst (check_credentials u p (the_broker w)) = Inr True"
    using l(2) by (simp add: check_credentials_def Let_def)
  then have "on_start_ok me f w = (Inr False, ?w)"
    by (simp add: on_start_ok_def check_start_ok_login [OF l(1)] bindS_apply on_broker_apply
        on_transport_apply connection_sends_ok set_parser_state_apply)
  then have "on_frame set_order me f w = (Inr False, ?w)"
    using w(2) f(2,3) unfolding on_frame_cases [OF f(1)] by (simp add: on_handshake_def)
  from serve_frame [OF b w(1) this, of x] w(2)
  have "data_received set_order me (b @ x) w = (Inr (), more me x ?w)"
    by (simp add: data_received_more)
  then show ?thesis using that w(1) by (simp add: replies_open more_def change_def)
qed

lemma tune_and_open_received:
  assumes w: "buffer (trackers w me) = []" "parser_state (trackers w me) = WAITING_TUNE_OK"
    and b2: "reads_as b2 f2" "\<nexists>k. f2 = HeartBeat k" "channel_number f2 = 0" "is_method f2 TUNE_OK"
    and b3: "reads_as b3 f3" "\<nexists>k. f3 = HeartBeat k" "channel_number f3 = 0" "is_method f3 OPEN"
  obtains w' where "data_received set_order me (b2 @ b3) w = (Inr (), w')"
    and "buffer (trackers w' me) = []" and "parser_state (trackers w' me) = OPENED"
    and "is_closing (transports w' me) = is_closing (transports w me)"
proof -
  let ?w1 = "w\<lparr>trackers := (trackers w)(me := (trackers w me)\<lparr>parser_state := WAITING_OPEN\<rparr>)\<rparr>"
  let ?w2 = "?w1\<lparr>transports := (transports w)(me := snd (send_connection_ok (transports w me))),
    trackers := (trackers w)(me := (trackers w me)\<lparr>parser_state := OPENED\<rparr>)\<rparr>"
  have m: "\<not> is_method f2 CLOSE" "\<not> is_method f3 CLOSE"
    using b2(4) b3(4) by (auto simp: is_method_def)
  have f2: "on_frame set_order me f2 w = (Inr True, ?w1)"
    using w(2) b2(3,4) m unfolding on_frame_cases [OF b2(2)]
    by (simp add: on_handshake_def on_tune_ok_def set_parser_state_apply bindS_apply)
  have f3: "on_frame set_order me f3 ?w1 = (Inr True, ?w2)"
    using b3(3,4) m unfolding on_frame_cases [OF b3(2)]
    by (simp add: on_handshake_def on_open_def check_open_def set_parser_state_apply bindS_apply
        on_transport_apply connection_sends_ok)
  from serve_frame [OF b2(1) w(1) f2, of b3] serve_frame [OF b3(1) _ f3, of "[]"] w
  have "data_received set_order me (b2 @ b3) w = (Inr (), ?w2)"
    by (simp add: data_received_more serve_nothing)
  then show ?thesis using that w(1) by (simp add: replies_open)
qed

end
