(* ===== verification/Content_Properties.thy ===== *)
theory Content_Properties
  imports Streams
begin

text \<open>
  What becomes of the messages that clients publish, from the bytes on the wire to the contract of
  the broker.
\<close>

section \<open>A world to try it on\<close>

definition open_channel :: channel where
  "open_channel = \<lparr>ch_state = CH_OPENED, ch_number = 1, ch_exchange = None, ch_routing_key = None,
     ch_on_going = None\<rparr>"

definition open_world :: world where
  \<comment> \<open>a fresh broker with one queue, and a connection that has opened channel 1\<close>
  "open_world =
     \<lparr>the_broker = snd (declare_queue (lit ''q'') (init_state (lit ''guest'') (lit ''guest''))),
      trackers = (\<lambda>_. new_tracker)(0 := \<lparr>buffer = [], parser_state = OPENED, channels = [(1, open_channel)]\<rparr>),
      transports = (\<lambda>_. new_transport), draws = (\<lambda>_. 1)\<rparr>"

lemma open_world_simps [simp]:
  "channel_at open_world 0 1 = Some open_channel" "buffer (trackers open_world 0) = []"
  "parser_state (trackers open_world 0) = OPENED" "ch_state open_channel = CH_OPENED"
  "transports open_world = (\<lambda>_. new_transport)"
  by (simp_all add: open_world_def channel_at_def open_channel_def)

lemma open_world_broker: "broker_ok (the_broker open_world)" "type_of (the_broker open_world) [] = Some (lit ''direct'')"
  using keepsD [OF keeps_broker_ok(3) init_state_ok]
  by (simp_all add: open_world_def declare_queue_view) (simp add: init_state_def view_defs new_exchange_def)

definition publish_bytes :: bytes where
  \<comment> \<open>\<open>basic.publish\<close> on channel 1, to the default exchange with an empty routing key\<close>
  "publish_bytes = frame_bytes 1 1 [0, 60, 0, 40, 0, 0, 0, 0, 0]"

definition publish_args :: pydict where
  "publish_args = [(lit ''reserved-1'', PInt 0), (lit ''exchange-name'', PStr []),
     (lit ''routing-key'', PStr []), (lit ''mandatory'', PBool False), (lit ''immediate'', PBool False)]"

definition header_bytes :: "nat \<Rightarrow> bytes" where
  \<comment> \<open>a content header on channel 1, without properties, that announces \<open>n\<close> bytes\<close>
  "header_bytes n = frame_bytes 2 1 ([0, 60, 0, 0] @ be_bytes 8 (int n) @ [0, 0])"

lemma publish_bytes_read: "reads_as publish_bytes (MethodFrame 1 17 (id_of BASIC_PUBLISH) publish_args)"
  unfolding publish_bytes_def
  by (rule reads_as_frame_bytes)
    (simp_all add: build_frame_def frame_consts new_method_def unpack_I_def unpack_u_def py_slice_def
      id_of.simps decode_method_def decode_basic_publish_def decode_args_def loads_def loads_field_def
      unpack_H_def unpack_B_def ord_at_def idx_def drop_bit_Suc publish_args_def utf8_decode_Nil)

lemma header_bytes_read: "n < 256 \<Longrightarrow> reads_as (header_bytes n) (HeaderFrame 1 22 60 (int n) [])"
  unfolding header_bytes_def
  by (rule reads_as_frame_bytes)
    (simp_all add: build_frame_def frame_consts new_header_def unpack_HHQH_def unpack_H_def unpack_Q_def
      unpack_u_def py_slice_def be_bytes_eval header_fields_def header_properties_def flag_set_def
      parse_string_def row_keys_def loads_def unsigned_of_nat take_bit_nat_eq_self del: be_bytes.simps)

lemma body_bytes_read:
  "int (length b) < 2 ^ 32 \<Longrightarrow> reads_as (frame_bytes 3 1 b) (BodyFrame 1 (8 + length b) b)"
  by (rule reads_as_frame_bytes) (simp_all add: build_frame_def frame_consts)

section \<open>Messages\<close>

lemma publication_received:
  assumes at: "channel_at w me n = Some ch" "ch_state ch = CH_OPENED" "n \<noteq> 0"
    and conn: "buffer (trackers w me) = []" "parser_state (trackers w me) \<noteq> WAITING_PROTOCOL_HEADER"
    and broker: "broker_ok (the_broker w)" "\<forall>xs. mset (set_order xs) = mset xs"
    and args: "get_str d ''exchange-name'' = Inr e" "get_str d ''routing-key'' = Inr k"
      "type_of (the_broker w) e \<noteq> None"
    and body: "bodies \<noteq> []" "snd (last bodies) \<noteq> []"
    and bytes: "list_all2 reads_as bss (publication n sz1 sz2 d props bodies)"
  shows "\<exists>w'. data_received set_order me (concat bss) w = (Inr (), w')
    \<and> contract_of (the_broker w') = c_store e \<lparr>stored_headers = PDict props,
        stored_body = PBytes (concat (map snd bodies))\<rparr> (contract_of (the_broker w))
    \<and> map_option ch_state (channel_at w' me n) = Some CH_OPENED
    \<and> transports w' = transports w"
proof -
  let ?store = "store_message set_order e (PDict props) (PBytes (concat (map snd bodies))) (the_broker w)"
  have perm: "mset (set_order (bound_queues (the_broker w) e)) = mset (bound_queues (the_broker w) e)"
    using broker(2) by blast
  have "?store = (Inr True, snd ?store)"
    using store_message_result(1) [where set_order = set_order and e = e, OF broker(1) perm] args(3) by (simp add: prod_eq_iff)
  from publication_stored [where props = props and szm = sz1 and szh = sz2, OF at(1,2) args(1,2) body this]
  obtain w' where run: "treat_frames set_order me (publication n sz1 sz2 d props bodies) w = (Inr (), w')"
    and l: "leaves me n w (snd ?store) (ch\<lparr>ch_exchange := Some e, ch_routing_key := Some k,
      ch_on_going := None, ch_state := CH_OPENED\<rparr>) w'"
    by (auto elim!: returnsE)
  from data_received_frames [OF bytes publication_frames [OF at(3)] conn run]
  show ?thesis
    using store_message_result(2) [where set_order = set_order and e = e, OF broker(1) perm] l by (auto simp: leaves_def)
qed

text \<open>C1: The bytes of a publish, of a content header that announces the length of the body, and of
  body frames that carry it in any number of pieces, on an open channel: \<open>data_received\<close> returns,
  the message with the header's properties is stored in the exchange and in exactly the queues bound
  to it, the channel is open again, and nothing is written.\<close>

theorem published_message_stored:
  assumes "channel_at w me n = Some ch" "ch_state ch = CH_OPENED" "n \<noteq> 0"
    and "buffer (trackers w me) = []" "parser_state (trackers w me) \<noteq> WAITING_PROTOCOL_HEADER"
    and "broker_ok (the_broker w)" "\<forall>xs. mset (set_order xs) = mset xs"
    and "get_str d ''exchange-name'' = Inr e" "get_str d ''routing-key'' = Inr k"
      "type_of (the_broker w) e \<noteq> None"
    and "bodies \<noteq> []" "snd (last bodies) \<noteq> []"
    and "list_all2 reads_as bss (publication n sz1 sz2 d props bodies)"
  shows "\<exists>w'. data_received set_order me (concat bss) w = (Inr (), w')
    \<and> contract_of (the_broker w') = c_store e \<lparr>stored_headers = PDict props,
        stored_body = PBytes (concat (map snd bodies))\<rparr> (contract_of (the_broker w))
    \<and> map_option ch_state (channel_at w' me n) = Some CH_OPENED
    \<and> transports w' = transports w"
  by (rule publication_received) (rule assms)+

theorem published_message_stored_witness:
  "\<exists>w'. data_received id 0 (concat [publish_bytes, header_bytes 2, frame_bytes 3 1 [104], frame_bytes 3 1 [105]])
       open_world = (Inr (), w')
     \<and> c_queue (contract_of (the_broker w')) (lit ''q'')
       = Some [\<lparr>stored_headers = PDict [], stored_body = PBytes [104, 105]\<rparr>]"
proof -
  let ?bodies = "[(9, [104]), (9, [105])] :: (nat \<times> bytes) list"
  have "list_all2 reads_as [publish_bytes, header_bytes 2, frame_bytes 3 1 [104], frame_bytes 3 1 [105]]
      (publication 1 17 22 publish_args [] ?bodies)"
    using publish_bytes_read header_bytes_read [of 2] body_bytes_read [of "[104]"] body_bytes_read [of "[105]"]
    by (simp add: publication_def)
  from published_message_stored [OF _ _ _ _ _ open_world_broker(1) _ _ _ _ _ _ this, of 0 open_channel id "[]" "[]"]
  obtain w' where "data_received id 0 (concat [publish_bytes, header_bytes 2, frame_bytes 3 1 [104],
      frame_bytes 3 1 [105]]) open_world = (Inr (), w')"
    and "contract_of (the_broker w') = c_store [] \<lparr>stored_headers = PDict [], stored_body = PBytes [104, 105]\<rparr>
      (contract_of (the_broker open_world))"
    by (auto simp: publish_args_def get_str_def py_get_def open_world_broker)
  then show ?thesis
    by (simp add: contract_of_def c_store_def open_world_broker)
      (simp add: open_world_def declare_queue_view, simp add: init_state_def view_defs set_add_def new_exchange_def)
qed

section \<open>Messages that are lost\<close>

definition on_channel :: "int \<Rightarrow> frame \<Rightarrow> bool" where
  "on_channel n f \<longleftrightarrow> (case f of HeartBeat _ \<Rightarrow> False | _ \<Rightarrow> channel_number f = n)"

lemma on_channel_iff: "on_channel n f \<longleftrightarrow> (\<nexists>k. f = HeartBeat k) \<and> channel_number f = n"
  by (cases f) (simp_all add: on_channel_def)

text \<open>C33: A message of which more content has arrived than its header announced is never complete:
  the length is compared for equality only. From then on nothing that comes on the channel, short of
  a close, is stored or answered.\<close>

theorem overlong_body_swallows_channel:
  assumes "channel_at w me n = Some ch" and "overrun ch" and "n \<noteq> 0"
    and "buffer (trackers w me) = []" and "parser_state (trackers w me) \<noteq> WAITING_PROTOCOL_HEADER"
    and "list_all2 reads_as bss fs" and "\<forall>f\<in>set fs. on_channel n f \<and> \<not> is_method f CHANNEL_CLOSE"
  shows "\<exists>w' ch'. data_received set_order me (concat bss) w = (Inr (), w')
    \<and> the_broker w' = the_broker w \<and> transports w' = transports w
    \<and> channel_at w' me n = Some ch' \<and> overrun ch'"
proof -
  have "\<forall>f\<in>set fs. channel_number f = n \<and> \<not> is_method f CHANNEL_CLOSE"
    using assms(7) by (simp add: on_channel_iff)
  from overrun_forever [where set_order = set_order, OF assms(1,2) this] obtain w' ch' where
    "treat_frames set_order me fs w = (Inr (), w')" "overrun ch'" "leaves me n w (the_broker w) ch' w'"
    by (auto elim!: returnsE)
  with data_received_frames [OF assms(6) _ assms(4,5)] assms(3,7) show ?thesis
    by (auto simp: on_channel_iff leaves_def)
qed

definition overrun_channel :: channel where
  \<comment> \<open>two bytes have arrived where one was announced\<close>
  "overrun_channel = open_channel\<lparr>ch_state := CH_WAITING_BODY, ch_exchange := Some [],
     ch_on_going := Some (add_content [1, 2] (new_message (HeaderFrame 1 22 60 1 [])))\<rparr>"

definition overrun_world :: world where
  "overrun_world = open_world\<lparr>trackers := (trackers open_world)(0 :=
     (trackers open_world 0)\<lparr>channels := [(1, overrun_channel)]\<rparr>)\<rparr>"

theorem overlong_body_swallows_channel_witness:
  "\<exists>w' ch'. data_received id 0 (concat [publish_bytes, header_bytes 2]) overrun_world = (Inr (), w')
     \<and> the_broker w' = the_broker overrun_world \<and> channel_at w' 0 1 = Some ch' \<and> overrun ch'"
proof -
  have at: "channel_at overrun_world 0 1 = Some overrun_channel"
    by (simp add: channel_at_def overrun_world_def)
  have o: "overrun overrun_channel"
    by (simp add: overrun_def overrun_channel_def) (simp add: add_content_def new_message_def)
  have conn: "buffer (trackers overrun_world 0) = []"
    "parser_state (trackers overrun_world 0) \<noteq> WAITING_PROTOCOL_HEADER" by (simp_all add: overrun_world_def)
  have b: "list_all2 reads_as [publish_bytes, header_bytes 2]
      [MethodFrame 1 17 (id_of BASIC_PUBLISH) publish_args, HeaderFrame 1 22 60 2 []]"
    using publish_bytes_read header_bytes_read [of 2] by simp
  from overlong_body_swallows_channel [OF at o _ conn b, of id] show ?thesis
    by (auto simp: on_channel_def is_method_def)
qed

text \<open>C32: A message without a body, for which AMQP sends no body frame, is not stored, and it takes
  the next message with it: that one is not stored either, and the channel never stores anything
  again.\<close>

theorem empty_message_swallows_next:
  assumes at: "channel_at w me n = Some ch" "ch_state ch = CH_OPENED" "n \<noteq> 0"
    and conn: "buffer (trackers w me) = []" "parser_state (trackers w me) \<noteq> WAITING_PROTOCOL_HEADER"
    and args: "get_str d ''exchange-name'' = Inr e" "get_str d ''routing-key'' = Inr k"
    and body: "bodies \<noteq> []" "\<forall>x\<in>set bodies. snd x \<noteq> []"
    and bytes: "list_all2 reads_as bss (publication n sz1 sz2 d props [] @ publication n sz3 sz4 d' props' bodies)"
  shows "\<exists>w' ch'. data_received set_order me (concat bss) w = (Inr (), w')
    \<and> the_broker w' = the_broker w \<and> transports w' = transports w
    \<and> channel_at w' me n = Some ch' \<and> overrun ch'"
proof -
  let ?ch1 = "ch\<lparr>ch_state := CH_WAITING_BODY, ch_exchange := Some e, ch_routing_key := Some k,
    ch_on_going := Some (new_message (HeaderFrame n sz2 60 0 props))\<rparr>"
  from empty_publication [where set_order = set_order and szm = sz1 and szh = sz2 and props = props, OF at(1,2) args]
  obtain w1 where w1: "treat_frames set_order me (publication n sz1 sz2 d props []) w = (Inr (), w1)"
    and l1: "leaves me n w (the_broker w) ?ch1 w1" by (auto elim!: returnsE)
  have "returns (treat_frames set_order me (publication n sz3 sz4 d' props' bodies))
    (\<lambda>_ w'. \<exists>ch'. overrun ch' \<and> leaves me n w1 (the_broker w1) ch' w') w1"
    by (rule next_publication_lost [OF _ _ _ body, where ch = ?ch1]) (use l1 in \<open>simp_all add: leaves_def\<close>)
  then obtain w' ch' where w': "treat_frames set_order me (publication n sz3 sz4 d' props' bodies) w1 = (Inr (), w')"
    and o: "overrun ch'" and l2: "leaves me n w1 (the_broker w1) ch' w'" by (auto elim!: returnsE)
  have run: "treat_frames set_order me (publication n sz1 sz2 d props [] @ publication n sz3 sz4 d' props' bodies) w
      = (Inr (), w')"
    using w1 w' by (simp add: treat_frames_append bindS_Inr)
  have "\<forall>f\<in>set (publication n sz1 sz2 d props [] @ publication n sz3 sz4 d' props' bodies).
      (\<nexists>k. f = HeartBeat k) \<and> channel_number f \<noteq> 0"
    using publication_frames [OF at(3)] by (metis Un_iff set_append)
  from data_received_frames [OF bytes this conn run] o leaves_trans [OF l1 l2] show ?thesis
    using l1 by (auto simp: leaves_def)
qed

theorem empty_message_swallows_next_witness:
  "\<exists>w' ch'. data_received id 0 (concat [publish_bytes, header_bytes 0, publish_bytes, header_bytes 1,
       frame_bytes 3 1 [104]]) open_world = (Inr (), w')
     \<and> the_broker w' = the_broker open_world \<and> channel_at w' 0 1 = Some ch' \<and> overrun ch'"
proof -
  let ?bodies = "[(9, [104])] :: (nat \<times> bytes) list"
  have "list_all2 reads_as [publish_bytes, header_bytes 0, publish_bytes, header_bytes 1, frame_bytes 3 1 [104]]
      (publication 1 17 22 publish_args [] [] @ publication 1 17 22 publish_args [] ?bodies)"
    using publish_bytes_read header_bytes_read [of 0] header_bytes_read [of 1] body_bytes_read [of "[104]"]
    by (simp add: publication_def)
  from empty_message_swallows_next [OF _ _ _ _ _ _ _ _ _ this, of open_world 0 open_channel "[]" "[]" id]
  show ?thesis by (auto simp: publish_args_def get_str_def py_get_def)
qed

end
