(* ===== verification/Connection_Properties.thy ===== *)
theory Connection_Properties
  imports Handshake Content_Properties
begin

text \<open>
  What a connection guarantees, whatever bytes it receives: the handshake, the cutting of the input,
  what it leaves alone, and how it fails.
\<close>

section \<open>Credentials\<close>

text \<open>The PLAIN response gives a user and a password exactly when it is an identity, the user and
  the password with a NUL before the last two and no other NUL.\<close>

lemma plain_response:
  "plain_credentials response = Inr (user, password) \<longleftrightarrow>
     (\<exists>identity. response = identity @ 0 # user @ 0 # password
        \<and> 0 \<notin> set (identity @ user @ password))"
proof
  assume "plain_credentials response = Inr (user, password)"
  then obtain identity where "py_split 0 response (Suc (Suc (Suc 0))) = [identity, user, password]"
    unfolding plain_credentials_def numeral_3_eq_3 by (simp del: py_split.simps split: list.splits)
  then obtain b where b: "response = identity @ 0 # b" "0 \<notin> set identity"
    and r: "py_split 0 b (Suc (Suc 0)) = [user, password]" by (rule py_split_Cons)
  from r obtain c where "b = user @ 0 # c" "0 \<notin> set user" and c: "py_split 0 c (Suc 0) = [password]"
    by (rule py_split_Cons)
  moreover from py_split_single [OF c] have "0 \<notin> set c" "password = c" by simp_all
  ultimately have "response = identity @ 0 # user @ 0 # password \<and> 0 \<notin> set (identity @ user @ password)"
    using b by simp
  then show "\<exists>identity. response = identity @ 0 # user @ 0 # password
        \<and> 0 \<notin> set (identity @ user @ password)" ..
next
  assume "\<exists>identity. response = identity @ 0 # user @ 0 # password \<and> 0 \<notin> set (identity @ user @ password)"
  then show "plain_credentials response = Inr (user, password)"
    unfolding plain_credentials_def numeral_3_eq_3
    by (auto simp: py_split_sep py_split_no_sep simp del: py_split.simps)
qed

text \<open>C39: The AMQPLAIN response is the table without its length that py-amqp writes for it: from the
  name, type and value of two fields, the two values are read back as user and password.\<close>

theorem amqplain_response:
  assumes "dumps ''soSsoS'' [PStr login_key, PInt 83, PStr user, PStr password_key, PInt 83, PStr password] = Inr buf"
    and "\<forall>s\<in>{login_key, user, password_key, password}. valid_str True s"
    and "utf8_decode False buf = Inr response"
  shows "amqplain_credentials response = Inr (user, password)"
proof -
  let ?vs = "[PStr login_key, PInt 83, PStr user, PStr password_key, PInt 83, PStr password]"
  have "list_all2 field_ok ''soSsoS'' ?vs" using assms(2) by (simp add: field_ok_def)
  from loads_dumps_at [OF assms(1) this, of buf 0] have "loads ''soSsoS'' buf 0 = Inr (?vs, length buf)"
    by simp
  with utf8_encode_decode [OF assms(3)] show ?thesis by (simp add: amqplain_credentials_def)
qed

theorem amqplain_response_witness:
  "amqplain_credentials [1, 76, 83, 0, 0, 0, 1, 117, 1, 80, 83, 0, 0, 0, 1, 112] = Inr (lit ''u'', lit ''p'')"
proof -
  let ?buf = "[1, 76, 83, 0, 0, 0, 1, 117, 1, 80, 83, 0, 0, 0, 1, 112] :: bytes"
  have t: "lit ''L'' = [76]" "lit ''u'' = [117]" "lit ''P'' = [80]" "lit ''p'' = [112]"
    by (simp_all add: lit_def)
  have octet: "pack_B 83 = Inr [83]" by (simp add: pack_B_def pack_u_def be_bytes_eval)
  have "dumps ''soSsoS'' [PStr (lit ''L''), PInt 83, PStr (lit ''u''), PStr (lit ''P''), PInt 83, PStr (lit ''p'')]
      = Inr ?buf"
    by (simp add: dumps_def dumps_field_def write_text ascii_def tag_def byte_of_def octet be_bytes_eval
        emit_def flushbits_def del: be_bytes.simps)
  moreover have "\<forall>s\<in>{lit ''L'', lit ''u'', lit ''P'', lit ''p''}. valid_str True s"
    by (simp add: t valid_cp_def)
  moreover have "utf8_decode False ?buf = Inr [1, 76, 83, 0, 0, 0, 1, 117, 1, 80, 83, 0, 0, 0, 1, 112]"
    by (rule utf8_decode_encode) (simp add: valid_cp_def is_surrogate_def utf8_encode_cp_def byte_of_def)
  ultimately show ?thesis by (rule amqplain_response)
qed

section \<open>The handshake\<close>

definition fresh_world :: world where
  "fresh_world = \<lparr>the_broker = init_state (lit ''u'') (lit ''p''), trackers = (\<lambda>_. new_tracker),
     transports = (\<lambda>_. new_transport), draws = (\<lambda>_. 1)\<rparr>"

definition start_ok_bytes :: bytes where
  \<comment> \<open>no properties, PLAIN, the response, an empty locale\<close>
  "start_ok_bytes = frame_bytes 1 0 [0, 10, 0, 11, 0, 0, 0, 0, 5, 80, 76, 65, 73, 78,
     0, 0, 0, 4, 0, 117, 0, 112, 0]"

definition start_ok_args :: pydict where
  "start_ok_args = [(lit ''peer-properties'', PDict []), (lit ''mechanism'', PStr (lit ''PLAIN'')),
     (lit ''response'', PStr [0, 117, 0, 112]), (lit ''locale'', PStr [])]"

definition tune_ok_bytes :: bytes where
  "tune_ok_bytes = frame_bytes 1 0 [0, 10, 0, 31, 0, 0, 0, 2, 0, 0, 0, 10]"

definition open_bytes :: bytes where
  "open_bytes = frame_bytes 1 0 [0, 10, 0, 40, 1, 47, 0, 0]"

lemma start_ok_bytes_read: "reads_as start_ok_bytes (MethodFrame 0 31 (id_of START_OK) start_ok_args)"
proof -
  have "utf8_decode True [80, 76, 65, 73, 78] = Inr (lit ''PLAIN'')"
    "utf8_decode True [0, 117, 0, 112] = Inr [0, 117, 0, 112]"
    by (rule utf8_decode_encode,
        simp add: lit_def valid_cp_def is_surrogate_def utf8_encode_cp_def byte_of_def)+
  then show ?thesis
    unfolding start_ok_bytes_def
    by (intro reads_as_frame_bytes)
      (simp_all add: build_frame_def frame_consts new_method_def unpack_I_def unpack_u_def py_slice_def
        id_of.simps decode_method_def decode_start_ok_def decode_args_def loads_def loads_field_def
        unpack_B_def idx_def start_ok_args_def read_table.simps utf8_decode_Nil)
qed

lemma tune_ok_bytes_read:
  "\<exists>d. reads_as tune_ok_bytes (MethodFrame 0 20 (id_of TUNE_OK) d)"
  "\<exists>d. reads_as open_bytes (MethodFrame 0 16 (id_of OPEN) d)"
proof -
  have "utf8_decode True [47] = Inr (lit ''/'')"
    by (rule utf8_decode_encode, simp add: lit_def valid_cp_def utf8_encode_cp_def byte_of_def)
  then show "\<exists>d. reads_as open_bytes (MethodFrame 0 16 (id_of OPEN) d)"
    unfolding open_bytes_def
    by (intro exI reads_as_frame_bytes)
      (simp_all add: build_frame_def frame_consts new_method_def unpack_I_def unpack_u_def py_slice_def
        id_of.simps decode_method_def decode_open_def decode_args_def loads_def loads_field_def
        unpack_B_def idx_def ord_at_def utf8_decode_Nil)
  show "\<exists>d. reads_as tune_ok_bytes (MethodFrame 0 20 (id_of TUNE_OK) d)"
    unfolding tune_ok_bytes_def
    by (intro exI reads_as_frame_bytes)
      (simp_all add: build_frame_def frame_consts new_method_def unpack_I_def unpack_u_def py_slice_def
        id_of.simps decode_method_def decode_tune_ok_def decode_args_def loads_def loads_field_def
        unpack_H_def idx_def)
qed

lemma start_ok_args_login:
  "login (MethodFrame 0 31 (id_of START_OK) start_ok_args) = Inr (lit ''u'', lit ''p'')"
  by (simp add: login_def start_ok_args_def py_get_def get_str_def credentials_def plain_credentials_def
      lit_def numeral_3_eq_3)

text \<open>C16: A client that follows the protocol gets through: the protocol header, \<open>start-ok\<close> with the
  credentials of a user, and \<open>tune-ok\<close> and \<open>open\<close> in one piece leave a new connection open, with no
  exception, nothing left in the buffer, and the transport as open as it was.\<close>

theorem handshake_completes:
  assumes "trackers w me = new_tracker"
    and "reads_as b1 (MethodFrame 0 sz1 (id_of START_OK) d1)"
    and "login (MethodFrame 0 sz1 (id_of START_OK) d1) = Inr (u, p)"
    and "map_of (users (the_broker w)) u = Some p"
    and "reads_as b2 (MethodFrame 0 sz2 (id_of TUNE_OK) d2)"
    and "reads_as b3 (MethodFrame 0 sz3 (id_of OPEN) d3)"
  shows "\<exists>w'. receive_all set_order me [PROTOCOL_HEADER, b1, b2 @ b3] w = (Inr (), w')
    \<and> parser_state (trackers w' me) = OPENED \<and> buffer (trackers w' me) = []
    \<and> is_closing (transports w' me) = is_closing (transports w me)"
proof -
  obtain w1 where h1: "data_received set_order me PROTOCOL_HEADER w = (Inr (), w1)"
    and w1: "the_broker w1 = the_broker w" "is_closing (transports w1 me) = is_closing (transports w me)"
      "trackers w1 me = new_tracker\<lparr>parser_state := WAITING_START_OK\<rparr>"
    using protocol_header_received [OF assms(1)] .
  have s1: "buffer (trackers w1 me) = []" "parser_state (trackers w1 me) = WAITING_START_OK"
    using w1(3) by (simp_all add: new_tracker_def)
  have u: "map_of (users (the_broker w1)) u = Some p" using assms(4) w1(1) by simp
  obtain w2 where h2: "data_received set_order me (b1 @ []) w1 = (Inr (), w2)"
    and w2: "buffer (trackers w2 me) = []" "parser_state (trackers w2 me) = WAITING_TUNE_OK"
      "is_closing (transports w2 me) = is_closing (transports w1 me)"
    by (rule start_ok_received [OF s1 assms(2) _ _ _ assms(3) u, where x = "[]" and set_order = set_order])
      (simp_all add: is_method_def)
  obtain w3 where h3: "data_received set_order me (b2 @ b3) w2 = (Inr (), w3)"
    and w3: "buffer (trackers w3 me) = []" "parser_state (trackers w3 me) = OPENED"
      "is_closing (transports w3 me) = is_closing (transports w2 me)"
    by (rule tune_and_open_received [OF w2(1,2) assms(5) _ _ _ assms(6), where set_order = set_order])
      (simp_all add: is_method_def)
  from h1 h2 h3 have "receive_all set_order me [PROTOCOL_HEADER, b1, b2 @ b3] w = (Inr (), w3)"
    by (simp add: bindS_Inr)
  with w1(2) w2(3) w3 show ?thesis by simp
qed

theorem handshake_completes_witness:
  "\<exists>w'. receive_all id 0 [PROTOCOL_HEADER, start_ok_bytes, tune_ok_bytes @ open_bytes] fresh_world = (Inr (), w')
     \<and> parser_state (trackers w' 0) = OPENED \<and> \<not> is_closing (transports w' 0)"
proof -
  obtain d2 d3 where "reads_as tune_ok_bytes (MethodFrame 0 20 (id_of TUNE_OK) d2)"
    and "reads_as open_bytes (MethodFrame 0 16 (id_of OPEN) d3)" using tune_ok_bytes_read by blast
  from handshake_completes [OF _ start_ok_bytes_read start_ok_args_login _ this, of fresh_world 0 id]
  show ?thesis by (auto simp: fresh_world_def init_state_def new_transport_def)
qed

text \<open>C8: Nobody gets past \<open>start-ok\<close> without credentials: whatever a connection in that state
  receives, it stays there, or it moves on to \<open>tune-ok\<close> only, its input holds a frame with the name
  and the password of a user, and the successful attempt is on record.\<close>

theorem no_entry_without_credentials:
  assumes "parser_state (trackers w me) = WAITING_START_OK"
    and "data_received set_order me data w = (r, w')"
  shows "parser_state (trackers w' me) = WAITING_START_OK
    \<or> parser_state (trackers w' me) = WAITING_TUNE_OK
      \<and> (\<exists>k f u p. read_frame (drop k (buffer (trackers w me) @ data)) = Inr (Some f)
           \<and> login f = Inr (u, p) \<and> map_of (users (the_broker w)) u = Some p
           \<and> map_of (auth_tried (the_broker w')) u = Some True)"
proof -
  have "parser_state (trackers (more me data w) me) = WAITING_START_OK"
    and "the_broker (more me data w) = the_broker w"
    using assms(1) by (simp_all add: more_def change_def)
  moreover have "serve set_order me (more me data w) = (r, w')"
    using assms by (simp add: data_received_more)
  ultimately show ?thesis
    using serve_lets_in [of "more me data w" me set_order r w']
    by (fastforce simp: lets_in_def split: sum.splits prod.splits)
qed

theorem no_entry_without_credentials_witness:
  "\<exists>r w'. data_received id 0 [8, 0, 0, 0, 0, 0, 0, 0xCE]
       (fresh_world\<lparr>trackers := (\<lambda>_. new_tracker\<lparr>parser_state := WAITING_START_OK\<rparr>)\<rparr>) = (r, w')
     \<and> parser_state (trackers w' 0) \<noteq> OPENED"
proof -
  let ?w = "fresh_world\<lparr>trackers := (\<lambda>_. new_tracker\<lparr>parser_state := WAITING_START_OK\<rparr>)\<rparr>"
  obtain r w' where run: "data_received id 0 [8, 0, 0, 0, 0, 0, 0, 0xCE] ?w = (r, w')" by fastforce
  with no_entry_without_credentials [OF _ run] have "parser_state (trackers w' 0) \<noteq> OPENED" by auto
  with run show ?thesis by blast
qed

text \<open>C36: A frame that a client sends right behind \<open>start-ok\<close>, without waiting for the reply, is not
  looked at when it arrives in the same piece: it stays in the buffer until the client sends more.\<close>

theorem pipelined_frame_waits:
  assumes "buffer (trackers w me) = []" and "parser_state (trackers w me) = WAITING_START_OK"
    and "reads_as b (MethodFrame 0 sz (id_of START_OK) d)"
    and "login (MethodFrame 0 sz (id_of START_OK) d) = Inr (u, p)"
    and "map_of (users (the_broker w)) u = Some p"
  shows "\<exists>w'. data_received set_order me (b @ x) w = (Inr (), w')
    \<and> buffer (trackers w' me) = x \<and> parser_state (trackers w' me) = WAITING_TUNE_OK"
  by (rule start_ok_received [OF assms(1-3) _ _ _ assms(4,5), where x = x and set_order = set_order])
    (auto simp: is_method_def)

theorem pipelined_frame_waits_witness:
  "\<exists>w'. data_received id 0 (start_ok_bytes @ tune_ok_bytes)
       (fresh_world\<lparr>trackers := (\<lambda>_. new_tracker\<lparr>parser_state := WAITING_START_OK\<rparr>)\<rparr>) = (Inr (), w')
     \<and> buffer (trackers w' 0) = tune_ok_bytes"
  using pipelined_frame_waits [OF _ _ start_ok_bytes_read start_ok_args_login,
      of "fresh_world\<lparr>trackers := (\<lambda>_. new_tracker\<lparr>parser_state := WAITING_START_OK\<rparr>)\<rparr>" 0 id tune_ok_bytes]
  by (auto simp: new_tracker_def fresh_world_def init_state_def)

end
