(* ===== verification/Server.thy ===== *)
theory Server
  imports Delivery Contents Chunks
begin

text \<open>
  The whole server as a transition system: connections come, send bytes and go, and the other
  clients of the shared state publish, declare, inspect and reset. What is reachable from the start
  is well formed.
\<close>

section \<open>What publishing respects\<close>

lemma keeps_offer:
  "keeps (\<lambda>w. the_broker w = b \<and> trackers w = ts) (offer hdrs data is_binary e cs dt)"
proof (induction cs arbitrary: dt)
  case Nil
  show ?case unfolding offer.simps by (rule keeps_returnS)
next
  case (Cons x cs)
  obtain ct c where x: "x = (ct, c)" by (cases x)
  have "keeps (\<lambda>w. the_broker w = b \<and> trackers w = ts) randint"
    "keeps (\<lambda>w. the_broker w = b \<and> trackers w = ts) (on_transport (protocol c) m)" for m :: "(transport, unit) eff"
    by (simp_all add: keeps_def randint_def on_transport_apply)
  then show ?case
    unfolding x offer.simps by (intro keeps_rules Cons.IH)
qed

lemma keeps_deliver:
  assumes "\<And>q dead. keeps P (remove_consumers q dead)"
  shows "keeps (\<lambda>w. P (the_broker w) \<and> trackers w = ts) (deliver_to_queue hdrs data is_binary e q)"
proof -
  have offer: "keeps (\<lambda>w. P (the_broker w) \<and> trackers w = ts) (offer hdrs data is_binary e cs dt)" for cs dt
    using keeps_offer [of _ ts hdrs data is_binary e cs dt] by (auto simp: keeps_def)
  have "keeps (\<lambda>w. P (the_broker w) \<and> trackers w = ts) (on_broker (remove_consumers q dead))" for dead
    using assms by (simp add: keeps_def on_broker_apply)
  then show ?thesis
    unfolding deliver_to_queue_def by (intro keeps_rules offer)
qed

lemma keeps_publish:
  assumes "\<And>q dead. keeps P (remove_consumers q dead)" and "\<And>m e. keeps P (append_to_exchange m e)"
  shows "keeps (\<lambda>w. P (the_broker w) \<and> trackers w = ts) (publish_message set_order e hdrs data is_binary)"
proof (rule keepsI)
  fix w :: world assume w: "P (the_broker w) \<and> trackers w = ts"
  have a: "keeps (\<lambda>w. P (the_broker w) \<and> trackers w = ts) (on_broker (append_to_exchange m e))" for m
    using assms(2) by (simp add: keeps_def on_broker_apply)
  have "keeps (\<lambda>w. P (the_broker w) \<and> trackers w = ts) (case qs of [] \<Rightarrow> returnS None
      | q # _ \<Rightarrow> deliver_to_queue hdrs data is_binary e q)" for qs
    by (cases qs) (simp_all add: keeps_returnS keeps_deliver [OF assms(1)])
  then have "keeps (\<lambda>w. P (the_broker w) \<and> trackers w = ts)
     (thenS (on_broker (append_to_exchange \<lparr>stored_headers = hdrs, stored_body = data\<rparr> e))
       (bindS (getS (\<lambda>w. set_order (bound_queues (the_broker w) e))) (\<lambda>qs.
          case qs of [] \<Rightarrow> returnS None | q # _ \<Rightarrow> deliver_to_queue hdrs data is_binary e q)))"
    by (intro keeps_rules a)
  with w show "P (the_broker (snd (publish_message set_order e hdrs data is_binary w)))
     \<and> trackers (snd (publish_message set_order e hdrs data is_binary w)) = ts"
    by (simp add: keeps_def publish_message_def)
qed

lemma keeps_publish_in_queue:
  assumes "\<And>q dead. keeps P (remove_consumers q dead)" and "\<And>m q. keeps P (append_to_queue m q)"
  shows "keeps (\<lambda>w. P (the_broker w) \<and> trackers w = ts) (publish_message_in_queue q hdrs data is_binary)"
proof (rule keepsI)
  fix w :: world assume w: "P (the_broker w) \<and> trackers w = ts"
  have a: "keeps (\<lambda>w. P (the_broker w) \<and> trackers w = ts) (on_broker (append_to_queue m q))" for m
    using assms(2) by (simp add: keeps_def on_broker_apply)
  have "keeps (\<lambda>w. P (the_broker w) \<and> trackers w = ts)
     (thenS (on_broker (append_to_queue \<lparr>stored_headers = hdrs, stored_body = data\<rparr> q))
       (deliver_to_queue hdrs data is_binary (lit ''dummy-exchange'') q))"
    by (intro keeps_rules a keeps_deliver [OF assms(1)])
  with w show "P (the_broker (snd (publish_message_in_queue q hdrs data is_binary w)))
     \<and> trackers (snd (publish_message_in_queue q hdrs data is_binary w)) = ts"
    by (simp add: keeps_def publish_message_in_queue_def)
qed

section \<open>Steps of the server\<close>

text \<open>
  \<open>Lost\<close> is asyncio's: a connection that breaks is closing from then on. A connection's number is
  that of a protocol object, so a new one is of no registered consumer.
\<close>

definition fresh :: "nat \<Rightarrow> world \<Rightarrow> bool" where
  "fresh c w \<longleftrightarrow> (\<forall>q cs. consumer_list (the_broker w) q = Some cs \<longrightarrow> (\<forall>x\<in>set cs. protocol (snd x) \<noteq> c))"

inductive server_step ::
  "(pystr list \<Rightarrow> pystr list) \<Rightarrow> pystr \<Rightarrow> pystr \<Rightarrow> world \<Rightarrow> world \<Rightarrow> bool"
  for set_order user password where
  Connect: "fresh c w \<Longrightarrow> server_step set_order user password w (connection_made c w)"
| Receive: "data_received set_order c data w = (r, w') \<Longrightarrow> server_step set_order user password w w'"
| Lost: "server_step set_order user password w
     (w\<lparr>transports := (transports w)(c := (transports w c)\<lparr>is_closing := True\<rparr>)\<rparr>)"
| Publish: "publish_message set_order e hdrs data is_binary w = (r, w') \<Longrightarrow>
     server_step set_order user password w w'"
| Publish_In_Queue: "publish_message_in_queue q hdrs data is_binary w = (r, w') \<Longrightarrow>
     server_step set_order user password w w'"
| Create_Exchange: "on_broker (declare_exchange n ty) w = (r, w') \<Longrightarrow>
     server_step set_order user password w w'"
| Create_Queue: "on_broker (declare_queue q) w = (r', w') \<Longrightarrow> server_step set_order user password w w'"
| Delete_Queue_Messages: "on_broker (delete_messages_of_queue q) w = (r'', w') \<Longrightarrow>
     server_step set_order user password w w'"
| Delete_Exchange_Messages: "on_broker (delete_messages_of_exchange e) w = (r'', w') \<Longrightarrow>
     server_step set_order user password w w'"
| Flush: "on_broker (reset user password) w = (r'', w') \<Longrightarrow> server_step set_order user password w w'"

inductive_cases server_stepE: "server_step set_order user password w w'"

definition initial_world :: "pystr \<Rightarrow> pystr \<Rightarrow> (nat \<Rightarrow> int) \<Rightarrow> world" where
  \<comment> \<open>\<open>_main\<close>: one \<open>State\<close>, no connection yet\<close>
  "initial_world user password ds =
     \<lparr>the_broker = init_state user password, trackers = (\<lambda>_. new_tracker),
      transports = (\<lambda>_. new_transport), draws = ds\<rparr>"

inductive reachable ::
  "(pystr list \<Rightarrow> pystr list) \<Rightarrow> pystr \<Rightarrow> pystr \<Rightarrow> (nat \<Rightarrow> int) \<Rightarrow> world \<Rightarrow> bool"
  for set_order user password ds where
  Start: "reachable set_order user password ds (initial_world user password ds)"
| Step: "reachable set_order user password ds w \<Longrightarrow> server_step set_order user password w w' \<Longrightarrow>
     reachable set_order user password ds w'"

definition server_ok :: "world \<Rightarrow> bool" where
  "server_ok w \<longleftrightarrow> broker_ok (the_broker w) \<and> consumers_ok (the_broker w)
     \<and> (\<forall>c. tracker_ok (trackers w c) \<and> parser_state (trackers w c) \<le> OPENED)"

definition state_ok :: "broker \<Rightarrow> bool" where
  "state_ok b \<longleftrightarrow> broker_ok b \<and> consumers_ok b"

lemma delete_views:
  "type_of (snd (delete_messages_of_queue q b)) = type_of b"
  "bound_queues (snd (delete_messages_of_queue q b)) = bound_queues b"
  "consumer_list (snd (delete_messages_of_queue q b)) = consumer_list b"
  "queue_log (snd (delete_messages_of_queue q b)) = (queue_log b)(q := map_option (\<lambda>_. []) (queue_log b q))"
  "type_of (snd (delete_messages_of_exchange e b)) = type_of b"
  "bound_queues (snd (delete_messages_of_exchange e b)) = bound_queues b"
  "consumer_list (snd (delete_messages_of_exchange e b)) = consumer_list b"
  "queue_log (snd (delete_messages_of_exchange e b)) = queue_log b"
  "exchange_log (snd (delete_messages_of_queue q b)) = exchange_log b"
  "exchange_log (snd (delete_messages_of_exchange e b)) = (exchange_log b)(e := map_option (\<lambda>_. []) (exchange_log b e))"
  by (auto simp: delete_messages_of_queue_def delete_messages_of_exchange_def view_defs
      consumer_list_def AList.update_conv' fun_eq_iff split: option.split)

lemma distinct_fold_delete: "distinct (map fst cs) \<Longrightarrow> distinct (map fst (fold AList.delete ks cs))"
  by (induction ks arbitrary: cs) (simp_all add: distinct_delete)

lemma reset_state: "snd (reset user password b) = init_state user password"
  by (simp add: reset_def init_state_def)

lemma keeps_state_ok:
  "keeps state_ok (declare_exchange n ty)" "keeps state_ok (declare_queue q)"
  "keeps state_ok (delete_messages_of_queue q)" "keeps state_ok (delete_messages_of_exchange e)"
  "keeps state_ok (reset user password)" "keeps state_ok (remove_consumers q dead)"
  "keeps state_ok (append_to_exchange m e)" "keeps state_ok (append_to_queue m q)"
proof -
  show "keeps state_ok (reset user password)"
    by (simp add: keeps_def reset_state state_ok_def init_state_ok)
      (simp add: consumers_ok_def init_state_def)
  show "keeps state_ok (remove_consumers q dead)"
    by (auto simp: keeps_def state_ok_def broker_ok_iff consumers_ok_iff remove_consumers_view
        distinct_fold_delete split: if_splits)
  show "keeps state_ok (delete_messages_of_queue q)" "keeps state_ok (delete_messages_of_exchange e)"
    by (auto simp: keeps_def state_ok_def broker_ok_iff consumers_ok_iff delete_views)
  show "keeps state_ok (declare_exchange n ty)" "keeps state_ok (declare_queue q)"
    using keeps_broker_ok(2,3) tags.keeps_declare_exchange tags.keeps_declare_queue
    by (simp_all add: keeps_def state_ok_def)
  show "keeps state_ok (append_to_exchange m e)" "keeps state_ok (append_to_queue m q)"
    using keeps_broker_ok(6,7) by (simp_all add: keeps_def state_ok_def consumers_ok_iff consumer_list_view)
qed

lemma server_ok_state:
  "server_ok w \<longleftrightarrow> state_ok (the_broker w) \<and> (\<forall>c. tracker_ok (trackers w c) \<and> parser_state (trackers w c) \<le> OPENED)"
  by (auto simp: server_ok_def state_ok_def)

lemma broker_call_ok:
  "keeps state_ok m \<Longrightarrow> on_broker m w = (r, w') \<Longrightarrow> server_ok w \<Longrightarrow> server_ok w'"
  by (auto simp: server_ok_state on_broker_def keeps_def split: prod.splits)

lemma receive_ok:
  assumes ok: "server_ok w" and order: "\<forall>xs. mset (set_order xs) = mset xs"
    and run: "data_received set_order me data w = (r, w')"
  shows "server_ok w'"
proof -
  have "connection_ok me w" using ok by (simp add: server_ok_def connection_ok_def)
  from data_received_ok [OF this order, of data] run
  have "broker_ok (the_broker w')" "tracker_ok (trackers w' me)" by (simp_all add: connection_ok_def)
  moreover have "consumers_ok (the_broker w')"
    using keepsD [OF tags.connected.keeps_data_received, of w set_order me data] ok run
    by (simp add: server_ok_def)
  moreover have "parser_state (trackers w' me) \<le> OPENED"
    using keepsD [OF known.keeps_data_received [of me set_order data], of w] ok run
    by (simp add: server_ok_def)
  moreover have "trackers w' c = trackers w c" if "c \<noteq> me" for c
    using keepsD [OF elsewhere.keeps_data_received [of c me "trackers w c" "transports w c"], of w set_order data] that run
    by simp
  ultimately show ?thesis using ok unfolding server_ok_def by metis
qed

lemma server_step_ok:
  assumes "server_step set_order user password w w'" and order: "\<forall>xs. mset (set_order xs) = mset xs"
    and ok: "server_ok w"
  shows "server_ok w'"
  using assms(1)
proof cases
  case (Connect c)
  with ok show ?thesis
    by (simp add: connection_made_def server_ok_def new_tracker_ok) (simp add: new_tracker_def connection_state_order)
next
  case (Receive c data r)
  with receive_ok [OF ok order] show ?thesis by blast
next
  case (Publish e hdrs data is_binary r)
  with keepsD [OF keeps_publish [of state_ok "trackers w", OF keeps_state_ok(6,7)], of w set_order e hdrs data is_binary] ok show ?thesis
    by (auto simp: server_ok_state) 
next
  case (Publish_In_Queue q hdrs data is_binary r)
  with keepsD [OF keeps_publish_in_queue [of state_ok "trackers w", OF keeps_state_ok(6,8)], of w q hdrs data is_binary] ok show ?thesis
    by (auto simp: server_ok_state)
next
  case (Lost c)
  with ok show ?thesis by (simp add: server_ok_def)
next
  case (Create_Exchange n ty r)
  from broker_call_ok [OF keeps_state_ok(1) this ok] show ?thesis .
next
  case (Create_Queue q r')
  from broker_call_ok [OF keeps_state_ok(2) this ok] show ?thesis .
next
  case (Delete_Queue_Messages q r'')
  from broker_call_ok [OF keeps_state_ok(3) this ok] show ?thesis .
next
  case (Delete_Exchange_Messages e r'')
  from broker_call_ok [OF keeps_state_ok(4) this ok] show ?thesis .
next
  case (Flush r'')
  from broker_call_ok [OF keeps_state_ok(5) this ok] show ?thesis .
qed

lemma reachable_ok:
  assumes "reachable set_order user password ds w" and order: "\<forall>xs. mset (set_order xs) = mset xs"
  shows "server_ok w"
  using assms(1)
proof induction
  case Start
  have "consumers_ok (init_state user password)" by (simp add: consumers_ok_def init_state_def)
  then show ?case
    by (simp add: server_ok_def initial_world_def init_state_ok new_tracker_ok)
      (simp add: new_tracker_def connection_state_order)
next
  case (Step w w')
  then show ?case using server_step_ok [OF _ order] by blast
qed

end
