(* ===== verification/Frame_Runs.thy ===== *)
theory Frame_Runs
  imports Streams
begin

text \<open>
  The loop over the buffer, told without the buffer: the frames that the bytes hold, and their
  treatment one after the other, up to the first that ends it.
\<close>

section \<open>The frames in some bytes\<close>

function frames_of :: "bytes \<Rightarrow> frame list" where
  "frames_of bs =
     (case read_frame bs of
        Inr (Some f) \<Rightarrow> f # frames_of (drop (frame_size f) bs)
      | _ \<Rightarrow> [])"
  by pat_completeness auto
termination
proof (relation "measure length")
  fix bs x f assume "read_frame bs = Inr x" and "x = Some f"
  with read_frame_Some(2,3) [of bs f] show "(drop (frame_size f) bs, bs) \<in> measure length" by simp
qed simp

function rest_of :: "bytes \<Rightarrow> bytes" where
  \<comment> \<open>what is behind them: nothing, or bytes with no frame at their head\<close>
  "rest_of bs =
     (case read_frame bs of
        Inr (Some f) \<Rightarrow> rest_of (drop (frame_size f) bs)
      | _ \<Rightarrow> bs)"
  by pat_completeness auto
termination
proof (relation "measure length")
  fix bs x f assume "read_frame bs = Inr x" and "x = Some f"
  with read_frame_Some(2,3) [of bs f] show "(drop (frame_size f) bs, bs) \<in> measure length" by simp
qed simp

declare frames_of.simps [simp del] rest_of.simps [simp del]

lemma frames_step:
  "read_frame bs = Inr (Some f) \<Longrightarrow> frames_of bs = f # frames_of (drop (frame_size f) bs)"
  "read_frame bs = Inr (Some f) \<Longrightarrow> rest_of bs = rest_of (drop (frame_size f) bs)"
  by (simp_all add: frames_of.simps [of bs] rest_of.simps [of bs])

lemma no_frames:
  "(\<nexists>f. read_frame bs = Inr (Some f)) \<Longrightarrow> frames_of bs = []"
  "(\<nexists>f. read_frame bs = Inr (Some f)) \<Longrightarrow> rest_of bs = bs"
  by (simp_all add: frames_of.simps [of bs] rest_of.simps [of bs] split: sum.split option.split)

lemma rest_of_no_frame: "read_frame (rest_of bs) \<noteq> Inr (Some f)"
proof (induction bs rule: rest_of.induct)
  case (1 bs)
  then show ?case
    by (cases "\<exists>g. read_frame bs = Inr (Some g)") (auto simp: frames_step no_frames)
qed

lemma frames_of_ok: "f \<in> set (frames_of bs) \<Longrightarrow> frame_ok f"
proof (induction bs rule: frames_of.induct)
  case (1 bs)
  show ?case
  proof (cases "\<exists>g. read_frame bs = Inr (Some g)")
    case True
    then obtain g where g: "read_frame bs = Inr (Some g)" by blast
    with "1.prems" have "f = g \<or> f \<in> set (frames_of (drop (frame_size g) bs))" by (simp add: frames_step)
    with "1.IH" g read_frame_ok show ?thesis by blast
  qed (use "1.prems" no_frames in auto)
qed

section \<open>Frame after frame\<close>

fun treat_each :: "(pystr list \<Rightarrow> pystr list) \<Rightarrow> nat \<Rightarrow> frame list \<Rightarrow> (world, bool) eff" where
  \<comment> \<open>True when the last one has been treated, False when one of them ends the loop\<close>
  "treat_each set_order me [] = returnS True"
| "treat_each set_order me (f # fs) =
     bindS (on_frame set_order me f) (\<lambda>go_on.
       if go_on then treat_each set_order me fs else returnS False)"

lemma treat_each_fails:
  assumes "treat_each set_order me fs w = (Inl e, w')"
  obtains before f after w1 where "fs = before @ f # after"
    and "treat_each set_order me before w = (Inr True, w1)" and "on_frame set_order me f w1 = (Inl e, w')"
  using assms
proof (induction fs arbitrary: w thesis)
  case Nil
  then show ?case by simp
next
  case (Cons f fs)
  consider "on_frame set_order me f w = (Inl e, w')"
    | w1 where "on_frame set_order me f w = (Inr True, w1)" "treat_each set_order me fs w1 = (Inl e, w')"
    using Cons.prems(2) by (auto simp: bindS_def split: prod.splits sum.splits if_splits)
  then show ?case
  proof cases
    case 1
    with Cons.prems(1) [of "[]" f fs w] show ?thesis by simp
  next
    case 2
    from Cons.IH [OF _ 2(2)] obtain before g after w2 where "fs = before @ g # after"
      "treat_each set_order me before w1 = (Inr True, w2)" "on_frame set_order me g w2 = (Inl e, w')" by blast
    with Cons.prems(1) [of "f # before" g after w2] 2(1) show ?thesis by (simp add: bindS_apply)
  qed
qed

context handler_invariant
begin

lemma keeps_treat_each: "keeps Q (treat_each set_order me fs)"
  by (induction fs) (unfold treat_each.simps, intro keeps_rules keeps_on_frame, intro keeps_rules keeps_on_frame)

end

lemma treat_each_ok:
  assumes "connection_ok me w" and "\<forall>f\<in>set fs. frame_ok f" and order: "\<forall>xs. mset (set_order xs) = mset xs"
    and "treat_each set_order me fs w = (r, w')"
  shows "connection_ok me w'"
  using assms(1,2,4)
proof (induction fs arbitrary: w)
  case (Cons f fs)
  obtain r0 w0 where f: "on_frame set_order me f w = (r0, w0)" by fastforce
  have ok: "connection_ok me w0" using on_frame_ok(1) [OF Cons.prems(1) _ order f] Cons.prems(2) by simp
  from Cons.prems(3) f have "w' = w0 \<or> treat_each set_order me fs w0 = (r, w')"
    by (auto simp: bindS_def split: sum.splits if_splits)
  with ok Cons.IH [OF ok] Cons.prems(2) show ?case by auto
qed simp

text \<open>A frame that ends the loop past \<open>start-ok\<close> has closed the transport.\<close>

lemma treat_each_stops:
  assumes "treat_each set_order me fs w = (Inr False, w')" and "WAITING_TUNE_OK \<le> parser_state (trackers w me)"
  shows "is_closing (transports w' me)"
  using assms
proof (induction fs arbitrary: w)
  case (Cons f fs)
  obtain r0 w0 where f: "on_frame set_order me f w = (r0, w0)" by fastforce
  have "WAITING_TUNE_OK \<le> parser_state (trackers w0 me)"
    using keepsD [OF forward.keeps_on_frame Cons.prems(2), of set_order f] f by simp
  with Cons stop_closes [of set_order me f w w'] f show ?case
    by (auto simp: bindS_def split: sum.splits if_splits)
qed simp

text \<open>
  Past \<open>start-ok\<close> a frame fails for one reason only: it opens a channel whose number does not fit the
  byte that the reply has for it.
\<close>

lemma treat_each_error:
  assumes "connection_ok me w" and "\<forall>f\<in>set fs. frame_ok f" and order: "\<forall>xs. mset (set_order xs) = mset xs"
    and "WAITING_TUNE_OK \<le> parser_state (trackers w me)"
    and "treat_each set_order me fs w = (Inl e, w')"
  obtains before f after w1 where "fs = before @ f # after"
    and "treat_each set_order me before w = (Inr True, w1)" and "on_frame set_order me f w1 = (Inl e, w')"
    and "e = ValueError" and "256 \<le> channel_number f" and "is_method f CHANNEL_OPEN"
proof -
  from treat_each_fails [OF assms(5)] obtain before f after w1 where fs: "fs = before @ f # after"
    and run: "treat_each set_order me before w = (Inr True, w1)" and f: "on_frame set_order me f w1 = (Inl e, w')" .
  have "connection_ok me w1" using treat_each_ok [OF assms(1) _ order run] assms(2) fs by simp
  moreover have "WAITING_TUNE_OK \<le> parser_state (trackers w1 me)"
    using keepsD [OF forward.keeps_treat_each assms(4), of set_order before] run by simp
  ultimately show thesis
    using on_frame_ok(2) [OF _ _ order f _ refl] assms(2) fs that [OF fs run f] by simp
qed

section \<open>The loop treats them\<close>

interpretation rebuffered: frame_blind "\<lambda>t. t\<lparr>buffer := x\<rparr>"
  by unfold_locales simp_all

definition holding :: "nat \<Rightarrow> bytes \<Rightarrow> world \<Rightarrow> world" where
  \<comment> \<open>the world with these bytes in the connection's buffer\<close>
  "holding me x = change me (\<lambda>t. t\<lparr>buffer := x\<rparr>)"

lemma holding_simps [simp]:
  "buffer (trackers (holding me x w) me) = x" "the_broker (holding me x w) = the_broker w"
  "holding me y (holding me x w) = holding me y w"
  "channels (trackers (holding me x w) c) = channels (trackers w c)"
  "parser_state (trackers (holding me x w) c) = parser_state (trackers w c)"
  "transports (holding me x w) = transports w"
  by (simp_all add: holding_def change_def)

lemma holding_own: "holding me (buffer (trackers w me)) w = w"
  by (simp add: holding_def change_def)

lemma on_frame_holding: "on_frame set_order me f (holding me x w) =
    (fst (on_frame set_order me f w), holding me x (snd (on_frame set_order me f w)))"
  unfolding holding_def by (rule commutesD [OF rebuffered.commutes_on_frame])

lemma take_frame_holding: "take_frame me f w = holding me (drop (frame_size f) (buffer (trackers w me))) w"
  by (simp add: take_frame_def holding_def change_def)

lemma more_holding: "more me x w = holding me (buffer (trackers w me) @ x) w"
  by (simp add: more_def holding_def change_def)

lemma serve_step:
  "serve set_order me (holding me bs w) =
     (case read_frame bs of
        Inl e \<Rightarrow> (Inl e, holding me bs w)
      | Inr None \<Rightarrow> (Inr (), holding me bs w)
      | Inr (Some f) \<Rightarrow>
          (case on_frame set_order me f w of
             (Inl e, w1) \<Rightarrow> (Inl e, holding me (drop (frame_size f) bs) w1)
           | (Inr go_on, w1) \<Rightarrow>
               if go_on then serve set_order me (holding me (drop (frame_size f) bs) w1)
               else (Inr (), holding me (drop (frame_size f) bs) w1)))"
proof -
  have "read_frame [] = Inr None" by (simp add: read_frame_alt frame_head_def unpack_BHL_def)
  then show ?thesis
    by (subst serve.simps)
      (auto simp: take_frame_holding on_frame_holding split: sum.splits option.splits prod.splits bool.splits)
qed

lemma serve_treats_each:
  "case treat_each set_order me (frames_of bs) w of
     (Inr True, w1) \<Rightarrow> serve set_order me (holding me bs w)
        = (case read_frame (rest_of bs) of Inl e \<Rightarrow> Inl e | Inr _ \<Rightarrow> Inr (), holding me (rest_of bs) w1)
   | (Inr False, w1) \<Rightarrow> \<exists>x. serve set_order me (holding me bs w) = (Inr (), holding me x w1)
   | (Inl e, w1) \<Rightarrow> \<exists>x. serve set_order me (holding me bs w) = (Inl e, holding me x w1)"
proof (induction bs arbitrary: w rule: frames_of.induct)
  case (1 bs)
  show ?case
  proof (cases "\<exists>f. read_frame bs = Inr (Some f)")
    case False
    then show ?thesis
      by (auto simp: no_frames serve_step [of set_order me bs] split: sum.split option.split)
  next
    case True
    then obtain f where f: "read_frame bs = Inr (Some f)" by blast
    obtain r w1 where r: "on_frame set_order me f w = (r, w1)" by fastforce
    from "1.IH" [OF f refl, of w1] show ?thesis
      by (cases r) (auto simp: serve_step [of set_order me bs] f r frames_step bindS_apply
          split: if_splits prod.splits sum.splits bool.splits)
  qed
qed

lemma data_received_treats_each:
  assumes "parser_state (trackers w me) \<noteq> WAITING_PROTOCOL_HEADER"
    and "data_received set_order me data w = (r, w')"
  obtains (all) w1 where
      "treat_each set_order me (frames_of (buffer (trackers w me) @ data)) w = (Inr True, w1)"
      "r = (case read_frame (rest_of (buffer (trackers w me) @ data)) of Inl e \<Rightarrow> Inl e | Inr _ \<Rightarrow> Inr ())"
      "w' = holding me (rest_of (buffer (trackers w me) @ data)) w1"
  | (ended) w1 x where
      "treat_each set_order me (frames_of (buffer (trackers w me) @ data)) w = (Inr False, w1)"
      "r = Inr ()" "w' = holding me x w1"
  | (failed) e w1 x where
      "treat_each set_order me (frames_of (buffer (trackers w me) @ data)) w = (Inl e, w1)"
      "r = Inl e" "w' = holding me x w1"
proof -
  let ?bs = "buffer (trackers w me) @ data"
  obtain t w1 where t: "treat_each set_order me (frames_of ?bs) w = (t, w1)" by fastforce
  have run: "serve set_order me (holding me ?bs w) = (r, w')"
    using assms by (simp add: data_received_more more_holding)
  consider "t = Inr True" | "t = Inr False" | e where "t = Inl e" by (cases t) auto
  then show thesis
    using serve_treats_each [of set_order me ?bs w] t run that by cases auto
qed

end
