(* ===== verification/Traffic_Properties.thy ===== *)
theory Traffic_Properties
  imports Connection_Properties Server Frame_Runs
begin

text \<open>
  What holds of everything a connection receives: that the cutting of the input does not matter, how
  far it is read, what it cannot touch, and how it fails.
\<close>

section \<open>The input\<close>

text \<open>C11: How the input is cut into pieces does not matter: once the handshake has started, receiving
  two pieces leaves the same world, and gives the same outcome, as receiving them at once, provided
  that the first one is treated without an exception, the transport is still open after it and no
  complete frame is left behind.\<close>

theorem cutting_does_not_matter:
  assumes "WAITING_TUNE_OK \<le> parser_state (trackers w me)"
    and "data_received set_order me data1 w = (Inr (), w1)"
    and "\<not> is_closing (transports w1 me)" and "\<not> complete_frame (buffer (trackers w1 me))"
  shows "data_received set_order me (data1 @ data2) w = data_received set_order me data2 w1"
proof -
  have st: "parser_state (trackers w me) \<noteq> WAITING_PROTOCOL_HEADER"
    using assms(1) by (auto simp: connection_state_order)
  have st1: "WAITING_TUNE_OK \<le> parser_state (trackers w1 me)"
    using keepsD [OF forward.keeps_data_received assms(1), of set_order data1] assms(2) by simp
  have m: "WAITING_TUNE_OK \<le> parser_state (trackers (more me data1 w) me)"
    using assms(1) by (simp add: more_def change_def)
  have "serve set_order me (more me data1 w) = (Inr (), w1)"
    using assms(2) data_received_more [OF st, of set_order data1] by simp
  note cut = serve_more [OF this assms(3,4) m, of data2]
  have "parser_state (trackers w1 me) \<noteq> WAITING_PROTOCOL_HEADER"
    using st1 by (auto simp: connection_state_order)
  with cut st show ?thesis by (simp add: data_received_more more_more)
qed

theorem cutting_does_not_matter_witness:
  "data_received id 0 ([8, 0, 0, 0] @ [0, 0, 0, 0xCE]) open_world
   = data_received id 0 [0, 0, 0, 0xCE] (more 0 [8, 0, 0, 0] open_world)"
proof -
  let ?w1 = "more 0 [8, 0, 0, 0] open_world"
  have b: "buffer (trackers ?w1 0) = [8, 0, 0, 0]" by simp
  have rf: "read_frame [8, 0, 0, 0] = Inr None" "\<not> complete_frame [8, 0, 0, 0]"
    by (simp_all add: read_frame_def complete_frame_def frame_length_def frame_head_def unpack_BHL_def
        unpack_B_def unpack_H_def unpack_I_def unpack_u_def py_slice_def)
  have run: "data_received id 0 [8, 0, 0, 0] open_world = (Inr (), ?w1)"
    using rf(1) b by (subst data_received_more, simp) (subst serve.simps, simp)
  have "WAITING_TUNE_OK \<le> parser_state (trackers open_world 0)" by (simp add: connection_state_order)
  moreover have "\<not> is_closing (transports ?w1 0)" by (simp add: more_def change_def new_transport_def)
  ultimately show ?thesis
    using cutting_does_not_matter [OF _ run, of "[0, 0, 0, 0xCE]"] rf(2) b by simp
qed

text \<open>C21: When \<open>data_received\<close> returns and the transport is still open, every frame of the input has been
  treated, in its order: the world is the one that handling the frames in the buffer and the new bytes one
  after the other leads to, with none of them refused, and what stays in the buffer is what is behind the
  last of them, with no frame at its head.\<close>

theorem every_frame_treated:
  assumes "WAITING_TUNE_OK \<le> parser_state (trackers w me)"
    and "data_received set_order me data w = (Inr (), w')" and "\<not> is_closing (transports w' me)"
  shows "\<exists>w1. treat_each set_order me (frames_of (buffer (trackers w me) @ data)) w = (Inr True, w1)
    \<and> w' = holding me (rest_of (buffer (trackers w me) @ data)) w1
    \<and> read_frame (rest_of (buffer (trackers w me) @ data)) = Inr None"
proof -
  have st: "parser_state (trackers w me) \<noteq> WAITING_PROTOCOL_HEADER"
    using assms(1) by (auto simp: connection_state_order)
  from st assms(2) show ?thesis
  proof (cases rule: data_received_treats_each)
    case (all w1)
    from all(2) have "read_frame (rest_of (buffer (trackers w me) @ data)) = Inr None"
      using rest_of_no_frame [of "buffer (trackers w me) @ data"] by (auto split: sum.splits)
    with all show ?thesis by blast
  next
    case (ended w1 x)
    with treat_each_stops [OF ended(1) assms(1)] assms(3) show ?thesis by simp
  qed simp
qed

theorem every_frame_treated_witness:
  "\<exists>w1. treat_each id 0 (frames_of (concat [publish_bytes, header_bytes 1, frame_bytes 3 1 [104]])) open_world = (Inr True, w1)
     \<and> c_queue (contract_of (the_broker w1)) (lit ''q'') = Some [\<lparr>stored_headers = PDict [], stored_body = PBytes [104]\<rparr>]"
proof -
  let ?bss = "[publish_bytes, header_bytes 1, frame_bytes 3 1 [104]]"
  let ?m = "\<lparr>stored_headers = PDict [], stored_body = PBytes [104]\<rparr>"
  have bytes: "list_all2 reads_as ?bss (publication 1 17 22 publish_args [] [(9, [104])])"
    using publish_bytes_read header_bytes_read [of 1] body_bytes_read [of "[104]"]
    by (simp add: publication_def)
  have args: "get_str publish_args ''exchange-name'' = Inr []" "get_str publish_args ''routing-key'' = Inr []"
    by (simp_all add: publish_args_def get_str_def py_get_def)
  from publication_received [of open_world 0 1 open_channel id, OF _ _ _ _ _ _ _ args _ _ _ bytes] open_world_broker
  obtain w' where run: "data_received id 0 (concat ?bss) open_world = (Inr (), w')"
    and c: "contract_of (the_broker w') = c_store [] ?m (contract_of (the_broker open_world))"
    and t: "transports w' = transports open_world" by auto
  have "WAITING_TUNE_OK \<le> parser_state (trackers open_world 0)" by (simp add: connection_state_order)
  moreover have "\<not> is_closing (transports w' 0)" by (simp add: t new_transport_def)
  moreover have "lit ''q'' \<in> set (bound_queues (the_broker open_world) [])"
      "queue_log (the_broker open_world) (lit ''q'') = Some []" "type_of (the_broker open_world) [] \<noteq> None"
    by (simp_all add: open_world_def declare_queue_view)
      (simp_all add: init_state_def view_defs set_add_def new_exchange_def)
  ultimately show ?thesis
    using every_frame_treated [OF _ run] c by (auto simp: c_store_def contract_of_def)
qed

text \<open>C34: A complete frame of an unknown type is never removed from the buffer: whatever the
  connection receives from then on, it only makes the buffer grow, and nothing else happens.\<close>

theorem unknown_frame_blocks_connection:
  assumes "parser_state (trackers w me) \<noteq> WAITING_PROTOCOL_HEADER"
    and "complete_frame (buffer (trackers w me))" and "read_frame (buffer (trackers w me)) = Inr None"
  shows "receive_all set_order me datas w = (Inr (), more me (concat datas) w)"
  using assms
proof (induction datas arbitrary: w)
  case Nil
  then show ?case by simp
next
  case (Cons d ds)
  let ?w = "more me d w"
  from complete_frame_append [OF Cons.prems(2), of d] Cons.prems(3)
  have c: "complete_frame (buffer (trackers ?w me))" "read_frame (buffer (trackers ?w me)) = Inr None"
    by simp_all
  have "parser_state (trackers ?w me) \<noteq> WAITING_PROTOCOL_HEADER"
    using Cons.prems(1) by (simp add: more_def change_def)
  note ih = Cons.IH [OF this c]
  have "data_received set_order me d w = (Inr (), ?w)"
    using c(2) by (subst data_received_more [OF Cons.prems(1)]) (subst serve.simps, simp)
  with ih show ?case by (simp add: bindS_Inr more_more)
qed

theorem unknown_frame_blocks_connection_witness:
  "receive_all id 0 [[8, 0, 0, 0, 0, 0, 0, 0xCE], publish_bytes]
     (more 0 [9, 0, 0, 0, 0, 0, 0, 0xCE] open_world)
   = (Inr (), more 0 ([8, 0, 0, 0, 0, 0, 0, 0xCE] @ publish_bytes) (more 0 [9, 0, 0, 0, 0, 0, 0, 0xCE] open_world))"
proof -
  let ?d = "[9, 0, 0, 0, 0, 0, 0, 0xCE] :: bytes"
  have "read_frame ?d = Inr None" "complete_frame ?d"
    by (simp_all add: read_frame_def build_frame_def frame_consts complete_frame_def frame_length_def
        frame_head_def unpack_BHL_def unpack_B_def unpack_H_def unpack_I_def unpack_u_def py_slice_def)
  moreover have "parser_state (trackers (more 0 ?d open_world) 0) \<noteq> WAITING_PROTOCOL_HEADER"
    by (simp add: more_def change_def)
  ultimately show ?thesis
    using unknown_frame_blocks_connection [of "more 0 ?d open_world" 0 id
        "[[8, 0, 0, 0, 0, 0, 0, 0xCE], publish_bytes]"] by simp
qed

section \<open>What a connection cannot do\<close>

text \<open>C25: Whatever a connection receives, the tracker and the transport of every other connection stay
  as they are, and its own parser state never goes back.\<close>

theorem connection_confined:
  assumes "other \<noteq> me" and "data_received set_order me data w = (r, w')"
  shows "trackers w' other = trackers w other \<and> transports w' other = transports w other
    \<and> parser_state (trackers w me) \<le> parser_state (trackers w' me)"
  using keepsD [OF elsewhere.keeps_data_received [of other me "trackers w other" "transports w other"], of w set_order data]
    keepsD [OF forward.keeps_data_received [of "parser_state (trackers w me)" me set_order data], of w] assms
  by auto

theorem connection_confined_witness:
  "trackers (snd (data_received id 0 [1, 2, 3] open_world)) 7 = new_tracker"
  using connection_confined [of 7 0 id "[1, 2, 3]" open_world "fst (data_received id 0 [1, 2, 3] open_world)"
      "snd (data_received id 0 [1, 2, 3] open_world)"]
  by (simp add: open_world_def)

text \<open>C26: Nothing that arrives over AMQP removes an exchange, changes its type, or unbinds a queue from
  it, and the table of users stays as it is.\<close>

theorem declarations_survive_traffic:
  assumes "type_of (the_broker w) e = Some ty" and "q \<in> set (bound_queues (the_broker w) e)"
    and "data_received set_order me data w = (r, w')"
  shows "type_of (the_broker w') e = Some ty \<and> q \<in> set (bound_queues (the_broker w') e)
    \<and> users (the_broker w') = users (the_broker w)"
  using keepsD [OF typed.connected.keeps_data_received [of e ty set_order me data], of w]
    keepsD [OF binding.connected.keeps_data_received [of e q set_order me data], of w]
    keepsD [OF accounts.connected.keeps_data_received [of "users (the_broker w)" set_order me data], of w] assms
  by (simp add: has_type_def binds_def)

theorem declarations_survive_traffic_witness:
  "lit ''q'' \<in> set (bound_queues (the_broker (snd (data_received id 0 publish_bytes open_world))) [])"
proof -
  have "lit ''q'' \<in> set (bound_queues (the_broker open_world) [])"
    by (simp add: open_world_def declare_queue_view) (simp add: init_state_def view_defs set_add_def)
  with declarations_survive_traffic [OF open_world_broker(2) this, of id 0 publish_bytes
      "fst (data_received id 0 publish_bytes open_world)" "snd (data_received id 0 publish_bytes open_world)"]
  show ?thesis by simp
qed

text \<open>C35: Frames on a channel are treated alike in every state of the handshake, with the same outcome
  and the same effects: a client that has not logged in can declare, publish and consume.\<close>

theorem channel_frames_need_no_login:
  assumes "\<nexists>k. f = HeartBeat k" and "channel_number f \<noteq> 0"
  shows "on_frame set_order me f (change me (parser_state_update (\<lambda>_. s)) w) =
    (fst (on_frame set_order me f w), change me (parser_state_update (\<lambda>_. s)) (snd (on_frame set_order me f w)))"
  using commutesD [OF restated.commutes_channel_frame [OF assms, of me s set_order], of w] by simp

theorem channel_frames_need_no_login_witness:
  "fst (on_frame id 0 (MethodFrame 1 17 (id_of BASIC_PUBLISH) publish_args)
       (change 0 (parser_state_update (\<lambda>_. WAITING_START_OK)) open_world))
   = fst (on_frame id 0 (MethodFrame 1 17 (id_of BASIC_PUBLISH) publish_args) open_world)"
  by (simp add: channel_frames_need_no_login)

section \<open>How it fails\<close>

text \<open>C29: Past \<open>start-ok\<close>, \<open>data_received\<close> raises for two reasons only: the frame at the head of the buffer
  cannot be decoded, which gives the decoder's exception; or, with ValueError, the frames of the input are
  all treated up to one that opens a channel above 255, whose reply cannot be written. The broker and the
  channels are well formed after it all the same.\<close>

theorem errors_after_login:
  assumes "broker_ok (the_broker w)" and "tracker_ok (trackers w me)"
    and "\<forall>xs. mset (set_order xs) = mset xs"
    and "WAITING_TUNE_OK \<le> parser_state (trackers w me)"
    and "data_received set_order me data w = (Inl e, w')"
  shows "(read_frame (buffer (trackers w' me)) = Inl e
      \<or> e = ValueError \<and> (\<exists>before f after w1. frames_of (buffer (trackers w me) @ data) = before @ f # after
          \<and> treat_each set_order me before w = (Inr True, w1) \<and> fst (on_frame set_order me f w1) = Inl ValueError
          \<and> is_method f CHANNEL_OPEN \<and> 256 \<le> channel_number f))
    \<and> broker_ok (the_broker w') \<and> tracker_ok (trackers w' me)"
proof -
  have ok: "connection_ok me w" using assms(1,2) by (simp add: connection_ok_def)
  have st: "parser_state (trackers w me) \<noteq> WAITING_PROTOCOL_HEADER"
    using assms(4) by (auto simp: connection_state_order)
  have fs: "\<forall>f\<in>set (frames_of (buffer (trackers w me) @ data)). frame_ok f" using frames_of_ok by blast
  from data_received_ok [OF ok assms(3), of data] assms(5)
  have ok': "broker_ok (the_broker w') \<and> tracker_ok (trackers w' me)" by (simp add: connection_ok_def)
  from st assms(5) show ?thesis
  proof (cases rule: data_received_treats_each)
    case (all w1)
    then have "read_frame (buffer (trackers w' me)) = Inl e" by (auto split: sum.splits)
    with ok' show ?thesis by blast
  next
    case (failed e' w1 x)
    then have f: "treat_each set_order me (frames_of (buffer (trackers w me) @ data)) w = (Inl e, w1)" by simp
    from treat_each_error [OF ok fs assms(3,4) f] ok' show ?thesis
      by (metis fst_conv)
  qed simp
qed

text \<open>Both happen.\<close>

definition open_256_bytes :: bytes where
  \<comment> \<open>\<open>channel.open\<close> on channel 256\<close>
  "open_256_bytes = frame_bytes 1 256 [0, 20, 0, 10, 0]"

lemma open_256_read: "\<exists>d. reads_as open_256_bytes (MethodFrame 256 13 (id_of CHANNEL_OPEN) d)"
  unfolding open_256_bytes_def
  by (intro exI reads_as_frame_bytes)
    (simp_all add: build_frame_def frame_consts new_method_def unpack_I_def unpack_u_def py_slice_def
      id_of.simps decode_method_def decode_channel_open_def decode_args_def loads_def loads_field_def
      unpack_B_def idx_def ord_at_def utf8_decode_Nil)

lemma open_world_tracker: "tracker_ok (trackers open_world 0)"
  by (simp add: open_world_def tracker_ok_def channel_ok_def open_channel_def)

lemma open_256_raises:
  obtains w' where "data_received id 0 open_256_bytes open_world = (Inl ValueError, w')" and "buffer (trackers w' 0) = []"
proof -
  obtain d where d: "reads_as open_256_bytes (MethodFrame 256 13 (id_of CHANNEL_OPEN) d)"
    using open_256_read by blast
  let ?f = "MethodFrame 256 13 (id_of CHANNEL_OPEN) d"
  obtain ch w1 where u: "upsert_channel 0 256 open_world = (Inr (), w1)"
    and ch: "map_of (channels (trackers w1 0)) (channel_number ?f) = Some ch" and ok: "tracker_ok (trackers w1 0)"
    using upsert_channel_run [OF open_world_tracker, of 256] by (metis frame.sel(1))
  from treat_channel_frame_refused [OF ch ok, of id]
  have "treat_channel_frame id 0 ?f w1 = (Inl ValueError, w1)" by (simp add: is_method_def)
  with u have run: "on_frame id 0 ?f open_world = (Inl ValueError, w1)"
    by (simp add: on_frame_def bindS_apply)
  then have "buffer (trackers w1 0) = []" using on_frame_buffer [of id 0 ?f open_world] by simp
  moreover from serve_frame [OF d _ run, of "[]"] have "data_received id 0 open_256_bytes open_world = (Inl ValueError, w1)"
    by (simp add: data_received_more)
  ultimately show thesis using that by blast
qed

theorem errors_after_login_witness:
  "(\<exists>w'. data_received id 0 [3, 0, 1, 0, 0, 0, 0, 0] open_world = (Inl InvalidFrameError, w')
      \<and> read_frame (buffer (trackers w' 0)) = Inl InvalidFrameError \<and> broker_ok (the_broker w'))
   \<and> (\<exists>before f after. frames_of open_256_bytes = before @ f # after
      \<and> is_method f CHANNEL_OPEN \<and> 256 \<le> channel_number f)"
proof
  let ?d = "[3, 0, 1, 0, 0, 0, 0, 0] :: bytes"
  have st: "WAITING_TUNE_OK \<le> parser_state (trackers open_world 0)" by (simp add: connection_state_order)
  have "read_frame ?d = Inl InvalidFrameError"
    by (simp add: read_frame_def frame_consts unpack_BHL_def unpack_B_def unpack_H_def unpack_I_def
        unpack_u_def py_slice_def)
  then have run: "data_received id 0 ?d open_world = (Inl InvalidFrameError, more 0 ?d open_world)"
    by (subst data_received_more, simp) (subst serve.simps, simp)
  from errors_after_login [OF open_world_broker(1) open_world_tracker _ st run] run
  show "\<exists>w'. data_received id 0 ?d open_world = (Inl InvalidFrameError, w')
      \<and> read_frame (buffer (trackers w' 0)) = Inl InvalidFrameError \<and> broker_ok (the_broker w')" by simp
  obtain w' where w': "data_received id 0 open_256_bytes open_world = (Inl ValueError, w')" "buffer (trackers w' 0) = []"
    by (rule open_256_raises)
  have "read_frame [] \<noteq> Inl ValueError" by (simp add: read_frame_alt frame_head_def unpack_BHL_def)
  with errors_after_login [OF open_world_broker(1) open_world_tracker _ st w'(1)] w'(2)
  show "\<exists>before f after. frames_of open_256_bytes = before @ f # after
      \<and> is_method f CHANNEL_OPEN \<and> 256 \<le> channel_number f" by auto
qed

text \<open>Redeclaring an exchange with another type closes the connection, and is answered with
  \<open>declare-ok\<close> all the same, after the close.\<close>

lemma conflicting_declaration_answered:
  assumes "channel_at w me n = Some ch" and "ch_state ch = CH_OPENED" and "sendable_on n"
    and "get_str d ''exchange-name'' = Inr e" and "get_str d ''type'' = Inr ty'"
    and "type_of (the_broker w) e = Some ty" and "ty' \<noteq> ty"
  shows "\<exists>t'. channel_frame set_order me (MethodFrame n sz (id_of EXCHANGE_DECLARE) d) w
      = (Inr (), w\<lparr>transports := (transports w)(me := t')\<rparr>)
    \<and> is_closing t' \<and> sends (frame_bytes 1 n [0, 40, 0, 11]) (snd (transport_close (transports w me))) t'"
proof -
  let ?t = "snd (transport_close (transports w me))"
  let ?t' = "snd (send_exchange_declare_ok n ?t)"
  have reply: "send_exchange_declare_ok n ?t = (Inr (), ?t')"
    using sends_ok_fixed(3) [OF assms(3)] by (simp add: prod_eq_iff)
  have s: "sends (frame_bytes 1 n [0, 40, 0, 11]) ?t ?t'"
    using writes_method_no_args [of "[0, 40, 0, 11]" n] reply
    by (auto simp: writes_def sends_frame_def send_exchange_declare_ok_def)
  have d: "declare_exchange e ty' (the_broker w) = (Inr False, the_broker w)"
    using assms(6,7) by (auto simp: declare_exchange_def type_of_def)
  have "treat_channel_frame set_order me (MethodFrame n sz (id_of EXCHANGE_DECLARE) d) w
    = (Inr (), w\<lparr>transports := (transports w)(me := ?t')\<rparr>)"
    using assms(1,2,4,5) reply
    by (simp add: treat_channel_frame_def Let_def get_channel_def channel_at_def is_method_def on_opened_def
        on_exchange_declare_def str_prop_def bindS_apply on_broker_apply on_transport_apply d transport_close_def prod_eq_iff)
  moreover have "is_closing ?t'" using s by (auto simp: sends_def transport_close_def)
  ultimately show ?thesis using s assms(1) by (auto simp: frame_on_known)
qed

lemma conflicting_declaration_answered_example:
  "\<exists>w'. channel_frame id 0 (MethodFrame 1 20 (id_of EXCHANGE_DECLARE)
       [(lit ''exchange-name'', PStr []), (lit ''type'', PStr (lit ''fanout''))]) open_world = (Inr (), w')
     \<and> is_closing (transports w' 0)"
proof -
  let ?d = "[(lit ''exchange-name'', PStr []), (lit ''type'', PStr (lit ''fanout''))]"
  have "get_str ?d ''exchange-name'' = Inr []" "get_str ?d ''type'' = Inr (lit ''fanout'')"
    "lit ''fanout'' \<noteq> lit ''direct''" "sendable_on 1"
    by (simp_all add: get_str_def py_get_def sendable_on_def)
  from conflicting_declaration_answered [OF _ _ this(4,1,2) open_world_broker(2) this(3), of 0 open_channel id 20]
  show ?thesis by auto
qed

text \<open>Consuming from a queue that does not exist registers nobody, and is answered with
  \<open>consume-ok\<close> all the same.\<close>

lemma consuming_from_nowhere_answered:
  assumes "channel_at w me n = Some ch" and "ch_state ch = CH_OPENED" and "sendable_on n"
    and "get_str d ''queue-name'' = Inr q" and "get_str d ''consumer-tag'' = Inr consumer_tag"
    and "queue_log (the_broker w) q = None" and "short_str consumer_tag"
  shows "\<exists>t'. channel_frame set_order me (MethodFrame n sz (id_of BASIC_CONSUME) d) w
      = (Inr (), w\<lparr>transports := (transports w)(me := t')\<rparr>)
    \<and> (\<exists>arguments. dumps ''s'' [PStr consumer_tag] = Inr arguments
         \<and> sends (frame_bytes 1 n ([0, 60, 0, 21] @ arguments)) (transports w me) t')"
proof -
  let ?t' = "snd (send_basic_consume_ok n consumer_tag (transports w me))"
  have reply: "send_basic_consume_ok n consumer_tag (transports w me) = (Inr (), ?t')"
    using sends_ok_named(2) [OF assms(3,7)] by (simp add: prod_eq_iff)
  obtain a where a: "dumps ''s'' [PStr consumer_tag] = Inr a" using dumps_short [OF assms(7)] .
  have s: "sends (frame_bytes 1 n ([0, 60, 0, 21] @ a)) (transports w me) ?t'"
    using writes_dumped_method [OF _ a, of "[0, 60, 0, 21]" n] reply
    by (auto simp: writes_def sends_frame_def send_basic_consume_ok_def)
  have r: "register_consumer me consumer_tag q n (the_broker w) = (Inr False, the_broker w)"
    using assms(6) by (auto simp: register_consumer_def queue_log_def split: option.splits)
  have "treat_channel_frame set_order me (MethodFrame n sz (id_of BASIC_CONSUME) d) w
    = (Inr (), w\<lparr>transports := (transports w)(me := ?t')\<rparr>)"
    using assms(1,2,4,5) reply
    by (simp add: treat_channel_frame_def Let_def get_channel_def channel_at_def is_method_def on_opened_def
        on_basic_consume_def str_prop_def bindS_apply on_broker_apply on_transport_apply r prod_eq_iff)
  with s a assms(1) show ?thesis by (auto simp: frame_on_known)
qed

lemma consuming_from_nowhere_answered_example:
  "\<exists>w'. channel_frame id 0 (MethodFrame 1 20 (id_of BASIC_CONSUME)
       [(lit ''queue-name'', PStr (lit ''none'')), (lit ''consumer-tag'', PStr (lit ''c''))]) open_world
     = (Inr (), w') \<and> transports w' 0 \<noteq> new_transport"
proof -
  let ?d = "[(lit ''queue-name'', PStr (lit ''none'')), (lit ''consumer-tag'', PStr (lit ''c''))]"
  have d: "get_str ?d ''queue-name'' = Inr (lit ''none'')" "get_str ?d ''consumer-tag'' = Inr (lit ''c'')"
    "sendable_on 1" by (simp_all add: get_str_def py_get_def sendable_on_def)
  have q: "queue_log (the_broker open_world) (lit ''none'') = None"
    by (simp add: open_world_def declare_queue_view) (simp add: init_state_def view_defs)
  have s: "short_str (lit ''c'')" by (simp add: short_str_def utf8_encode_lit ascii_def)
  from consuming_from_nowhere_answered [OF _ _ d(3,1,2) q s, of 0 open_channel id 20]
  obtain t' a where "channel_frame id 0 (MethodFrame 1 20 (id_of BASIC_CONSUME) ?d) open_world
      = (Inr (), open_world\<lparr>transports := (\<lambda>_. new_transport)(0 := t')\<rparr>)"
    and "sends (frame_bytes 1 1 ([0, 60, 0, 21] @ a)) new_transport t'" by auto
  moreover from this(2) have "t' \<noteq> new_transport"
    by (auto simp: sends_def frame_bytes_def)
  ultimately show ?thesis by auto
qed

section \<open>Everything together\<close>

text \<open>Whatever connections come, send and go, and whatever the other clients publish, declare,
  purge or reset, in any order: the bindings name queues that exist, tags are distinct, every channel
  knows what its state needs, and no connection is in an unknown state.\<close>

lemma server_stays_well_formed:
  assumes "reachable set_order user password ds w" and "\<forall>xs. mset (set_order xs) = mset xs"
  shows "broker_ok (the_broker w) \<and> consumers_ok (the_broker w)
    \<and> tracker_ok (trackers w c) \<and> parser_state (trackers w c) \<le> OPENED"
  using reachable_ok [OF assms] by (simp add: server_ok_def)

lemma server_stays_well_formed_example:
  "\<exists>w. reachable rev [] [] (\<lambda>_. 1) w \<and> type_of (the_broker w) (lit ''e'') = Some (lit ''fanout'')
     \<and> broker_ok (the_broker w)"
proof -
  let ?w = "initial_world [] [] (\<lambda>_. 1)"
  let ?w' = "snd (on_broker (declare_exchange (lit ''e'') (lit ''fanout'')) ?w)"
  have "reachable rev [] [] (\<lambda>_. 1) ?w'"
    by (rule reachable.Step [OF reachable.Start], rule server_step.Create_Exchange, rule prod.collapse [symmetric])
  moreover have "type_of (the_broker ?w') (lit ''e'') = Some (lit ''fanout'')"
    by (simp add: on_broker_apply declare_exchange_view initial_world_def)
      (simp add: init_state_def view_defs)
  ultimately show ?thesis using server_stays_well_formed [of rev "[]" "[]" "\<lambda>_. 1" ?w'] by auto
qed

end
