(* ===== verification/Json.thy ===== *)
theory Json
  imports Py_Value
begin

text \<open>
  What the HTTP interface uses of the module \<open>json\<close>: \<open>dumps\<close> with its default options (ASCII only,
  the separators \<open>", "\<close> and \<open>": "\<close>, NaN and infinities allowed) on the values of the model, and \<open>loads\<close>
  on text. Every rejection of \<open>loads\<close> is a JSONDecodeError, which is a ValueError. The interpreter's
  limits on nesting and on the digits of an integer are not modelled.
\<close>

section \<open>Numbers as text\<close>

fun nat_text :: "nat \<Rightarrow> pystr" where
  "nat_text n = (if n < 10 then [48 + n] else nat_text (n div 10) @ [48 + n mod 10])"

declare nat_text.simps [simp del]

definition int_text :: "int \<Rightarrow> pystr" where
  \<comment> \<open>\<open>str(i)\<close>\<close>
  "int_text i = (if i < 0 then 45 # nat_text (nat (- i)) else nat_text (nat i))"

text \<open>
  \<open>repr\<close> of a float: the shortest decimal that reads back as the same double, the closest one of
  that length, the even one of two that are as close. A decimal is a coefficient and an exponent.
\<close>

definition float_ratio :: "float_bits \<Rightarrow> nat \<times> nat" where
  \<comment> \<open>the magnitude of a finite float as a fraction\<close>
  "float_ratio w =
     (let v = uint w; e = nat (v div 2 ^ 52 mod 2 ^ 11); f = nat (v mod 2 ^ 52);
          m = (if e = 0 then f else f + 2 ^ 52); k = int (max e 1) - 1075
      in (m * 2 ^ nat k, 2 ^ nat (- k)))"

definition decimal_double :: "bool \<Rightarrow> nat \<Rightarrow> int \<Rightarrow> float_bits" where
  \<comment> \<open>\<open>float\<close> of a decimal literal: the nearest double, an infinity beyond the largest\<close>
  "decimal_double neg c e =
     (case f64_of_ratio neg (c * 10 ^ nat e) (10 ^ nat (- e)) of
        Some w \<Rightarrow> w
      | None \<Rightarrow> if neg then 0xFFF0000000000000 else 0x7FF0000000000000)"

definition nearest_decimal :: "float_bits \<Rightarrow> int \<Rightarrow> (nat \<times> int) option" where
  \<comment> \<open>among the multiples of \<open>10 ^ e\<close> next to the magnitude of \<open>w\<close>, the one to print, if it reads back\<close>
  "nearest_decimal w e =
     (let (num, den) = float_ratio w;
          n = num * 10 ^ nat (- e); d = den * 10 ^ nat e;
          lo = n div d;
          ok = (\<lambda>c. decimal_double False c e = w AND 0x7FFFFFFFFFFFFFFF);
          below = 2 * (n mod d) < d \<or> 2 * (n mod d) = d \<and> even lo
      in if ok lo \<and> (below \<or> \<not> ok (lo + 1)) then Some (lo, e)
         else if ok (lo + 1) then Some (lo + 1, e)
         else None)"

fun first_decimal :: "float_bits \<Rightarrow> int list \<Rightarrow> nat \<times> int" where
  "first_decimal w [] = (0, 0)"
| "first_decimal w (e # es) =
     (case nearest_decimal w e of Some d \<Rightarrow> d | None \<Rightarrow> first_decimal w es)"

definition shortest_decimal :: "float_bits \<Rightarrow> nat \<times> int" where
  \<comment> \<open>from one digit on, with more and more of them\<close>
  "shortest_decimal w =
     (let (num, den) = float_ratio w;
          top = int (length (nat_text (num div den)));
          e0 = (if den \<le> num then top - 1 else - int (length (nat_text (den div num))))
      in first_decimal w (map (\<lambda>i. e0 - int i) [0..<20]))"

definition fixed_text :: "pystr \<Rightarrow> int \<Rightarrow> pystr" where
  \<comment> \<open>digits with the point after the first \<open>p\<close> of them\<close>
  "fixed_text ds p =
     (if p \<le> 0 then [48, 46] @ replicate (nat (- p)) 48 @ ds
      else if int (length ds) \<le> p then ds @ replicate (nat p - length ds) 48 @ [46, 48]
      else take (nat p) ds @ 46 # drop (nat p) ds)"

definition exponent_text :: "pystr \<Rightarrow> int \<Rightarrow> pystr" where
  "exponent_text ds p =
     take 1 ds @ (if length ds = 1 then [] else 46 # drop 1 ds) @ 101 # (if p - 1 < 0 then 45 else 43)
       # (let t = nat_text (nat \<bar>p - 1\<bar>) in if length t < 2 then 48 # t else t)"

definition float_text :: "float_bits \<Rightarrow> pystr" where
  "float_text w =
     (let sign = (if 2 ^ 63 \<le> uint w then [45] else []); mag = w AND 0x7FFFFFFFFFFFFFFF
      in if 0x7FF0000000000000 < mag then lit ''NaN''
         else if mag = 0x7FF0000000000000 then sign @ lit ''Infinity''
         else if mag = 0 then sign @ lit ''0.0''
         else (let (c, e) = shortest_decimal w;
                   (c', k) = strip_zeros c (length (nat_text c));
                   ds = nat_text c'; p = e + int (length (nat_text c))
               in sign @ (if - 4 < p \<and> p \<le> 16 then fixed_text ds p else exponent_text ds p)))"

section \<open>Writing\<close>

definition hex_digit :: "nat \<Rightarrow> nat" where
  "hex_digit d = (if d < 10 then 48 + d else 87 + d)"

definition hex4 :: "nat \<Rightarrow> pystr" where
  "hex4 n = [92, 117, hex_digit (n div 4096 mod 16), hex_digit (n div 256 mod 16),
     hex_digit (n div 16 mod 16), hex_digit (n mod 16)]"

definition json_char :: "nat \<Rightarrow> pystr" where
  "json_char c =
     (if c = 34 then [92, 34]
      else if c = 92 then [92, 92]
      else if c = 10 then [92, 110]
      else if c = 13 then [92, 114]
      else if c = 9 then [92, 116]
      else if c = 12 then [92, 102]
      else if c = 8 then [92, 98]
      else if 32 \<le> c \<and> c \<le> 126 then [c]
      else if c < 0x10000 then hex4 c
      else hex4 (0xD800 + (c - 0x10000) div 1024 mod 1024) @ hex4 (0xDC00 + c mod 1024))"

definition json_string :: "pystr \<Rightarrow> pystr" where
  "json_string s = 34 # concat (map json_char s) @ [34]"

function (sequential)
  json_value :: "pyval \<Rightarrow> pystr result"
  and json_items :: "pyval list \<Rightarrow> pystr result"
  and json_pairs :: "pydict \<Rightarrow> pystr result"
where
  "json_value PNone = Inr (lit ''null'')"
| "json_value (PBool b) = Inr (if b then lit ''true'' else lit ''false'')"
| "json_value (PInt i) = Inr (int_text i)"
| "json_value (PFloat w) = Inr (float_text w)"
| "json_value (PStr s) = Inr (json_string s)"
| "json_value (PList l) = bindE (json_items l) (\<lambda>t. Inr (91 # t @ [93]))"
| "json_value (PDict d) = bindE (json_pairs d) (\<lambda>t. Inr (123 # t @ [125]))"
| "json_value _ = Inl TypeError"
| "json_items [] = Inr []"
| "json_items [v] = json_value v"
| "json_items (v # vs) =
     bindE (json_value v) (\<lambda>t. bindE (json_items vs) (\<lambda>ts. Inr (t @ [44, 32] @ ts)))"
| "json_pairs [] = Inr []"
| "json_pairs [(k, v)] = bindE (json_value v) (\<lambda>t. Inr (json_string k @ [58, 32] @ t))"
| "json_pairs ((k, v) # d) =
     bindE (json_value v) (\<lambda>t. bindE (json_pairs d) (\<lambda>ts.
       Inr (json_string k @ [58, 32] @ t @ [44, 32] @ ts)))"
  by pat_completeness auto
termination json_value
  by (relation "measure (\<lambda>x. case x of
        Inl v \<Rightarrow> size v
      | Inr (Inl l) \<Rightarrow> size_list size l
      | Inr (Inr d) \<Rightarrow> size_list (size_prod (\<lambda>_. 0) size) d)") auto

abbreviation json_dumps :: "pyval \<Rightarrow> pystr result" where
  "json_dumps \<equiv> json_value"

section \<open>Reading\<close>

definition json_space :: "nat \<Rightarrow> bool" where
  "json_space c \<longleftrightarrow> c = 32 \<or> c = 9 \<or> c = 10 \<or> c = 13"

abbreviation skip_ws :: "pystr \<Rightarrow> pystr" where
  "skip_ws \<equiv> dropWhile json_space"

definition is_digit :: "nat \<Rightarrow> bool" where
  "is_digit c \<longleftrightarrow> 48 \<le> c \<and> c \<le> 57"

definition hex_value :: "nat \<Rightarrow> nat result" where
  "hex_value c =
     (if is_digit c then Inr (c - 48)
      else if 97 \<le> c \<and> c \<le> 102 then Inr (c - 87)
      else if 65 \<le> c \<and> c \<le> 70 then Inr (c - 55)
      else Inl ValueError)"

definition hex4_value :: "nat \<Rightarrow> nat \<Rightarrow> nat \<Rightarrow> nat \<Rightarrow> nat result" where
  "hex4_value a b c d =
     bindE (hex_value a) (\<lambda>a. bindE (hex_value b) (\<lambda>b. bindE (hex_value c) (\<lambda>c.
     bindE (hex_value d) (\<lambda>d. Inr (a * 4096 + b * 256 + c * 16 + d)))))"

definition simple_escape :: "nat \<Rightarrow> nat option" where
  "simple_escape c =
     (if c = 34 \<or> c = 92 \<or> c = 47 then Some c
      else if c = 98 then Some 8
      else if c = 102 then Some 12
      else if c = 110 then Some 10
      else if c = 114 then Some 13
      else if c = 116 then Some 9
      else None)"

definition unicode_escape :: "pystr \<Rightarrow> (nat \<times> pystr) result" where
  \<comment> \<open>behind \<open>\u\<close>: the code point, of a surrogate pair the one it stands for\<close>
  "unicode_escape s =
     (case s of
        a # b # c # d # s1 \<Rightarrow>
          bindE (hex4_value a b c d) (\<lambda>n.
            if 0xD800 \<le> n \<and> n \<le> 0xDBFF then
              (case s1 of
                 x # y # a' # b' # c' # d' # s2 \<Rightarrow>
                   if x = 92 \<and> y = 117 then
                     bindE (hex4_value a' b' c' d') (\<lambda>m.
                       if 0xDC00 \<le> m \<and> m \<le> 0xDFFF
                       then Inr (0x10000 + (n - 0xD800) * 1024 + (m - 0xDC00), s2)
                       else Inr (n, s1))
                   else Inr (n, s1)
               | _ \<Rightarrow> Inr (n, s1))
            else Inr (n, s1))
      | _ \<Rightarrow> Inl ValueError)"

lemma unicode_escape_shorter: "unicode_escape s = Inr (n, s') \<Longrightarrow> length s' < length s"
  by (auto simp: unicode_escape_def elim!: bindE_InrE split: list.splits if_splits)

function scan_string :: "pystr \<Rightarrow> (pystr \<times> pystr) result" where
  \<comment> \<open>behind the opening quote\<close>
  "scan_string s =
     (case s of
        [] \<Rightarrow> Inl ValueError
      | c # cs \<Rightarrow>
          if c = 34 then Inr ([], cs)
          else if c = 92 then
            (case cs of
               [] \<Rightarrow> Inl ValueError
             | e # cs' \<Rightarrow>
                 if e = 117 then
                   bindE (unicode_escape cs') (\<lambda>(n, r).
                   bindE (scan_string r) (\<lambda>(t, r'). Inr (n # t, r')))
                 else
                   (case simple_escape e of
                      None \<Rightarrow> Inl ValueError
                    | Some n \<Rightarrow> bindE (scan_string cs') (\<lambda>(t, r'). Inr (n # t, r'))))
          else if c < 32 then Inl ValueError
          else bindE (scan_string cs) (\<lambda>(t, r'). Inr (c # t, r')))"
  by pat_completeness auto
termination
  by (relation "measure length") (auto dest: unicode_escape_shorter)

declare scan_string.simps [simp del]

definition digits_nat :: "pystr \<Rightarrow> nat" where
  "digits_nat ds = foldl (\<lambda>a c. 10 * a + (c - 48)) 0 ds"

definition number_value :: "bool \<Rightarrow> pystr \<Rightarrow> pystr \<Rightarrow> int option \<Rightarrow> pyval" where
  \<comment> \<open>an integer without a fraction and an exponent, a float otherwise\<close>
  "number_value neg ip fp ex =
     (if fp = [] \<and> ex = None then PInt (if neg then - int (digits_nat ip) else int (digits_nat ip))
      else PFloat (decimal_double neg (digits_nat (ip @ fp))
             ((case ex of None \<Rightarrow> 0 | Some e \<Rightarrow> e) - int (length fp))))"

definition scan_exponent :: "bool \<Rightarrow> pystr \<Rightarrow> pystr \<Rightarrow> pystr \<Rightarrow> pyval \<times> pystr" where
  "scan_exponent neg ip fp s =
     (case s of
        [] \<Rightarrow> (number_value neg ip fp None, s)
      | c # cs \<Rightarrow>
          if c = 101 \<or> c = 69 then
            (let (eneg, ds) = (case cs of
                 [] \<Rightarrow> (False, []) | d # ds \<Rightarrow> if d = 43 then (False, ds) else if d = 45 then (True, ds) else (False, cs));
                 es = takeWhile is_digit ds
             in if es = [] then (number_value neg ip fp None, s)
                else (number_value neg ip fp (Some (if eneg then - int (digits_nat es) else int (digits_nat es))),
                      dropWhile is_digit ds))
          else (number_value neg ip fp None, s))"

definition scan_fraction :: "bool \<Rightarrow> pystr \<Rightarrow> pystr \<Rightarrow> pyval \<times> pystr" where
  "scan_fraction neg ip s =
     (case s of
        c # d # cs \<Rightarrow>
          if c = 46 \<and> is_digit d then scan_exponent neg ip (d # takeWhile is_digit cs) (dropWhile is_digit cs)
          else scan_exponent neg ip [] s
      | _ \<Rightarrow> scan_exponent neg ip [] s)"

definition scan_digits :: "bool \<Rightarrow> pystr \<Rightarrow> (pyval \<times> pystr) result" where
  "scan_digits neg s =
     (case s of
        [] \<Rightarrow> Inl ValueError
      | c # cs \<Rightarrow>
          if c = 48 then Inr (scan_fraction neg [48] cs)
          else if is_digit c then
            Inr (scan_fraction neg (c # takeWhile is_digit cs) (dropWhile is_digit cs))
          else Inl ValueError)"

definition scan_number :: "pystr \<Rightarrow> (pyval \<times> pystr) result" where
  "scan_number s = (case s of c # cs \<Rightarrow> if c = 45 then scan_digits True cs else scan_digits False s
                            | [] \<Rightarrow> Inl ValueError)"

fun literals :: "(pystr \<times> pyval) list \<Rightarrow> pystr \<Rightarrow> (pyval \<times> pystr) option" where
  "literals [] s = None"
| "literals ((t, v) # ts) s = (if prefix t s then Some (v, drop (length t) s) else literals ts s)"

definition json_literals :: "(pystr \<times> pyval) list" where
  "json_literals = [(lit ''null'', PNone), (lit ''true'', PBool True), (lit ''false'', PBool False),
     (lit ''NaN'', PFloat 0x7FF8000000000000), (lit ''Infinity'', PFloat 0x7FF0000000000000),
     (lit ''-Infinity'', PFloat 0xFFF0000000000000)]"

definition scan_scalar :: "pystr \<Rightarrow> (pyval \<times> pystr) result" where
  "scan_scalar s = (case literals json_literals s of Some r \<Rightarrow> Inr r | None \<Rightarrow> scan_number s)"

lemma dropWhile_shorter: "length (dropWhile P s) \<le> length s"
  by (simp add: length_dropWhile_le)

lemma scan_string_cases:
  assumes "scan_string s = Inr (t, s')"
  obtains (quote) "s = 34 # s'" and "t = []"
  | (next_char) n r t' where "length r < length s" and "scan_string r = Inr (t', s')" and "t = n # t'"
proof (cases s)
  case Nil
  with assms show ?thesis by (subst (asm) scan_string.simps) simp
next
  case (Cons c cs)
  show ?thesis
  proof (cases "c = 92")
    case False
    with assms Cons that show ?thesis
      by (subst (asm) scan_string.simps) (auto elim!: bindE_InrE split: if_splits)
  next
    case True
    with assms Cons obtain e cs' where cs: "cs = e # cs'"
      by (subst (asm) scan_string.simps) (auto split: list.splits)
    show ?thesis
    proof (cases "e = 117")
      case True
      with assms Cons cs \<open>c = 92\<close> obtain n r t' where u: "unicode_escape cs' = Inr (n, r)"
        and "scan_string r = Inr (t', s')" "t = n # t'"
        by (subst (asm) scan_string.simps) (auto elim!: bindE_InrE)
      with unicode_escape_shorter [OF u] next_char [of r t' n] Cons cs show ?thesis by simp
    next
      case False
      with assms Cons cs \<open>c = 92\<close> obtain n t' where "scan_string cs' = Inr (t', s')" "t = n # t'"
        by (subst (asm) scan_string.simps) (auto elim!: bindE_InrE split: option.splits)
      with next_char [of cs' t' n] Cons cs show ?thesis by simp
    qed
  qed
qed

lemma scan_string_shorter: "scan_string s = Inr (t, s') \<Longrightarrow> length s' < length s"
proof (induction "length s" arbitrary: s t rule: less_induct)
  case less
  from less.prems show ?case
    by (cases rule: scan_string_cases) (use less.hyps in fastforce)+
qed

lemma scan_exponent_shorter: "length (snd (scan_exponent neg ip fp s)) \<le> length s"
  by (auto simp: scan_exponent_def Let_def split: list.split prod.split if_split
      intro: order_trans [OF dropWhile_shorter] le_SucI)

lemma scan_fraction_shorter: "length (snd (scan_fraction neg ip s)) \<le> length s"
proof (cases "\<exists>d cs. s = 46 # d # cs \<and> is_digit d")
  case True
  then obtain d cs where s: "s = 46 # d # cs" "is_digit d" by blast
  with scan_exponent_shorter [of neg ip "d # takeWhile is_digit cs" "dropWhile is_digit cs"]
    dropWhile_shorter [of is_digit cs] show ?thesis by (simp add: scan_fraction_def)
next
  case False
  then have "scan_fraction neg ip s = scan_exponent neg ip [] s"
    by (auto simp: scan_fraction_def split: list.split)
  then show ?thesis using scan_exponent_shorter by simp
qed

lemma scan_digits_shorter: "scan_digits neg s = Inr (v, r) \<Longrightarrow> length r < length s"
  using scan_fraction_shorter [of neg "[48]" "tl s"]
    scan_fraction_shorter [of neg "hd s # takeWhile is_digit (tl s)" "dropWhile is_digit (tl s)"]
    dropWhile_shorter [of is_digit "tl s"]
  by (auto simp: scan_digits_def split: list.splits if_splits)

lemma literals_shorter: "literals ts s = Some (v, r) \<Longrightarrow> \<forall>x\<in>set ts. fst x \<noteq> [] \<Longrightarrow> length r < length s"
  by (induction ts) (auto split: if_splits elim!: prefixE)

lemma scan_scalar_shorter: "scan_scalar s = Inr (v, r) \<Longrightarrow> length r < length s"
  using literals_shorter [of json_literals s v r]
  by (fastforce simp: scan_scalar_def scan_number_def json_literals_def
      dest: scan_digits_shorter split: option.splits list.splits if_splits)

text \<open>\<open>scan_once\<close> of the module, with the loops of arrays and objects; a repeated key keeps its place.\<close>

function json_parse :: "pystr \<Rightarrow> (pyval \<times> pystr) result"
  and json_elements :: "pystr \<Rightarrow> pyval list \<Rightarrow> (pyval list \<times> pystr) result"
  and json_members :: "pystr \<Rightarrow> pydict \<Rightarrow> (pydict \<times> pystr) result"
where
  "json_parse s =
     (case s of
        [] \<Rightarrow> Inl ValueError
      | c # cs \<Rightarrow>
          if c = 34 then bindE (scan_string cs) (\<lambda>(t, r). Inr (PStr t, r))
          else if c = 123 then
            (if prefix [125] (skip_ws cs) then Inr (PDict [], tl (skip_ws cs))
             else bindE (json_members (skip_ws cs) []) (\<lambda>(d, r). Inr (PDict d, r)))
          else if c = 91 then
            (if prefix [93] (skip_ws cs) then Inr (PList [], tl (skip_ws cs))
             else bindE (json_elements (skip_ws cs) []) (\<lambda>(l, r). Inr (PList l, r)))
          else scan_scalar s)"
| "json_elements s l =
     bindE (json_parse s) (\<lambda>(v, r).
       case skip_ws r of
         [] \<Rightarrow> Inl ValueError
       | c # r' \<Rightarrow>
           if c = 93 then Inr (l @ [v], r')
           else if c = 44 then json_elements (skip_ws r') (l @ [v])
           else Inl ValueError)"
| "json_members s d =
     (case s of
        [] \<Rightarrow> Inl ValueError
      | c # cs \<Rightarrow>
          if c \<noteq> 34 then Inl ValueError
          else
            bindE (scan_string cs) (\<lambda>(k, r).
              case skip_ws r of
                [] \<Rightarrow> Inl ValueError
              | c # r1 \<Rightarrow>
                  if c \<noteq> 58 then Inl ValueError
                  else
                    bindE (json_parse (skip_ws r1)) (\<lambda>(v, r2).
                      case skip_ws r2 of
                        [] \<Rightarrow> Inl ValueError
                      | c # r3 \<Rightarrow>
                          if c = 125 then Inr (AList.update k v d, r3)
                          else if c = 44 then json_members (skip_ws r3) (AList.update k v d)
                          else Inl ValueError)))"
  by pat_completeness auto

text \<open>A value that is read leaves less text than there was.\<close>

lemma skip_ws_Cons: "skip_ws s = c # r \<Longrightarrow> length r < length s"
  using dropWhile_shorter [of json_space s] by simp

lemma json_shorter_dom:
  "json_parse_json_elements_json_members_dom (Inl s) \<Longrightarrow> json_parse s = Inr (v, r) \<Longrightarrow> length r < length s"
  "json_parse_json_elements_json_members_dom (Inr (Inl (s, l))) \<Longrightarrow>
     json_elements s l = Inr (l', r2) \<Longrightarrow> length r2 < length s"
  "json_parse_json_elements_json_members_dom (Inr (Inr (s, d))) \<Longrightarrow>
     json_members s d = Inr (d', r3) \<Longrightarrow> length r3 < length s"
proof (induction s and s l and s d arbitrary: v r and l' r2 and d' r3
    rule: json_parse_json_elements_json_members.pinduct)
  case (1 s)
  have tl: "length (tl (skip_ws cs)) \<le> length cs" for cs
    using dropWhile_shorter [of json_space cs] by simp
  have skip: "length r < length (skip_ws cs) \<Longrightarrow> length r < Suc (length cs)" for cs
    using dropWhile_shorter [of json_space cs] by simp
  from 1 show ?case
    by (auto simp: json_parse.psimps elim!: bindE_InrE split: if_splits list.splits
        dest!: scan_string_shorter scan_scalar_shorter intro: le_imp_less_Suc [OF tl] skip)
next
  case (2 s l)
  from 2(4) obtain v r1 where p: "json_parse s = Inr (v, r1)"
    and k: "(case skip_ws r1 of [] \<Rightarrow> Inl ValueError | c # r' \<Rightarrow>
           if c = 93 then Inr (l @ [v], r')
           else if c = 44 then json_elements (skip_ws r') (l @ [v]) else Inl ValueError) = Inr (l', r2)"
    unfolding json_elements.psimps [OF 2(1)] by (auto elim!: bindE_InrE)
  from k obtain c r' where s1: "skip_ws r1 = c # r'" by (auto split: list.splits)
  from 2(2) [OF p] skip_ws_Cons [OF s1] have "length r' < length s" by simp
  with k s1 2(3) [OF p _ s1] show ?case
    by (auto split: if_splits intro: less_trans [OF less_le_trans [OF _ dropWhile_shorter]])
next
  case (3 s d)
  from 3(4) obtain cs k r0 where c: "s = 34 # cs" and k: "scan_string cs = Inr (k, r0)"
    and b: "(case skip_ws r0 of [] \<Rightarrow> Inl ValueError
              | c # r1 \<Rightarrow> if c \<noteq> 58 then Inl ValueError
                  else bindE (json_parse (skip_ws r1)) (\<lambda>(v, r2).
                      case skip_ws r2 of [] \<Rightarrow> Inl ValueError
                      | c # r3 \<Rightarrow> if c = 125 then Inr (AList.update k v d, r3)
                          else if c = 44 then json_members (skip_ws r3) (AList.update k v d)
                          else Inl ValueError)) = Inr (d', r3)"
    unfolding json_members.psimps [OF 3(1)] by (auto elim!: bindE_InrE split: list.splits if_splits)
  from b obtain r1 v r2 where s0: "skip_ws r0 = 58 # r1" and p: "json_parse (skip_ws r1) = Inr (v, r2)"
    and e: "(case skip_ws r2 of [] \<Rightarrow> Inl ValueError
                      | c # r3 \<Rightarrow> if c = 125 then Inr (AList.update k v d, r3)
                          else if c = 44 then json_members (skip_ws r3) (AList.update k v d)
                          else Inl ValueError) = Inr (d', r3)"
    by (auto elim!: bindE_InrE split: list.splits if_splits)
  from e obtain c2 r4 where s2: "skip_ws r2 = c2 # r4" by (auto split: list.splits)
  have "length r2 < length (skip_ws r1)"
    using 3(2) [OF c _ k _ s0 _ p] by simp
  with scan_string_shorter [OF k] skip_ws_Cons [OF s0] skip_ws_Cons [OF s2] dropWhile_shorter [of json_space r1] c
  have "length r4 < length s" by simp
  with e s2 3(3) [OF c _ k _ s0 _ p _ s2] show ?case
    by (auto split: if_splits intro: less_trans [OF less_le_trans [OF _ dropWhile_shorter]])
qed

lemma skip_ws_less: "length r < n \<Longrightarrow> length (skip_ws r) < n"
  using dropWhile_shorter [of json_space r] by simp

lemma skip_ws_double: "2 * length (skip_ws s) < Suc (2 * length s)"
  using dropWhile_shorter [of json_space s] by simp

lemma skip_ws_chain:
  "length a < n \<Longrightarrow> length b < length a \<Longrightarrow> length c < length (skip_ws b) \<Longrightarrow> length r < length c \<Longrightarrow>
     2 * length (skip_ws r) < Suc (Suc (2 * n))"
  using dropWhile_shorter [of json_space r] dropWhile_shorter [of json_space b] by simp

termination json_parse
proof (relation "measure (\<lambda>x. case x of
    Inl s \<Rightarrow> 2 * length s
  | Inr (Inl (s, l)) \<Rightarrow> 2 * length s + 1
  | Inr (Inr (s, d)) \<Rightarrow> 2 * length s + 1)", goal_cases)
qed (auto dest!: json_shorter_dom(1) scan_string_shorter skip_ws_Cons
    dest: skip_ws_less intro: skip_ws_less skip_ws_double skip_ws_chain)

declare json_parse.simps [simp del] json_elements.simps [simp del] json_members.simps [simp del]

definition json_loads :: "pystr \<Rightarrow> pyval result" where
  \<comment> \<open>a text that starts with a byte order mark is refused\<close>
  "json_loads s =
     (if prefix [0xFEFF] s then Inl ValueError
      else bindE (json_parse (skip_ws s)) (\<lambda>(v, r).
           if skip_ws r = [] then Inr v else Inl ValueError))"

end
