(* ===== verification/Waits.thy ===== *)
theory Waits
  imports Broker_State Json
begin

text \<open>
  The rest of \<open>service/state.py\<close>: the debug view \<open>to_json\<close>, and the coroutines that wait for something
  to show up in the state, one look at a time.
\<close>

section \<open>The debug view\<close>

text \<open>
  Values \<open>json\<close> has no text for: a deque, a set, a protocol object. \<open>list\<close> of a set of delivery tags
  gives them in some order (\<open>tag_order\<close>).
\<close>

abbreviation py_deque :: pyval where "py_deque \<equiv> PObj 0"
abbreviation py_set :: pyval where "py_set \<equiv> PObj 1"
abbreviation py_protocol :: pyval where "py_protocol \<equiv> PObj 2"

definition message_value :: "stored \<Rightarrow> pyval" where
  "message_value m = PDict [(lit ''headers'', stored_headers m), (lit ''body'', stored_body m)]"

definition exchange_value :: "exchange \<Rightarrow> pyval" where
  "exchange_value e = PDict [(lit ''type'', PStr (exchange_type e)),
     (lit ''messages'', PList (map message_value (exchange_messages e)))]"

definition consumer_value :: "consumer \<Rightarrow> pyval" where
  "consumer_value c = PDict [(lit ''protocol'', py_protocol), (lit ''channel_number'', PInt (consumer_channel c))]"

definition queue_value :: "queue \<Rightarrow> pyval" where
  "queue_value q = PDict [(lit ''messages'', py_deque),
     (lit ''consumers'', PDict (map (\<lambda>(t, c). (t, consumer_value c)) (consumers q)))]"

definition to_json :: "(int set \<Rightarrow> int list) \<Rightarrow> broker \<Rightarrow> pystr result" where
  "to_json tag_order b =
     (let tags = (\<lambda>S. PList (map PInt (tag_order S)))
      in json_dumps (PDict
       [(lit ''users'', PDict (map (\<lambda>(u, p). (u, PStr p)) (users b))),
        (lit ''exchanges'', PDict (map (\<lambda>(n, e). (n, exchange_value e)) (exchanges b))),
        (lit ''queues'', PDict (map (\<lambda>(n, q). (n, queue_value q)) (queues b))),
        (lit ''queues_bound_exchanges'', PDict (map (\<lambda>(n, qs). (n, py_set)) (bound b))),
        (lit ''authentication_tried_on'', PDict (map (\<lambda>(n, ok). (n, PBool ok)) (auth_tried b))),
        (lit ''messages_acknowledged'', tags (acknowledged b)),
        (lit ''messages_not_acknowledged'', tags (not_acknowledged b)),
        (lit ''messages_requeued'', tags (requeued b))]))"

section \<open>Waiting\<close>

text \<open>
  A coroutine \<open>for _ in range(timeout): ... await asyncio.sleep(1)\<close> looks at the state once per round.
  A look gives the value the coroutine returns, None when it goes to sleep, or the exception it raises.
\<close>

definition wait_authentication_performed_on :: "bytes \<Rightarrow> broker \<Rightarrow> bool option result" where
  "wait_authentication_performed_on username b =
     bindE (utf8_decode False username) (\<lambda>decoded_username. Inr (map_of (auth_tried b) decoded_username))"

definition wait_message_acknowledged :: "int \<Rightarrow> broker \<Rightarrow> bool option result" where
  "wait_message_acknowledged delivery_tag b =
     Inr (if delivery_tag \<in> acknowledged b then Some True else None)"

definition wait_message_not_acknowledged :: "int \<Rightarrow> broker \<Rightarrow> bool option result" where
  "wait_message_not_acknowledged delivery_tag b =
     Inr (if delivery_tag \<in> not_acknowledged b then Some True else None)"

definition wait_message_requeued :: "int \<Rightarrow> broker \<Rightarrow> bool option result" where
  "wait_message_requeued delivery_tag b =
     Inr (if delivery_tag \<in> requeued b then Some True else None)"

definition wait_queue_bound :: "pystr \<Rightarrow> pystr \<Rightarrow> broker \<Rightarrow> bool option result" where
  "wait_queue_bound queue_name exchange_name b =
     Inr (if queue_name \<in> set (bound_queues b exchange_name) then Some True else None)"

datatype wait =
    Authentication bytes
  | Acknowledged int
  | Not_Acknowledged int
  | Requeued int
  | Queue_Bound pystr pystr

fun look :: "wait \<Rightarrow> broker \<Rightarrow> bool option result" where
  "look (Authentication u) b = wait_authentication_performed_on u b"
| "look (Acknowledged t) b = wait_message_acknowledged t b"
| "look (Not_Acknowledged t) b = wait_message_not_acknowledged t b"
| "look (Requeued t) b = wait_message_requeued t b"
| "look (Queue_Bound q e) b = wait_queue_bound q e b"

text \<open>
  A task on such a coroutine: the rounds it has left, or the result of its future. The event loop
  resumes it at the start and after each sleep.
\<close>

datatype task =
    Waiting wait nat
  | Finished "bool result"

definition new_task :: "wait \<Rightarrow> task" where
  \<comment> \<open>\<open>timeout=10\<close>\<close>
  "new_task x = Waiting x 10"

fun resume :: "broker \<Rightarrow> task \<Rightarrow> task" where
  "resume b (Waiting x 0) = Finished (Inl WaitTimeout)"
| "resume b (Waiting x (Suc n)) =
     (case look x b of
        Inl e \<Rightarrow> Finished (Inl e)
      | Inr (Some r) \<Rightarrow> Finished (Inr r)
      | Inr None \<Rightarrow> Waiting x n)"
| "resume b (Finished r) = Finished r"

definition resumes :: "broker list \<Rightarrow> task \<Rightarrow> task" where
  \<comment> \<open>resumed at several moments, each with the state of that moment\<close>
  "resumes bs t = foldl (\<lambda>t b. resume b t) t bs"

lemma resumes_simps [simp]:
  "resumes [] t = t"
  "resumes (b # bs) t = resumes bs (resume b t)"
  by (simp_all add: resumes_def)

lemma resumes_append [simp]: "resumes (bs @ cs) t = resumes cs (resumes bs t)"
  by (simp add: resumes_def)

lemma resumes_finished [simp]: "resumes bs (Finished r) = Finished r"
  by (induction bs) simp_all

text \<open>The first look that does not end in sleep decides.\<close>

definition verdict :: "wait \<Rightarrow> broker list \<Rightarrow> bool result" where
  "verdict x bs =
     (case dropWhile (\<lambda>b. look x b = Inr None) bs of
        [] \<Rightarrow> Inl WaitTimeout
      | b # _ \<Rightarrow> bindE (look x b) (\<lambda>r. Inr (the r)))"

lemma resumes_waiting:
  "length bs = n \<Longrightarrow> resumes (bs @ [b]) (Waiting x n) = Finished (verdict x bs)"
proof (induction bs arbitrary: n)
  case Nil
  then show ?case by (simp add: verdict_def)
next
  case (Cons a bs)
  then obtain k where n: "n = Suc k" and k: "length bs = k" by auto
  show ?case
  proof (cases "look x a = Inr None")
    case True
    with Cons.IH [OF k] n show ?thesis by (simp add: verdict_def)
  next
    case False
    then show ?thesis
      by (auto simp: n verdict_def split: sum.splits option.splits)
  qed
qed

text \<open>Nothing a wait looks for is missed for longer than a round.\<close>

lemma verdict_found:
  "\<forall>b\<in>set bs. look x b = Inr None \<Longrightarrow> look x b = Inr (Some r) \<Longrightarrow> verdict x (bs @ b # cs) = Inr r"
  by (simp add: verdict_def dropWhile_append2)

lemma verdict_timeout: "\<forall>b\<in>set bs. look x b = Inr None \<Longrightarrow> verdict x bs = Inl WaitTimeout"
proof -
  assume "\<forall>b\<in>set bs. look x b = Inr None"
  then have d: "dropWhile (\<lambda>b. look x b = Inr None) bs = []" by (simp add: dropWhile_eq_Nil_conv)
  show ?thesis unfolding verdict_def d by simp
qed

end
