(* ===== verification/Http.thy ===== *)
theory Http
  imports Server Waits
begin

text \<open>
  \<open>service/http_protocol.py\<close>: the instrumentation of the server over HTTP. The parser of the package
  h11 is a parameter of the definitions; a protocol object is a record with the server it acts on.
\<close>

section \<open>The parser\<close>

text \<open>
  What \<open>h11.Connection\<close> is to the code: it takes bytes, gives events, and turns the events that are
  sent into bytes. Each call may raise. \<open>Other_Event\<close> stands for the events the code does not look at.
\<close>

datatype event =
    Request bytes bytes "(bytes \<times> bytes) list"
  | Data bytes
  | EndOfMessage
  | NEED_DATA
  | PAUSED
  | Other_Event

datatype sent_event =
    Response nat "(bytes \<times> bytes) list"
  | Sent_Data bytes

record 'p h11 =
  h11_receive_data :: "bytes \<Rightarrow> ('p, unit) eff"
  h11_next_event :: "('p, event) eff"
  h11_send :: "sent_event \<Rightarrow> ('p, bytes) eff"

section \<open>The protocol object\<close>

datatype request_state = WAITING_HEADERS | WAITING_BODY

text \<open>
  The fields of \<open>HTTPProtocol\<close>, with the server behind \<open>_global_state\<close>, the tasks that requests have
  started, and the dates \<open>format_date_time(None)\<close> will give.
\<close>

record 'p http =
  server :: world
  http_parser :: 'p
  request_state :: request_state
  verb :: "bytes option"
  target :: "bytes option"
  headers :: "(bytes \<times> bytes) list option"
  out :: transport
  futures :: "task list"
  dates :: "nat \<Rightarrow> bytes"

definition new_http :: "'p \<Rightarrow> (nat \<Rightarrow> bytes) \<Rightarrow> world \<Rightarrow> 'p http" where
  \<comment> \<open>\<open>__init__\<close> and \<open>connection_made\<close>, with a parser for a server\<close>
  "new_http p ds w =
     \<lparr>server = w, http_parser = p, request_state = WAITING_HEADERS, verb = None, target = None,
      headers = None, out = new_transport, futures = [], dates = ds\<rparr>"

text \<open>
  What the definitions take from the environment: the order in which sets give their elements, and
  the two variables of the environment that \<open>reset\<close> uses.
\<close>

record settings =
  set_order :: "pystr list \<Rightarrow> pystr list"
  tag_order :: "int set \<Rightarrow> int list"
  default_user :: pystr
  default_password :: pystr

definition on_server :: "(world, 'a) eff \<Rightarrow> ('p http, 'a) eff" where
  "on_server m s = (case m (server s) of (r, w) \<Rightarrow> (r, s\<lparr>server := w\<rparr>))"

definition on_state :: "(broker, 'a) eff \<Rightarrow> ('p http, 'a) eff" where
  "on_state m = on_server (on_broker m)"

definition on_parser :: "('p, 'a) eff \<Rightarrow> ('p http, 'a) eff" where
  "on_parser m s = (case m (http_parser s) of (r, p) \<Rightarrow> (r, s\<lparr>http_parser := p\<rparr>))"

definition on_out :: "(transport, 'a) eff \<Rightarrow> ('p http, 'a) eff" where
  "on_out m s = (case m (out s) of (r, t) \<Rightarrow> (r, s\<lparr>out := t\<rparr>))"

definition the_broker_of :: "'p http \<Rightarrow> broker" where
  "the_broker_of s = the_broker (server s)"

definition date_now :: "('p http, bytes) eff" where
  \<comment> \<open>\<open>format_date_time(None).encode("ascii")\<close>\<close>
  "date_now s = (Inr (dates s 0), s\<lparr>dates := (\<lambda>i. dates s (Suc i))\<rparr>)"

definition b_lit :: "string \<Rightarrow> bytes" where
  \<comment> \<open>a byte literal \<open>b'...'\<close>, and a header name or value that h11 encodes from ASCII\<close>
  "b_lit s = map tag s"

section \<open>Responses\<close>

definition content_length :: "bytes \<Rightarrow> bytes" where
  \<comment> \<open>\<open>str(len(body))\<close>\<close>
  "content_length body = map of_nat (nat_text (length body))"

definition send_http_response_no_content :: "'p h11 \<Rightarrow> ('p http, unit) eff" where
  "send_http_response_no_content h =
     bindS date_now (\<lambda>date.
     bindS (on_parser (h11_send h (Response 204
         [(b_lit ''Date'', date),
          (b_lit ''Server'', b_lit ''whatever''),
          (b_lit ''Content-Length'', b_lit ''0''),
          (b_lit ''Connection'', b_lit ''close'')]))) (\<lambda>data.
     on_out (transport_write data)))"

definition send_http_response_with_json_body :: "'p h11 \<Rightarrow> nat \<Rightarrow> bytes \<Rightarrow> ('p http, unit) eff" where
  "send_http_response_with_json_body h status_code body =
     bindS date_now (\<lambda>date.
     bindS (on_parser (h11_send h (Response status_code
         [(b_lit ''Date'', date),
          (b_lit ''Server'', b_lit ''whatever''),
          (b_lit ''Content-Length'', content_length body),
          (b_lit ''Content-Type'', b_lit ''application/json''),
          (b_lit ''Connection'', b_lit ''close'')]))) (\<lambda>data.
     bindS (on_parser (h11_send h (Sent_Data body))) (\<lambda>body_data.
     thenS (on_out (transport_write data))
           (on_out (transport_write body_data)))))"

definition send_http_response_with_body :: "'p h11 \<Rightarrow> nat \<Rightarrow> bytes \<Rightarrow> ('p http, unit) eff" where
  "send_http_response_with_body h status_code body =
     bindS date_now (\<lambda>date.
     bindS (on_parser (h11_send h (Response status_code
         [(b_lit ''Date'', date),
          (b_lit ''Server'', b_lit ''whatever''),
          (b_lit ''Content-Length'', content_length body),
          (b_lit ''Connection'', b_lit ''close'')]))) (\<lambda>data.
     bindS (on_parser (h11_send h (Sent_Data body))) (\<lambda>body_data.
     thenS (on_out (transport_write data))
           (on_out (transport_write body_data)))))"

definition newline :: bytes where
  "newline = [0x0A]"

definition send_http_response_forbidden :: "'p h11 \<Rightarrow> ('p http, unit) eff" where
  "send_http_response_forbidden h = send_http_response_with_body h 403 (b_lit ''forbidden'' @ newline)"

definition send_http_response_timeout :: "'p h11 \<Rightarrow> ('p http, unit) eff" where
  "send_http_response_timeout h = send_http_response_with_body h 504 (b_lit ''timeout'' @ newline)"

definition send_http_response_not_found :: "'p h11 \<Rightarrow> ('p http, unit) eff" where
  "send_http_response_not_found h = send_http_response_with_body h 404 (b_lit ''not found'' @ newline)"

definition send_http_response_ok :: "'p h11 \<Rightarrow> bytes \<Rightarrow> ('p http, unit) eff" where
  "send_http_response_ok h body = send_http_response_with_body h 200 (body @ newline)"

definition send_http_internal_server_error :: "'p h11 \<Rightarrow> ('p http, unit) eff" where
  "send_http_internal_server_error h =
     send_http_response_with_body h 500 (b_lit ''internal server error'' @ newline)"

section \<open>Requests\<close>

definition starts_with :: "bytes \<Rightarrow> string \<Rightarrow> bool" where
  \<comment> \<open>\<open>target.startswith(b'...')\<close>\<close>
  "starts_with t s \<longleftrightarrow> prefix (b_lit s) t"

definition path_part :: "nat \<Rightarrow> nat \<Rightarrow> bytes \<Rightarrow> ('p http, bytes) eff" where
  \<comment> \<open>\<open>target.split(b'/', maxsplit=n)[i]\<close>\<close>
  "path_part n i t =
     (let parts = py_split (tag (CHR ''/'')) t n
      in liftE (if i < length parts then Inr (parts ! i) else Inl IndexError))"

definition text_of :: "bytes \<Rightarrow> ('p http, pystr) eff" where
  \<comment> \<open>\<open>b.decode('utf-8')\<close>\<close>
  "text_of b = liftE (utf8_decode False b)"

definition wait_for :: "wait \<Rightarrow> ('p http, unit) eff" where
  \<comment> \<open>\<open>asyncio.ensure_future(...)\<close> with \<open>_on_get_done\<close> as its callback\<close>
  "wait_for x = modifyS (\<lambda>s. s\<lparr>futures := futures s @ [new_task x]\<rparr>)"

definition wait_for_tag :: "(int \<Rightarrow> wait) \<Rightarrow> bytes \<Rightarrow> ('p http, unit) eff" where
  "wait_for_tag x t =
     bindS (path_part 2 2 t) (\<lambda>delivery_tag.
     bindS (text_of delivery_tag) (\<lambda>d.
     bindS (liftE (int_of_str is_space d)) (\<lambda>n.
     wait_for (x n))))"

definition send_messages :: "'p h11 \<Rightarrow> stored list option \<Rightarrow> ('p http, unit) eff" where
  "send_messages h messages =
     (case messages of
        None \<Rightarrow> send_http_response_not_found h
      | Some ms \<Rightarrow>
          bindS (liftE (json_dumps (PList (map message_value ms)))) (\<lambda>text.
          bindS (liftE (utf8_encode False text)) (\<lambda>body.
          send_http_response_ok h body)))"

definition on_get :: "'p h11 \<Rightarrow> settings \<Rightarrow> bytes \<Rightarrow> ('p http, unit) eff" where
  "on_get h cfg t =
     (if t = b_lit ''/'' then
        bindS (getS (\<lambda>s. to_json (tag_order cfg) (the_broker_of s))) (\<lambda>r.
        bindS (liftE r) (\<lambda>text.
        bindS (liftE (utf8_encode False text)) (\<lambda>body.
        send_http_response_with_json_body h 200 body)))
      else if starts_with t ''/authentification-done-with-success-on/'' then
        bindS (path_part 2 2 t) (\<lambda>username. wait_for (Authentication username))
      else if starts_with t ''/messages-acknowledged/'' then wait_for_tag Acknowledged t
      else if starts_with t ''/messages-not-acknowledged/'' then wait_for_tag Not_Acknowledged t
      else if starts_with t ''/messages-requeued/'' then wait_for_tag Requeued t
      else if starts_with t ''/messages-in-queue/'' then
        bindS (path_part 2 2 t) (\<lambda>queue_name.
        bindS (text_of queue_name) (\<lambda>q.
        bindS (getS (\<lambda>s. get_messages_of_queue q (the_broker_of s))) (\<lambda>r.
        bindS (liftE r) (send_messages h))))
      else if starts_with t ''/messages-in-exchange/'' then
        bindS (path_part 2 2 t) (\<lambda>exchange_name.
        bindS (text_of exchange_name) (\<lambda>e.
        bindS (getS (\<lambda>s. get_messages_of_exchange e (the_broker_of s))) (\<lambda>r.
        bindS (liftE r) (send_messages h))))
      else if starts_with t ''/queue-bound-to-exchange/'' then
        (case py_split (tag (CHR ''/'')) t 3 of
           [_, _, queue_name, exchange_name] \<Rightarrow>
             bindS (text_of queue_name) (\<lambda>q.
             bindS (text_of exchange_name) (\<lambda>e.
             wait_for (Queue_Bound q e)))
         | _ \<Rightarrow> raiseS ValueError)
      else send_http_response_not_found h)"

fun sorted_headers :: "(bytes \<times> bytes) list \<Rightarrow> bool \<Rightarrow> pydict \<Rightarrow> (bool \<times> pydict) result" where
  \<comment> \<open>the loop of \<open>_build_message\<close>: \<open>has_octet_stream\<close> and \<open>kept_headers\<close>\<close>
  "sorted_headers [] octet kept = Inr (octet, kept)"
| "sorted_headers ((ty, value) # hs) octet kept =
     (if ty = b_lit ''content-type'' \<and> value = b_lit ''application/octet-stream''
      then sorted_headers hs True kept
      else if starts_with ty ''amqp_header_''
      then bindE (utf8_decode False (remove_all (b_lit ''amqp_header_'') ty)) (\<lambda>k.
           bindE (utf8_decode False value) (\<lambda>v.
           sorted_headers hs octet (AList.update k (PStr v) kept)))
      else sorted_headers hs octet kept)"

definition build_message :: "bytes \<Rightarrow> (bytes \<times> bytes) list \<Rightarrow> pyval result" where
  "build_message data hs =
     bindE (sorted_headers hs False []) (\<lambda>(octet, kept).
       if octet then Inr (PDict
         [(lit ''body'', PBytes data), (lit ''headers'', PDict kept), (lit ''binary'', PBool True)])
       else bindE (utf8_decode False data) json_loads)"

definition message_arguments :: "pyval \<Rightarrow> (pyval \<times> pyval \<times> bool) result" where
  \<comment> \<open>\<open>full_message['headers']\<close>, \<open>full_message['body']\<close> and whether it is binary\<close>
  "message_arguments full_message =
     bindE (py_getitem full_message (lit ''headers'')) (\<lambda>hdrs.
     bindE (py_getitem full_message (lit ''body'')) (\<lambda>body.
     bindE (py_has full_message (lit ''binary'')) (\<lambda>has.
     bindE (if has then py_getitem full_message (lit ''binary'') else Inr (PBool False)) (\<lambda>binary.
     Inr (hdrs, body, truthy binary)))))"

definition send_tag :: "'p h11 \<Rightarrow> int option \<Rightarrow> ('p http, unit) eff" where
  "send_tag h delivery_tag =
     (case delivery_tag of
        None \<Rightarrow> send_http_response_not_found h
      | Some n \<Rightarrow> bindS (liftE (utf8_encode False (int_text n))) (send_http_response_ok h))"

definition on_post ::
  "'p h11 \<Rightarrow> settings \<Rightarrow> bytes \<Rightarrow> bytes \<Rightarrow> (bytes \<times> bytes) list \<Rightarrow> ('p http, unit) eff" where
  "on_post h cfg t data hs =
     (if starts_with t ''/add-message-on/'' then
        bindS (path_part 2 2 t) (\<lambda>exchange_name.
        bindS (liftE (build_message data hs)) (\<lambda>full_message.
        bindS (text_of exchange_name) (\<lambda>e.
        bindS (liftE (message_arguments full_message)) (\<lambda>(hdrs, body, is_binary).
        bindS (on_server (publish_message (set_order cfg) e hdrs body is_binary)) (send_tag h)))))
      else if starts_with t ''/add-message-in-queue/'' then
        bindS (path_part 2 2 t) (\<lambda>queue_name.
        bindS (liftE (build_message data hs)) (\<lambda>full_message.
        bindS (text_of queue_name) (\<lambda>q.
        bindS (liftE (message_arguments full_message)) (\<lambda>(hdrs, body, is_binary).
        bindS (on_server (publish_message_in_queue q hdrs body is_binary)) (send_tag h)))))
      else if starts_with t ''/create-exchange/'' then
        bindS (path_part 3 2 t) (\<lambda>exchange_name.
        bindS (path_part 3 3 t) (\<lambda>exchange_ty.
        bindS (text_of exchange_name) (\<lambda>e.
        bindS (text_of exchange_ty) (\<lambda>ty.
        bindS (on_state (declare_exchange e ty)) (\<lambda>_.
        send_http_response_ok h (b_lit ''ok''))))))
      else if starts_with t ''/create-queue/'' then
        bindS (path_part 2 2 t) (\<lambda>queue_name.
        bindS (text_of queue_name) (\<lambda>q.
        bindS (on_state (declare_queue q)) (\<lambda>_.
        send_http_response_ok h (b_lit ''ok''))))
      else send_http_response_not_found h)"

definition on_delete :: "'p h11 \<Rightarrow> bytes \<Rightarrow> ('p http, unit) eff" where
  "on_delete h t =
     (if starts_with t ''/messages-in-queue/'' then
        bindS (path_part 2 2 t) (\<lambda>queue_name.
        bindS (text_of queue_name) (\<lambda>q.
        thenS (on_state (delete_messages_of_queue q)) (send_http_response_no_content h)))
      else if starts_with t ''/messages-in-exchange/'' then
        bindS (path_part 2 2 t) (\<lambda>exchange_name.
        bindS (text_of exchange_name) (\<lambda>e.
        thenS (on_state (delete_messages_of_exchange e)) (send_http_response_no_content h)))
      else send_http_response_not_found h)"

definition on_put :: "'p h11 \<Rightarrow> ('p http, unit) eff" where
  "on_put h = send_http_response_not_found h"

text \<open>
  The callback of a task: WaitTimeout is caught, any other exception of the future goes to the event
  loop and the request gets no response.
\<close>

definition on_get_done :: "'p h11 \<Rightarrow> bool result \<Rightarrow> ('p http, unit) eff" where
  "on_get_done h r =
     (case r of
        Inr success \<Rightarrow>
          if \<not> success then send_http_response_forbidden h else send_http_response_no_content h
      | Inl e \<Rightarrow> if e = WaitTimeout then send_http_response_timeout h else raiseS e)"

section \<open>Events\<close>

definition the_field :: "'a option \<Rightarrow> ('p http, 'a) eff" where
  \<comment> \<open>a use of a field that may still be None\<close>
  "the_field v = liftE (case v of None \<Rightarrow> Inl AttributeError | Some x \<Rightarrow> Inr x)"

definition on_request :: "'p h11 \<Rightarrow> settings \<Rightarrow> bytes \<Rightarrow> bytes \<Rightarrow> (bytes \<times> bytes) list \<Rightarrow> ('p http, unit) eff" where
  "on_request h cfg m t hs =
     thenS (modifyS (\<lambda>s. s\<lparr>verb := Some m, target := Some t, headers := Some hs\<rparr>))
      (if m = b_lit ''MOCK_FLUSH'' then
         thenS (on_state (reset (default_user cfg) (default_password cfg))) (send_http_response_no_content h)
       else if m = b_lit ''GET'' then on_get h cfg t
       else if m = b_lit ''DELETE'' then on_delete h t
       else if m = b_lit ''POST'' \<or> m = b_lit ''PUT'' then modifyS (request_state_update (\<lambda>_. WAITING_BODY))
       else returnS ())"

definition on_data :: "'p h11 \<Rightarrow> settings \<Rightarrow> bytes \<Rightarrow> ('p http, unit) eff" where
  "on_data h cfg data =
     bindS (getS verb) (\<lambda>m.
       if m = Some (b_lit ''POST'') then
         bindS (getS target) (\<lambda>t.
         bindS (getS headers) (\<lambda>hs.
         bindS (the_field t) (\<lambda>t.
         bindS (the_field hs) (\<lambda>hs.
         on_post h cfg t data hs))))
       else if m = Some (b_lit ''PUT'') then on_put h
       else returnS ())"

definition on_end_of_message :: "('p http, unit) eff" where
  "on_end_of_message = modifyS (\<lambda>s. s\<lparr>request_state := WAITING_HEADERS, verb := None, target := None, headers := None\<rparr>)"

text \<open>One round of the loop of \<open>_data_received\<close>: what it does with an event.\<close>

definition on_event :: "'p h11 \<Rightarrow> settings \<Rightarrow> event \<Rightarrow> ('p http, unit) eff" where
  "on_event h cfg ev =
     bindS (getS request_state) (\<lambda>st.
       case ev of
         Request m t hs \<Rightarrow> if st = WAITING_HEADERS then on_request h cfg m t hs else returnS ()
       | Data data \<Rightarrow> if st = WAITING_BODY then on_data h cfg data else returnS ()
       | EndOfMessage \<Rightarrow> on_end_of_message
       | _ \<Rightarrow> returnS ())"

definition one_round :: "'p h11 \<Rightarrow> settings \<Rightarrow> ('p http, event) eff" where
  "one_round h cfg = bindS (on_parser (h11_next_event h)) (\<lambda>ev. thenS (on_event h cfg ev) (returnS ev))"

text \<open>The loop ends at \<open>NEED_DATA\<close> only, or with an exception: None is a loop that does not end.\<close>

partial_function (option) event_loop ::
  "'p h11 \<Rightarrow> settings \<Rightarrow> 'p http \<Rightarrow> (unit result \<times> 'p http) option" where
  "event_loop h cfg s =
     (case one_round h cfg s of
        (Inl e, s') \<Rightarrow> Some (Inl e, s')
      | (Inr ev, s') \<Rightarrow> if ev = NEED_DATA then Some (Inr (), s') else event_loop h cfg s')"

text \<open>
  \<open>data_received\<close>: an exception is answered with an error and the connection is closed, then it is
  raised again. When the answer itself cannot be sent, its exception takes the place of the first one.
\<close>

definition fail_request :: "'p h11 \<Rightarrow> py_error \<Rightarrow> ('p http, unit) eff" where
  "fail_request h e =
     thenS (send_http_internal_server_error h)
    (thenS (on_out transport_close)
           (raiseS e))"

definition http_data_received :: "'p h11 \<Rightarrow> settings \<Rightarrow> bytes \<Rightarrow> 'p http \<Rightarrow> (unit result \<times> 'p http) option" where
  "http_data_received h cfg data s =
     (case (case on_parser (h11_receive_data h data) s of
              (Inl e, s') \<Rightarrow> Some (Inl e, s')
            | (Inr _, s') \<Rightarrow> event_loop h cfg s') of
        None \<Rightarrow> None
      | Some (Inr x, s') \<Rightarrow> Some (Inr x, s')
      | Some (Inl e, s') \<Rightarrow> Some (fail_request h e s'))"

section \<open>The event loop\<close>

text \<open>
  asyncio resumes a task that waits, and calls the callback of one that is done, once.
\<close>

definition resume_task :: "nat \<Rightarrow> ('p http, unit) eff" where
  "resume_task i = modifyS (\<lambda>s. s\<lparr>futures := (futures s)[i := resume (the_broker_of s) (futures s ! i)]\<rparr>)"

definition call_back :: "'p h11 \<Rightarrow> nat \<Rightarrow> bool result \<Rightarrow> ('p http, unit) eff" where
  "call_back h i r =
     thenS (modifyS (\<lambda>s. s\<lparr>futures := take i (futures s) @ drop (Suc i) (futures s)\<rparr>))
           (on_get_done h r)"

end
