(* ===== verification/Http_Steps.thy ===== *)
theory Http_Steps
  imports Http
begin

text \<open>
  What a request may change. A predicate on an HTTP connection and the server behind it that the
  operations a handler is made of keep is kept by every handler, and with that of the parser by all
  of \<open>data_received\<close>, by the tasks and by their callbacks. Instances: HTTP does to the server nothing
  but the steps of its other clients, and it does not touch the AMQP connections.
\<close>

section \<open>Handlers\<close>

lemma keeps_path: "keeps Q (path_part n i t)"
  and keeps_text: "keeps Q (text_of b)"
  and keeps_field: "keeps Q (the_field v)"
  by (simp_all add: path_part_def text_of_def the_field_def keeps_liftE Let_def)

lemmas keeps_http_rules = keeps_rules keeps_path keeps_text keeps_field

locale http_responses =
  fixes I :: "'p http \<Rightarrow> bool" and h :: "'p h11"
  assumes keeps_send: "keeps I (on_parser (h11_send h ev))"
    and keeps_write: "keeps I (on_out (transport_write b))"
    and keeps_date: "keeps I date_now"
begin

lemma keeps_responses:
  "keeps I (send_http_response_no_content h)"
  "keeps I (send_http_response_with_json_body h n body)"
  "keeps I (send_http_response_with_body h n body)"
  unfolding send_http_response_no_content_def send_http_response_with_json_body_def
    send_http_response_with_body_def
  by (intro keeps_http_rules keeps_send keeps_write keeps_date)+

lemma keeps_bodies:
  "keeps I (send_http_response_forbidden h)"
  "keeps I (send_http_response_timeout h)"
  "keeps I (send_http_response_not_found h)"
  "keeps I (send_http_response_ok h body)"
  "keeps I (send_http_internal_server_error h)"
  unfolding send_http_response_forbidden_def send_http_response_timeout_def
    send_http_response_not_found_def send_http_response_ok_def send_http_internal_server_error_def
  by (rule keeps_responses)+

lemma keeps_answers:
  "keeps I (send_messages h ms)"
  "keeps I (send_tag h n)"
  by (auto simp: send_messages_def send_tag_def split: option.split intro!: keeps_http_rules keeps_bodies)

lemma keeps_on_get_done: "keeps I (on_get_done h r)"
  unfolding on_get_done_def
  by (cases r) (auto intro!: keeps_http_rules keeps_responses keeps_bodies)

end

text \<open>An inspection answers, or starts a wait.\<close>

locale http_readers = http_responses I h for I :: "'p http \<Rightarrow> bool" and h +
  assumes keeps_wait: "keeps I (wait_for x)"
begin

lemma keeps_wait_for_tag: "keeps I (wait_for_tag x b)"
  unfolding wait_for_tag_def by (intro keeps_http_rules keeps_wait)

lemma keeps_on_get: "keeps I (on_get h cfg t)"
proof -
  have "keeps I (case parts of [_, _, q, e] \<Rightarrow>
      bindS (text_of q) (\<lambda>q. bindS (text_of e) (\<lambda>e. wait_for (Queue_Bound q e)))
    | _ \<Rightarrow> raiseS ValueError)" for parts
    by (auto split: list.split intro!: keeps_http_rules keeps_wait)
  then show ?thesis
    unfolding on_get_def by (intro keeps_http_rules keeps_responses keeps_bodies keeps_answers keeps_wait keeps_wait_for_tag)
qed

end

text \<open>The other handlers also act on the shared state.\<close>

locale http_handlers = http_readers I h for I :: "'p http \<Rightarrow> bool" and h +
  fixes cfg :: settings
  assumes keeps_publish_message: "keeps I (on_server (publish_message (set_order cfg) e hdrs body is_binary))"
    and keeps_publish_message_in_queue: "keeps I (on_server (publish_message_in_queue q hdrs body is_binary))"
    and keeps_create_exchange: "keeps I (on_state (declare_exchange e ty))"
    and keeps_create_queue: "keeps I (on_state (declare_queue q))"
    and keeps_delete_queue: "keeps I (on_state (delete_messages_of_queue q))"
    and keeps_delete_exchange: "keeps I (on_state (delete_messages_of_exchange e))"
    and keeps_flush: "keeps I (on_state (reset (default_user cfg) (default_password cfg)))"
begin

lemma keeps_on_post: "keeps I (on_post h cfg t data hs)"
  unfolding on_post_def
  by (intro keeps_http_rules keeps_answers keeps_bodies
      keeps_publish_message keeps_publish_message_in_queue keeps_create_exchange keeps_create_queue)

lemma keeps_on_delete: "keeps I (on_delete h t)"
  unfolding on_delete_def
  by (intro keeps_http_rules keeps_responses keeps_bodies keeps_delete_queue keeps_delete_exchange)

lemma keeps_on_data: "keeps I (on_data h cfg data)"
  unfolding on_data_def on_put_def by (intro keeps_http_rules keeps_on_post keeps_bodies)

end

text \<open>With the fields that say where in a request the connection is, of which no handler takes notice.\<close>

locale http_invariant = http_handlers I h cfg for I :: "'p http \<Rightarrow> bool" and h cfg +
  assumes keeps_fields: "keeps I (modifyS (\<lambda>s. s\<lparr>verb := m, target := t, headers := hs\<rparr>))"
    and keeps_state: "keeps I (modifyS (request_state_update (\<lambda>_. st)))"
begin

lemma keeps_on_request: "keeps I (on_request h cfg m t hs)"
  unfolding on_request_def
  by (intro keeps_http_rules keeps_responses keeps_flush keeps_on_get keeps_on_delete keeps_fields keeps_state)

lemma keeps_on_end_of_message: "keeps I on_end_of_message"
proof -
  have e: "on_end_of_message = thenS (modifyS (request_state_update (\<lambda>_. WAITING_HEADERS)))
      (modifyS (\<lambda>s. s\<lparr>verb := None, target := None, headers := None\<rparr>))"
    by (simp add: on_end_of_message_def fun_eq_iff)
  show ?thesis unfolding e by (intro keeps_http_rules keeps_fields keeps_state)
qed

lemma keeps_on_event: "keeps I (on_event h cfg ev)"
  unfolding on_event_def
  by (cases ev) (auto intro!: keeps_http_rules keeps_on_request keeps_on_data keeps_on_end_of_message)

end

section \<open>Connections\<close>

locale http_connection_invariant = http_invariant I h cfg for I :: "'p http \<Rightarrow> bool" and h cfg +
  assumes keeps_next: "keeps I (on_parser (h11_next_event h))"
    and keeps_receive: "keeps I (on_parser (h11_receive_data h data))"
    and keeps_close: "keeps I (on_out transport_close)"
begin

lemma keeps_one_round: "keeps I (one_round h cfg)"
  unfolding one_round_def by (intro keeps_http_rules keeps_on_event keeps_next)

lemma event_loop_keeps:
  assumes "event_loop h cfg s = Some y" and "I s"
  shows "I (snd y)"
proof -
  have "h' = h \<longrightarrow> c = cfg \<longrightarrow> I s \<longrightarrow> I (snd y)" if "event_loop h' c s = Some y" for h' c
  proof (rule event_loop.raw_induct [where P = "\<lambda>h' c s y. h' = h \<longrightarrow> c = cfg \<longrightarrow> I s \<longrightarrow> I (snd y)", OF _ that], goal_cases)
    case (1 loop h' c s y)
    obtain r s1 where r: "one_round h' c s = (r, s1)" by (cases "one_round h' c s")
    with keepsD [OF keeps_one_round, of s] have "h' = h \<Longrightarrow> c = cfg \<Longrightarrow> I s \<Longrightarrow> I s1" by simp
    with 1 r show ?case by (cases r) (auto split: if_splits)
  qed
  with assms show ?thesis by blast
qed

lemma http_data_received_keeps:
  assumes "http_data_received h cfg data s = Some y" and "I s"
  shows "I (snd y)"
proof -
  have f: "keeps I (fail_request h e)" for e
    unfolding fail_request_def by (intro keeps_http_rules keeps_bodies keeps_close)
  obtain r s1 where r: "on_parser (h11_receive_data h data) s = (r, s1)"
    by (cases "on_parser (h11_receive_data h data) s")
  with keepsD [OF keeps_receive [of data], of s] assms(2) have s1: "I s1" by simp
  show ?thesis
  proof (cases r)
    case (Inl e)
    with assms r show ?thesis using keepsD [OF f s1] by (auto simp: http_data_received_def)
  next
    case (Inr u)
    with assms(1) r obtain z where z: "event_loop h cfg s1 = Some z"
      by (auto simp: http_data_received_def split: option.splits)
    with assms(1) r Inr event_loop_keeps [OF z s1] keepsD [OF f, of "snd z"] show ?thesis
      by (cases z; cases "fst z") (auto simp: http_data_received_def)
  qed
qed

end

section \<open>Instances\<close>

text \<open>
  A predicate on the server alone is kept when the operations on the shared state keep it.
\<close>

lemma keeps_on_server: "keeps P m \<Longrightarrow> keeps (\<lambda>s. P (server s)) (on_server m)"
  by (simp add: keeps_def on_server_def split: prod.split) (metis snd_conv)

lemma keeps_on_state: "keeps P (on_broker m) \<Longrightarrow> keeps (\<lambda>s. P (server s)) (on_state m)"
  unfolding on_state_def by (rule keeps_on_server)

lemma keeps_not_server:
  "keeps (\<lambda>s. P (server s)) (on_parser m)" "keeps (\<lambda>s. P (server s)) (on_out m')"
  "keeps (\<lambda>s. P (server s)) date_now" "keeps (\<lambda>s. P (server s)) (wait_for x)"
  "keeps (\<lambda>s. P (server s)) (modifyS (\<lambda>s. s\<lparr>verb := v, target := t, headers := hs\<rparr>))"
  "keeps (\<lambda>s. P (server s)) (modifyS (request_state_update (\<lambda>_. st)))"
  by (simp_all add: keeps_def on_parser_def on_out_def date_now_def wait_for_def split: prod.split)

lemmas server_only = keeps_on_server keeps_on_state keeps_not_server

text \<open>An answer or a wait leaves the server as it is.\<close>

interpretation answers: http_readers "\<lambda>s. P (server s)" h for P h
  by unfold_locales (rule server_only)+

text \<open>Every operation that HTTP reaches is a step of the server, and none of them is a step of AMQP.\<close>

lemma keeps_reachable:
  "(\<And>w r w'. m w = (r, w') \<Longrightarrow> server_step so user password w w') \<Longrightarrow>
     keeps (reachable so user password ds) m"
  by (metis keepsI prod.collapse reachable.Step)

interpretation steps: http_connection_invariant
  "\<lambda>s. reachable (set_order cfg) (default_user cfg) (default_password cfg) ds (server s)" h cfg for ds h cfg
  by unfold_locales (rule server_only | rule keeps_reachable, erule server_step.intros)+

lemma keeps_trackers:
  "keeps (\<lambda>w. trackers w = ts) (publish_message so e hdrs body is_binary)"
  "keeps (\<lambda>w. trackers w = ts) (publish_message_in_queue q hdrs body is_binary)"
  "keeps (\<lambda>w. trackers w = ts) (on_broker m)"
  using keeps_publish [of "\<lambda>_. True"] keeps_publish_in_queue [of "\<lambda>_. True"]
  by (auto simp: keeps_def on_broker_apply)

interpretation amqp_side: http_connection_invariant "\<lambda>s. trackers (server s) = ts" h cfg for ts h cfg
  by unfold_locales (rule server_only | rule keeps_trackers)+

text \<open>
  The handlers leave the fields of the request alone, so a request whose body is awaited has its
  method, its target and its headers.
\<close>

definition request_fields :: "'p http \<Rightarrow> request_state \<times> bytes option \<times> bytes option \<times> (bytes \<times> bytes) list option" where
  "request_fields s = (request_state s, verb s, target s, headers s)"

interpretation own_request: http_handlers "\<lambda>s. request_fields s = x" h cfg for x h cfg
  by unfold_locales (simp_all add: request_fields_def keeps_def on_parser_def on_out_def date_now_def
      wait_for_def on_server_def on_state_def split: prod.split)

definition request_ok :: "'p http \<Rightarrow> bool" where
  "request_ok s \<longleftrightarrow> (request_state s = WAITING_BODY \<longrightarrow> verb s \<noteq> None \<and> target s \<noteq> None \<and> headers s \<noteq> None)"

lemma request_ok_on_event:
  fixes h :: "'p h11"
  shows "keeps request_ok (on_event h cfg ev)"
proof -
  have get: "keeps (\<lambda>s. request_fields s = x) (on_get h cfg t)"
    and del: "keeps (\<lambda>s. request_fields s = x) (on_delete h t)"
    and data: "keeps (\<lambda>s. request_fields s = x) (on_data h cfg data)"
    and flush: "keeps (\<lambda>s. request_fields s = x) (thenS (on_state (reset u p)) (send_http_response_no_content h))"
    for x t data u p
    by (rule own_request.keeps_on_get own_request.keeps_on_delete own_request.keeps_on_data)+
      (intro keeps_http_rules own_request.keeps_responses,
        simp add: keeps_def request_fields_def on_state_def on_server_def split: prod.split)
  have from_fields: "keeps request_ok m" if "\<And>x. keeps (\<lambda>s. request_fields s = x) m" for m :: "('p http, unit) eff"
    using that by (auto simp: keeps_def request_fields_def request_ok_def)
  have "keeps request_ok (on_request h cfg m t hs)" for m t hs
  proof (rule keepsI)
    fix s :: "'p http"
    let ?s = "s\<lparr>verb := Some m, target := Some t, headers := Some hs\<rparr>"
    have s: "request_ok ?s" and b: "request_ok (?s\<lparr>request_state := WAITING_BODY\<rparr>)"
      by (simp_all add: request_ok_def)
    show "request_ok (snd (on_request h cfg m t hs s))"
      using keepsD [OF from_fields [OF get] s] keepsD [OF from_fields [OF del] s]
        keepsD [OF from_fields [OF flush] s] s b
      unfolding on_request_def bindS_simps
      by (auto simp only: modifyS_apply returnS_apply snd_conv split: if_split)
  qed
  with from_fields [OF data] show ?thesis
    unfolding on_event_def
    by (cases ev) (auto intro!: keeps_http_rules simp: keeps_def on_end_of_message_def request_ok_def)
qed

end
