(* ===== verification/Json_Codec.thy ===== *)
theory Json_Codec
  imports Json
begin

text \<open>
  Reading back what \<open>json.dumps\<close> wrote: strings with their escapes, integers, and nested lists and
  dictionaries.
\<close>

section \<open>Strings\<close>

lemma alist_update_new: "k \<notin> fst ` set d \<Longrightarrow> AList.update k v d = d @ [(k, v)]"
  by (induction d) auto

lemma hex_value_digit: "d < 16 \<Longrightarrow> hex_value (hex_digit d) = Inr d"
  by (simp add: hex_value_def hex_digit_def is_digit_def)

lemma hex4_value_text:
  assumes "n < 0x10000"
  shows "hex4_value (hex_digit (n div 4096 mod 16)) (hex_digit (n div 256 mod 16))
    (hex_digit (n div 16 mod 16)) (hex_digit (n mod 16)) = Inr n"
proof -
  define a b c where "a = n div 16" and "b = a div 16" and "c = b div 16"
  have q: "n div 256 = b" "n div 4096 = c"
    using div_mult2_eq [of n 16 16] div_mult2_eq [of n 256 16] by (simp_all add: a_def b_def c_def)
  have "c mod 16 = c" using less_mult_imp_div_less [of n 16 4096] assms q by simp
  moreover have "n = a * 16 + n mod 16" "a = b * 16 + a mod 16" "b = c * 16 + b mod 16"
    by (simp_all add: a_def b_def c_def)
  ultimately have "n div 4096 mod 16 * 4096 + n div 256 mod 16 * 256 + n div 16 mod 16 * 16 + n mod 16 = n"
    unfolding q a_def [symmetric] by linarith
  then show ?thesis by (simp only: hex4_value_def hex_value_digit bindE_Inr mod_less_divisor zero_less_numeral)
qed

lemma unicode_escape_bmp:
  assumes "n < 0x10000" and "\<not> is_surrogate n"
  shows "unicode_escape (drop 2 (hex4 n) @ s) = Inr (n, s)"
proof -
  have "unicode_escape (drop 2 (hex4 n) @ s) =
    bindE (Inr n) (\<lambda>n. if 0xD800 \<le> n \<and> n \<le> 0xDBFF then
        (case s of
           x # y # a' # b' # c' # d' # s2 \<Rightarrow>
             if x = 92 \<and> y = 117 then
               bindE (hex4_value a' b' c' d') (\<lambda>m.
                 if 0xDC00 \<le> m \<and> m \<le> 0xDFFF
                 then Inr (0x10000 + (n - 0xD800) * 1024 + (m - 0xDC00), s2)
                 else Inr (n, s))
             else Inr (n, s)
         | _ \<Rightarrow> Inr (n, s))
      else Inr (n, s))"
    using assms(1) by (simp only: hex4_def unicode_escape_def drop_Suc_Cons drop_0 append.simps list.case
        hex4_value_text numeral_2_eq_2)
  with assms(2) show ?thesis by (auto simp: is_surrogate_def)
qed

lemma unicode_escape_pair:
  assumes "0x10000 \<le> n" and "n < 0x110000"
  shows "unicode_escape (drop 2 (hex4 (0xD800 + (n - 0x10000) div 1024 mod 1024))
    @ hex4 (0xDC00 + n mod 1024) @ s) = Inr (n, s)"
proof -
  let ?h = "0xD800 + (n - 0x10000) div 1024 mod 1024" and ?l = "0xDC00 + n mod 1024"
  have "?h < 0x10000" "?l < 0x10000" and r: "0xD800 \<le> ?h" "?h \<le> 0xDBFF" "0xDC00 \<le> ?l" "?l \<le> 0xDFFF"
    using mod_less_divisor [of 1024 "(n - 0x10000) div 1024"] mod_less_divisor [of 1024 n] by linarith+
  moreover have "0x10000 + (?h - 0xD800) * 1024 + (?l - 0xDC00) = n"
  proof -
    obtain m where n: "n = m + 1024 * 64" using assms(1) by (auto dest: le_Suc_ex)
    with assms(2) have "m div 1024 < 1024" by (simp add: less_mult_imp_div_less)
    moreover have "n mod 1024 = m mod 1024" unfolding n by (rule mod_mult_self2)
    moreover have "n - 0x10000 = m" using n by simp
    ultimately show ?thesis using n div_mult_mod_eq [of m 1024] by simp
  qed
  ultimately show ?thesis
    by (simp only: hex4_def unicode_escape_def drop_Suc_Cons drop_0 append.simps list.case
        hex4_value_text bindE_Inr numeral_2_eq_2) simp
qed

lemma scan_string_plain:
  "c \<noteq> 34 \<Longrightarrow> c \<noteq> 92 \<Longrightarrow> 32 \<le> c \<Longrightarrow>
     scan_string (c # s) = bindE (scan_string s) (\<lambda>(t, r). Inr (c # t, r))"
  by (subst scan_string.simps) simp

lemma scan_string_escape:
  "simple_escape e = Some c \<Longrightarrow> e \<noteq> 117 \<Longrightarrow>
     scan_string (92 # e # s) = bindE (scan_string s) (\<lambda>(t, r). Inr (c # t, r))"
  by (subst scan_string.simps) simp

lemma scan_string_unicode:
  "unicode_escape s = Inr (c, r0) \<Longrightarrow>
     scan_string (92 # 117 # s) = bindE (scan_string r0) (\<lambda>(t, r). Inr (c # t, r))"
  by (subst scan_string.simps) simp

lemma hex4_split: "hex4 n = 92 # 117 # drop 2 (hex4 n)"
  by (simp add: hex4_def)

lemma scan_string_char:
  assumes "valid_cp False c"
  shows "scan_string (json_char c @ s) = bindE (scan_string s) (\<lambda>(t, r). Inr (c # t, r))"
proof -
  have v: "c < 0x110000" "\<not> is_surrogate c" using assms by (simp_all add: valid_cp_def)
  have bmp: "scan_string (hex4 c @ s) = bindE (scan_string s) (\<lambda>(t, r). Inr (c # t, r))" if "c < 0x10000"
    using scan_string_unicode [OF unicode_escape_bmp [OF that v(2), of s]]
    by (subst hex4_split) (simp del: drop_Suc)
  have pair: "scan_string (hex4 (0xD800 + (c - 0x10000) div 1024 mod 1024) @ hex4 (0xDC00 + c mod 1024) @ s)
      = bindE (scan_string s) (\<lambda>(t, r). Inr (c # t, r))" if "\<not> c < 0x10000"
    using scan_string_unicode [OF unicode_escape_pair [of c s]] that v(1)
    by (subst hex4_split [of "0xD800 + (c - 0x10000) div 1024 mod 1024"]) (simp del: drop_Suc)
  show ?thesis
    using bmp pair
    by (simp add: json_char_def scan_string_plain scan_string_escape simple_escape_def)
qed

lemma scan_json_string:
  "valid_str False s \<Longrightarrow> scan_string (concat (map json_char s) @ 34 # rest) = Inr (s, rest)"
proof (induction s)
  case Nil
  then show ?case by (subst scan_string.simps) simp
next
  case (Cons c s)
  then show ?case by (simp add: scan_string_char)
qed

section \<open>Integers\<close>

lemma nat_text_digits: "\<forall>c\<in>set (nat_text n). is_digit c"
proof (induction n rule: nat_text.induct)
  case (1 n)
  then show ?case by (subst nat_text.simps) (auto simp: is_digit_def)
qed

lemma nat_text_nonempty: "nat_text n \<noteq> []"
  by (subst nat_text.simps) simp

lemma digits_nat_snoc: "digits_nat (ds @ [c]) = 10 * digits_nat ds + (c - 48)"
  by (simp add: digits_nat_def)

lemma digits_nat_text: "digits_nat (nat_text n) = n"
proof (induction n rule: nat_text.induct)
  case (1 n)
  then show ?case
    by (subst nat_text.simps) (auto simp: digits_nat_snoc, simp add: digits_nat_def)
qed

lemma nat_text_head: "hd (nat_text n) = 48 \<Longrightarrow> n = 0"
proof (induction n rule: nat_text.induct)
  case (1 n)
  show ?case
  proof (cases "n < 10")
    case True
    with 1(2) show ?thesis by (subst (asm) nat_text.simps) simp
  next
    case False
    with 1(2) have "hd (nat_text (n div 10)) = 48"
      by (subst (asm) nat_text.simps) (simp add: nat_text_nonempty)
    with 1(1) False have "n div 10 = 0" by simp
    with False show ?thesis by simp
  qed
qed

text \<open>What may stand behind a value: nothing, a comma, a closing bracket or a newline.\<close>

definition delimited :: "pystr \<Rightarrow> bool" where
  "delimited s \<longleftrightarrow> (case s of [] \<Rightarrow> True | c # _ \<Rightarrow> c = 44 \<or> c = 93 \<or> c = 125 \<or> c = 10)"

lemma scan_digits_text:
  assumes "delimited rest"
  shows "scan_digits neg (nat_text n @ rest) = Inr (PInt (if neg then - int n else int n), rest)"
proof -
  obtain c cs where t: "nat_text n = c # cs" using nat_text_nonempty by (cases "nat_text n") auto
  have d: "is_digit c" "\<forall>x\<in>set cs. is_digit x" using nat_text_digits [of n] t by auto
  have t0: "takeWhile is_digit rest = []" and d0: "dropWhile is_digit rest = rest"
    using assms by (auto simp: delimited_def is_digit_def split: list.splits)
  have r: "takeWhile is_digit (cs @ rest) = cs" "dropWhile is_digit (cs @ rest) = rest"
    using d(2) t0 d0 by (simp_all add: takeWhile_append2 dropWhile_append2)
  have e: "scan_exponent neg ip [] rest = (number_value neg ip [] None, rest)" for ip
    using assms by (simp add: scan_exponent_def delimited_def split: list.splits) auto
  have f: "scan_fraction neg ip rest = (number_value neg ip [] None, rest)" for ip
    using assms e [of ip] by (cases rest) (auto simp: scan_fraction_def delimited_def split: list.split)
  have v: "number_value neg (nat_text n) [] None = PInt (if neg then - int n else int n)"
    by (simp add: number_value_def digits_nat_text)
  have z: "cs = []" if "c = 48"
  proof -
    have "n = 0" using nat_text_head [of n] t that by simp
    moreover have "nat_text 0 = [48]" by (subst nat_text.simps) simp
    ultimately show ?thesis using t by simp
  qed
  show ?thesis
  proof (cases "c = 48")
    case True
    with z v t have "number_value neg [48] [] None = PInt (if neg then - int n else int n)" by simp
    with True z show ?thesis by (simp add: scan_digits_def t f)
  next
    case False
    with d(1) v show ?thesis by (simp add: scan_digits_def t r f)
  qed
qed

section \<open>Values\<close>

text \<open>
  The values that survive: strings without surrogates, dictionaries with distinct keys, and none of
  the types JSON has no text for; floats are left out.
\<close>

fun plain_json :: "pyval \<Rightarrow> bool" where
  "plain_json PNone = True"
| "plain_json (PBool b) = True"
| "plain_json (PInt i) = True"
| "plain_json (PStr s) = valid_str False s"
| "plain_json (PList l) = list_all (\<lambda>v. plain_json v) l"
| "plain_json (PDict d) =
     (distinct (map fst d) \<and> list_all (valid_str False) (map fst d) \<and> list_all (\<lambda>v. plain_json v) (map snd d))"
| "plain_json _ = False"

text \<open>The head of the text of a value is neither white space nor a closing bracket nor a byte order mark.\<close>

definition opens :: "pystr \<Rightarrow> bool" where
  "opens s \<longleftrightarrow> (case s of [] \<Rightarrow> False | c # _ \<Rightarrow> \<not> json_space c \<and> c \<notin> {93, 125, 0xFEFF})"

lemma opens_append [simp]: "opens s \<Longrightarrow> opens (s @ t)"
  by (auto simp: opens_def split: list.splits)

lemma opens_skip [simp]: "opens s \<Longrightarrow> skip_ws s = s"
  by (auto simp: opens_def split: list.splits)

lemma opens_not_closed [simp]: "opens s \<Longrightarrow> \<not> prefix [93] s" "opens s \<Longrightarrow> \<not> prefix [125] s"
  "opens s \<Longrightarrow> \<not> prefix [0xFEFF] s"
  by (auto simp: opens_def split: list.splits)

lemma nat_text_opens: "opens (nat_text n)"
  using nat_text_digits [of n] nat_text_nonempty [of n]
  by (cases "nat_text n") (auto simp: opens_def is_digit_def json_space_def)

lemma json_value_opens: "json_value v = Inr t \<Longrightarrow> plain_json v \<Longrightarrow> opens t"
  using nat_text_opens
  by (cases v) (auto simp: int_text_def json_string_def opens_def json_space_def lit_def elim!: bindE_InrE)

lemma json_items_opens: "json_items (v # vs) = Inr t \<Longrightarrow> plain_json v \<Longrightarrow> opens t"
  by (cases vs) (auto elim!: bindE_InrE dest: json_value_opens)

lemma json_pairs_opens: "json_pairs (e # d) = Inr t \<Longrightarrow> opens t"
  by (cases e; cases d) (auto simp: json_string_def opens_def json_space_def elim!: bindE_InrE)

lemma json_parse_quote: "json_parse (34 # s) = bindE (scan_string s) (\<lambda>(t, r). Inr (PStr t, r))"
  by (subst json_parse.simps) simp

lemma json_parse_list:
  "opens s \<Longrightarrow> json_parse (91 # s) = bindE (json_elements s []) (\<lambda>(l, r). Inr (PList l, r))"
  by (subst json_parse.simps) simp

lemma json_parse_dict:
  "opens s \<Longrightarrow> json_parse (123 # s) = bindE (json_members s []) (\<lambda>(d, r). Inr (PDict d, r))"
  by (subst json_parse.simps) simp

lemma json_parse_empty:
  "json_parse (91 # 93 # r) = Inr (PList [], r)" "json_parse (123 # 125 # r) = Inr (PDict [], r)"
  by (subst json_parse.simps, simp add: json_space_def)+

lemma json_parse_other: "c \<noteq> 34 \<Longrightarrow> c \<noteq> 123 \<Longrightarrow> c \<noteq> 91 \<Longrightarrow> json_parse (c # s) = scan_scalar (c # s)"
  by (subst json_parse.simps) simp

lemma json_parse_word:
  "json_parse (lit ''null'' @ r) = Inr (PNone, r)"
  "json_parse (lit ''true'' @ r) = Inr (PBool True, r)"
  "json_parse (lit ''false'' @ r) = Inr (PBool False, r)"
  by (simp_all add: lit_def json_parse_other scan_scalar_def json_literals_def)

lemma json_parse_int:
  assumes "delimited rest"
  shows "json_parse (int_text i @ rest) = Inr (PInt i, rest)"
proof -
  obtain c cs where t: "nat_text (nat \<bar>i\<bar>) = c # cs"
    using nat_text_nonempty by (cases "nat_text (nat \<bar>i\<bar>)") auto
  have c: "48 \<le> c" "c \<le> 57" using nat_text_digits [of "nat \<bar>i\<bar>"] t by (auto simp: is_digit_def)
  show ?thesis
  proof (cases "i < 0")
    case True
    with c t have "literals json_literals (int_text i @ rest) = None"
      by (auto simp: int_text_def json_literals_def lit_def)
    with True t scan_digits_text [OF assms, of True "nat (- i)"] show ?thesis
      by (simp add: int_text_def json_parse_other scan_scalar_def scan_number_def)
  next
    case False
    with c t have "literals json_literals (int_text i @ rest) = None"
      by (auto simp: int_text_def json_literals_def lit_def)
    with False t c scan_digits_text [OF assms, of False "nat i"] show ?thesis
      by (simp add: int_text_def json_parse_other scan_scalar_def scan_number_def)
  qed
qed

lemma json_parse_string: "valid_str False s \<Longrightarrow> json_parse (json_string s @ rest) = Inr (PStr s, rest)"
  by (simp add: json_string_def json_parse_quote scan_json_string)

lemma json_elements_last:
  "json_parse (t @ 93 # rest) = Inr (v, 93 # rest) \<Longrightarrow> json_elements (t @ 93 # rest) l = Inr (l @ [v], rest)"
  by (subst json_elements.simps) (simp add: json_space_def)

lemma json_elements_more:
  "json_parse (t @ 44 # 32 # s) = Inr (v, 44 # 32 # s) \<Longrightarrow> opens s \<Longrightarrow>
     json_elements (t @ 44 # 32 # s) l = json_elements s (l @ [v])"
  by (subst json_elements.simps) (simp add: json_space_def)

lemma json_members_key:
  assumes "valid_str False k" and "opens t"
  shows "json_members (json_string k @ 58 # 32 # t) d =
     bindE (json_parse t) (\<lambda>(v, r2).
       case skip_ws r2 of
         [] \<Rightarrow> Inl ValueError
       | c # r3 \<Rightarrow>
           if c = 125 then Inr (AList.update k v d, r3)
           else if c = 44 then json_members (skip_ws r3) (AList.update k v d)
           else Inl ValueError)"
  using assms by (subst json_members.simps) (simp add: json_string_def scan_json_string json_space_def)

lemma json_read_back:
  "json_value v = Inr t \<Longrightarrow> plain_json v \<Longrightarrow> delimited rest \<Longrightarrow> json_parse (t @ rest) = Inr (v, rest)"
  "json_items vs = Inr ts \<Longrightarrow> vs \<noteq> [] \<Longrightarrow> list_all plain_json vs \<Longrightarrow>
     json_elements (ts @ 93 # rest) l = Inr (l @ vs, rest)"
  "json_pairs d = Inr ps \<Longrightarrow> d \<noteq> [] \<Longrightarrow> distinct (map fst (d' @ d)) \<Longrightarrow>
     list_all (valid_str False) (map fst d) \<Longrightarrow> list_all plain_json (map snd d) \<Longrightarrow>
     json_members (ps @ 125 # rest) d' = Inr (d' @ d, rest)"
proof (induction v and vs and d arbitrary: t rest and ts rest l and ps rest d'
    rule: json_value_json_items_json_pairs.induct)
  case (6 l)
  then obtain ts where ts: "json_items l = Inr ts" "t = 91 # ts @ [93]" by (auto elim!: bindE_InrE)
  show ?case
  proof (cases l)
    case Nil
    with ts show ?thesis by (simp add: json_parse_empty)
  next
    case (Cons v vs)
    with 6 ts json_items_opens [of v vs ts] show ?thesis by (simp add: json_parse_list)
  qed
next
  case (7 d)
  then obtain ps where ps: "json_pairs d = Inr ps" "t = 123 # ps @ [125]" by (auto elim!: bindE_InrE)
  show ?case
  proof (cases d)
    case Nil
    with ps show ?thesis by (simp add: json_parse_empty)
  next
    case (Cons e es)
    with 7 ps json_pairs_opens [of e es ps] show ?thesis by (simp add: json_parse_dict)
  qed
next
  case (10 v)
  then show ?case by (simp add: json_elements_last delimited_def)
next
  case (11 v w vs)
  then obtain t us where t: "json_value v = Inr t" "json_items (w # vs) = Inr us" "ts = t @ [44, 32] @ us"
    by (auto elim!: bindE_InrE)
  with 11 have "json_parse (t @ 44 # 32 # us @ 93 # rest) = Inr (v, 44 # 32 # us @ 93 # rest)"
    by (simp add: delimited_def)
  with 11 t json_items_opens [of w vs us] show ?case by (simp add: json_elements_more)
next
  case (13 k v)
  then obtain t where t: "json_value v = Inr t" "ps = json_string k @ [58, 32] @ t"
    by (auto elim!: bindE_InrE)
  with 13 have "json_parse (t @ 125 # rest) = Inr (v, 125 # rest)" by (simp add: delimited_def)
  with 13 t json_value_opens [of v t] show ?case
    by (simp add: json_members_key json_space_def alist_update_new)
next
  case (14 k v e d)
  then obtain t qs where t: "json_value v = Inr t" "json_pairs (e # d) = Inr qs"
      "ps = json_string k @ [58, 32] @ t @ [44, 32] @ qs"
    by (auto elim!: bindE_InrE)
  with 14 have "json_parse (t @ 44 # 32 # qs @ 125 # rest) = Inr (v, 44 # 32 # qs @ 125 # rest)"
    by (simp add: delimited_def)
  moreover have "json_members (qs @ 125 # rest) (d' @ [(k, v)]) = Inr ((d' @ [(k, v)]) @ e # d, rest)"
    by (rule 14(2) [OF t(1)]) (use 14(4-) t(2) in auto)
  ultimately show ?case
    using 14(4-) t json_value_opens [of v t] json_pairs_opens [of e d qs] by (simp add: json_members_key json_space_def alist_update_new)
qed (auto simp: json_parse_word json_parse_int json_parse_string)

lemma json_round_trip:
  assumes "json_dumps v = Inr t" and "plain_json v"
  shows "json_loads t = Inr v" and "json_loads (t @ [10]) = Inr v"
proof -
  have o: "opens (t @ r)" for r using json_value_opens [OF assms] by simp
  then have "\<not> prefix [0xFEFF] (t @ r)" "skip_ws (t @ r) = t @ r" for r
    by (simp_all only: opens_not_closed opens_skip o not_False_eq_True)
  with json_read_back(1) [OF assms, of "[]"] json_read_back(1) [OF assms, of "[10]"] this [of "[]"]
  show "json_loads t = Inr v" "json_loads (t @ [10]) = Inr v"
    by (simp_all add: json_loads_def delimited_def json_space_def)
qed

text \<open>What is written is ASCII, and it is written for every value without floats.\<close>

lemma hex_digit_ascii: "hex_digit (d mod 16) < 128"
  using mod_less_divisor [of 16 d] by (auto simp: hex_digit_def)

lemma json_string_ascii: "list_all (\<lambda>c. c < 128) (json_string s)"
proof -
  have h: "list_all (\<lambda>c. c < 128) (hex4 n)" for n
    by (simp only: hex4_def list.pred_inject hex_digit_ascii) simp
  have c: "list_all (\<lambda>c. c < 128) (json_char c)" for c
    by (simp add: json_char_def h)
  have "list_all (\<lambda>c. c < 128) (concat (map json_char s))"
    by (induction s) (simp_all add: c)
  then show ?thesis by (simp add: json_string_def)
qed

lemma int_text_ascii: "list_all (\<lambda>c. c < 128) (int_text i)"
  using nat_text_digits by (fastforce simp: int_text_def list_all_iff is_digit_def)

lemma json_text_ascii:
  "json_value v = Inr t \<Longrightarrow> plain_json v \<Longrightarrow> list_all (\<lambda>c. c < 128) t"
  "json_items l = Inr ts \<Longrightarrow> list_all plain_json l \<Longrightarrow> list_all (\<lambda>c. c < 128) ts"
  "json_pairs d = Inr ps \<Longrightarrow> list_all plain_json (map snd d) \<Longrightarrow> list_all (\<lambda>c. c < 128) ps"
proof (induction v and l and d arbitrary: t and ts and ps rule: json_value_json_items_json_pairs.induct)
qed (auto simp: lit_def json_string_ascii int_text_ascii elim!: bindE_InrE)

lemma json_total:
  "plain_json v \<Longrightarrow> \<exists>t. json_value v = Inr t"
  "list_all plain_json l \<Longrightarrow> \<exists>t. json_items l = Inr t"
  "list_all plain_json (map snd d) \<Longrightarrow> \<exists>t. json_pairs d = Inr t"
proof (induction v and l and d rule: json_value_json_items_json_pairs.induct)
qed auto

text \<open>So it can be encoded, and what is encoded can be read, with white space behind it.\<close>

lemma json_encoded:
  assumes "plain_json v"
  obtains t bs where "json_dumps v = Inr t" and "utf8_encode False t = Inr bs"
    and "utf8_decode False (bs @ [0x0A]) = Inr (t @ [10])" and "json_loads (t @ [10]) = Inr v"
proof -
  obtain t where t: "json_dumps v = Inr t" using json_total(1) [OF assms] by blast
  have "valid_str False t"
    using json_text_ascii(1) [OF t assms] by (auto simp: list_all_iff valid_cp_def is_surrogate_def)
  then have "valid_str False (t @ [10])" by (simp add: valid_cp_def is_surrogate_def)
  then obtain cs where c: "utf8_encode False (t @ [10]) = Inr cs" using utf8_encode_total by blast
  from \<open>valid_str False t\<close> obtain bs where b: "utf8_encode False t = Inr bs" using utf8_encode_total by blast
  have "utf8_encode False (s @ [10]) = bindE (utf8_encode False s) (\<lambda>bs. Inr (bs @ [0x0A]))" for s
    by (induction s) (auto simp: bindE_def valid_cp_def is_surrogate_def utf8_encode_cp_def byte_of_def split: sum.split)
  with b c have "cs = bs @ [0x0A]" by simp
  with utf8_decode_encode [OF c] have "utf8_decode False (bs @ [0x0A]) = Inr (t @ [10])" by simp
  moreover have "json_loads (t @ [10]) = Inr v"
    by (rule json_round_trip(2) [OF t assms])
  ultimately show thesis using that t b by blast
qed

end
