(* ===== verification/Http_Properties.thy ===== *)
theory Http_Properties
  imports Http_Steps Json_Codec Content_Properties Handshake
begin

text \<open>
  What the instrumentation guarantees: the messages that are posted are the ones that get published, what
  is inspected is what was stored, a wait is answered; and when a request is not answered at all.
\<close>

section \<open>A parser that gives prepared events\<close>

definition prepared :: "event list h11" where
  "prepared = \<lparr>h11_receive_data = (\<lambda>_. returnS ()),
     h11_next_event = (\<lambda>es. case es of [] \<Rightarrow> (Inr NEED_DATA, []) | e # es' \<Rightarrow> (Inr e, es')),
     h11_send = (\<lambda>ev. returnS (case ev of Response n _ \<Rightarrow> content_length (replicate n 0) @ newline | Sent_Data b \<Rightarrow> b))\<rparr>"

definition plain_settings :: settings where
  "plain_settings = \<lparr>set_order = id, tag_order = (\<lambda>_. []), default_user = lit ''guest'', default_password = lit ''guest''\<rparr>"

definition prepared_http :: "event list \<Rightarrow> world \<Rightarrow> event list http" where
  "prepared_http es w = new_http es (\<lambda>_. b_lit ''today'') w"

definition guest_world :: world where
  "guest_world = initial_world (lit ''guest'') (lit ''guest'') (\<lambda>i. int i + 1)"

lemma prepared_simps [simp]:
  "h11_receive_data prepared data = returnS ()"
  "h11_next_event prepared [] = (Inr NEED_DATA, [])"
  "h11_next_event prepared (e # es) = (Inr e, es)"
  "h11_send prepared (Sent_Data b) = returnS b"
  by (simp_all add: prepared_def)

lemma event_loop_next:
  "one_round h cfg s = (Inr ev, s') \<Longrightarrow> ev \<noteq> NEED_DATA \<Longrightarrow> event_loop h cfg s = event_loop h cfg s'"
  by (subst event_loop.simps) simp

lemma event_loop_end: "one_round h cfg s = (Inr NEED_DATA, s') \<Longrightarrow> event_loop h cfg s = Some (Inr (), s')"
  by (subst event_loop.simps) simp

lemma event_loop_raise: "one_round h cfg s = (Inl e, s') \<Longrightarrow> event_loop h cfg s = Some (Inl e, s')"
  by (subst event_loop.simps) simp

lemma one_round_prepared:
  "http_parser s = [] \<Longrightarrow> one_round prepared cfg s = (Inr NEED_DATA, s)"
  by (simp add: one_round_def on_parser_def on_event_def bindS_def split: prod.split)

lemma data_received_prepared [simp]:
  "http_data_received prepared cfg data s =
     (case event_loop prepared cfg s of
        None \<Rightarrow> None
      | Some (Inr x, s') \<Rightarrow> Some (Inr x, s')
      | Some (Inl e, s') \<Rightarrow> Some (fail_request prepared e s'))"
  by (simp add: http_data_received_def on_parser_def)

lemma flush_request:
  obtains s' where "http_data_received prepared plain_settings []
      (prepared_http [Request (b_lit ''MOCK_FLUSH'') (b_lit ''/'') []] w) = Some (Inr (), s')"
    and "server s' = w\<lparr>the_broker := init_state (lit ''guest'') (lit ''guest'')\<rparr>"
proof -
  let ?s = "prepared_http [Request (b_lit ''MOCK_FLUSH'') (b_lit ''/'') []] w"
  obtain s1 where r: "one_round prepared plain_settings ?s
      = (Inr (Request (b_lit ''MOCK_FLUSH'') (b_lit ''/'') []), s1)"
    and s1: "http_parser s1 = []" "server s1 = w\<lparr>the_broker := init_state (lit ''guest'') (lit ''guest'')\<rparr>"
    by (simp add: one_round_def on_parser_def on_event_def bindS_def on_request_def prepared_http_def new_http_def
        on_state_def on_server_def on_broker_def reset_def send_http_response_no_content_def date_now_def
        on_out_def transport_write_def plain_settings_def prepared_def init_state_def)
  from event_loop_next [OF r] event_loop_end [OF one_round_prepared [OF s1(1)]] s1(2) that show thesis by simp
qed

section \<open>A request that does not come to an end\<close>

text \<open>C30: A parser that is paused stays so until \<open>start_next_cycle\<close>, which the code never calls: once the
  parser says PAUSED, as it does for a request behind the first one on a connection, \<open>data_received\<close>
  never returns, and the event loop of the whole server with it.\<close>

theorem paused_parser_hangs:
  assumes "h11_receive_data h data (http_parser s) = (Inr (), p)" and "h11_next_event h p = (Inr PAUSED, p)"
  shows "http_data_received h cfg data s = None"
proof -
  have loop: "event_loop h cfg s1 = None" if "http_parser s1 = p" for s1
  proof (rule ccontr)
    assume "event_loop h cfg s1 \<noteq> None"
    then obtain y where y: "event_loop h cfg s1 = Some y" by blast
    have "h' = h \<longrightarrow> http_parser s = p \<longrightarrow> False" if "event_loop h' c s = Some y" for h' c s
    proof (rule event_loop.raw_induct [where P = "\<lambda>h' c s y. h' = h \<longrightarrow> http_parser s = p \<longrightarrow> False", OF _ that], goal_cases)
      case (1 loop h' c s y)
      have "one_round h' c s = (Inr PAUSED, s)" if "h' = h" "http_parser s = p"
        using that assms(2) by (simp add: one_round_def on_parser_def on_event_def bindS_def split: prod.split)
      with 1(1) [of h' c s y] 1(2) show ?case by auto
    qed
    with y that show False by blast
  qed
  show ?thesis
    using assms(1) loop by (simp add: http_data_received_def on_parser_def)
qed

lemma paused_parser_hangs_witness:
  "http_data_received (prepared\<lparr>h11_next_event := (\<lambda>es. (Inr PAUSED, es))\<rparr>) plain_settings
     (b_lit ''GET / HTTP/1.1'') (prepared_http [] guest_world) = None"
  by (rule paused_parser_hangs [where p = "[]"]) (simp_all add: prepared_def prepared_http_def new_http_def)

section \<open>Targets\<close>

lemma path_part_rest:
  "tag (CHR ''/'') \<notin> set a \<Longrightarrow> path_part 2 2 (tag (CHR ''/'') # a @ tag (CHR ''/'') # x) = returnS x"
  using py_split_sep [of "tag (CHR ''/'')" "[]" "a @ tag (CHR ''/'') # x" 1]
    py_split_sep [of "tag (CHR ''/'')" a x 0]
  by (simp add: path_part_def numeral_2_eq_2 fun_eq_iff del: py_split.simps) simp

lemma path_part_post: "path_part 2 2 (b_lit ''/add-message-on/'' @ x) = returnS x"
  and path_part_inspect: "path_part 2 2 (b_lit ''/messages-in-queue/'' @ x) = returnS x"
  using path_part_rest [of "b_lit ''add-message-on''" x] path_part_rest [of "b_lit ''messages-in-queue''" x]
  by (simp_all add: b_lit_def tag_def byte_of_def)

section \<open>Publishing over HTTP\<close>

lemma append_view:
  "exchange_log b e = Some log \<Longrightarrow>
     fst (append_to_exchange m e b) = Inr () \<and> exchange_log (snd (append_to_exchange m e b)) e = Some (log @ [m])"
  by (auto simp: append_to_exchange_def exchange_log_def AList.update_conv' split: option.splits)

lemma keeps_log_remove: "keeps (\<lambda>b. exchange_log b e = l) (remove_consumers q dead)"
  by (auto simp: keeps_def remove_consumers_def exchange_log_def split: option.split)

lemma published_on_log:
  assumes "exchange_log (the_broker w) e = Some log"
  shows "exchange_log (the_broker (snd (publish_message so e hdrs body is_binary w))) e
    = Some (log @ [\<lparr>stored_headers = hdrs, stored_body = body\<rparr>])"
proof -
  let ?m = "\<lparr>stored_headers = hdrs, stored_body = body\<rparr>"
  let ?w = "w\<lparr>the_broker := snd (append_to_exchange ?m e (the_broker w))\<rparr>"
  have n: "map_of (exchanges (the_broker w)) e \<noteq> None" using assms by (auto simp: exchange_log_def)
  note a = append_view [OF assms, of ?m]
  have k: "keeps (\<lambda>w. exchange_log (the_broker w) e = l) (deliver_to_queue hdrs body is_binary e q)" for l q
    using keeps_deliver [OF keeps_log_remove] by (auto simp: keeps_def)
  have "exchange_log (the_broker (snd (deliver_to_queue hdrs body is_binary e q ?w))) e = Some (log @ [?m])" for q
    using keepsD [OF k, of ?w] a by simp
  with n a show ?thesis
    by (auto simp: publish_message_def bindS_apply on_broker_apply split: list.split)
qed

lemma posted_to_known:
  assumes "build_message data hs = Inr full" and "message_arguments full = Inr (hdrs, body, is_binary)"
    and "utf8_decode False name = Inr e"
  shows "on_post h cfg (b_lit ''/add-message-on/'' @ name) data hs
    = bindS (on_server (publish_message (set_order cfg) e hdrs body is_binary)) (send_tag h)"
  using assms by (simp add: on_post_def starts_with_def path_part_post text_of_def)

lemma posted_on_log:
  assumes "build_message data hs = Inr full" and "message_arguments full = Inr (hdrs, body, is_binary)"
    and "utf8_decode False name = Inr e" and "exchange_log (the_broker_of s) e = Some log"
  shows "exchange_log (the_broker_of (snd (on_post h cfg (b_lit ''/add-message-on/'' @ name) data hs s))) e
    = Some (log @ [\<lparr>stored_headers = hdrs, stored_body = body\<rparr>])"
proof -
  let ?p = "publish_message (set_order cfg) e hdrs body is_binary"
  have "exchange_log (the_broker (snd (?p (server s)))) e
      = Some (log @ [\<lparr>stored_headers = hdrs, stored_body = body\<rparr>])"
    using published_on_log assms(4) by (simp add: the_broker_of_def)
  moreover have "server (snd (bindS (on_server ?p) (send_tag h) s)) = snd (?p (server s))"
    using keepsD [OF answers.keeps_answers(2) [of "\<lambda>w. w = snd (?p (server s))" h], of "s\<lparr>server := snd (?p (server s))\<rparr>"]
    by (cases "?p (server s)"; cases "fst (?p (server s))") (simp_all add: bindS_def on_server_def)
  ultimately show ?thesis by (simp add: posted_to_known [OF assms(1-3)] the_broker_of_def)
qed

lemma not_found_answered: "fst (send_http_response_not_found prepared s) = Inr ()"
  by (simp add: send_http_response_not_found_def send_http_response_with_body_def bindS_apply date_now_def
      on_parser_def on_out_def prepared_def transport_write_def split: prod.split)

lemma posted_without_queues:
  assumes "build_message data hs = Inr full" and "message_arguments full = Inr (hdrs, body, is_binary)"
    and "utf8_decode False name = Inr e" and "exchange_log (the_broker_of s) e = Some log"
    and "bound_queues (the_broker_of s) e = []" and "set_order cfg = id"
  shows "fst (on_post prepared cfg (b_lit ''/add-message-on/'' @ name) data hs s) = Inr ()
    \<and> bound_queues (the_broker_of (snd (on_post prepared cfg (b_lit ''/add-message-on/'' @ name) data hs s))) e = []"
proof -
  let ?m = "\<lparr>stored_headers = hdrs, stored_body = body\<rparr>"
  let ?b = "snd (append_to_exchange ?m e (the_broker_of s))"
  let ?s = "s\<lparr>server := (server s)\<lparr>the_broker := ?b\<rparr>\<rparr>"
  have b: "bound_queues ?b e = []"
  proof -
    have "bound ?b = bound (the_broker_of s)" by (simp add: append_to_exchange_def split: option.split)
    with assms(5) show ?thesis by (simp add: bound_queues_def)
  qed
  have "on_server (publish_message (set_order cfg) e hdrs body is_binary) s = (Inr None, ?s)"
    using append_view [OF assms(4), of ?m] assms(4,6) b
    by (auto simp: on_server_def publish_message_def bindS_apply on_broker_apply the_broker_of_def exchange_log_def)
  then have p: "on_post prepared cfg (b_lit ''/add-message-on/'' @ name) data hs s = send_http_response_not_found prepared ?s"
    by (simp add: posted_to_known [OF assms(1-3)] bindS_def send_tag_def)
  have "bound_queues (the_broker (server (snd (send_http_response_not_found prepared ?s)))) e = []"
    using keepsD [OF answers.keeps_bodies(3) [of "\<lambda>w. bound_queues (the_broker w) e = []" prepared], of ?s] b by simp
  with p not_found_answered show ?thesis by (simp add: the_broker_of_def)
qed

text \<open>C15: Posting to /add-message-on what \<open>json.dumps\<close> writes for a dictionary of headers and a text body
  publishes exactly these on the exchange: the server is asked to publish them as text and answers with
  the delivery tag or, without one, with 404; on an exchange that exists the message joins its log, and
  an unknown exchange leaves the server as it is. The docstring of \<open>publish_message\<close> has it "without storing
  it"; the message is stored in the exchange (not in its queues), where an inspection finds it.\<close>

theorem posted_message_published:
  assumes "json_dumps (PDict [(lit ''headers'', PDict d), (lit ''body'', PStr m)]) = Inr text"
    and "plain_json (PDict d)" and "valid_str False m"
    and "utf8_encode False text = Inr data" and "sorted_headers hs False [] = Inr (False, kept)"
    and "utf8_decode False name = Inr e"
  shows "on_post h cfg (b_lit ''/add-message-on/'' @ name) data hs s
      = bindS (on_server (publish_message (set_order cfg) e (PDict d) (PStr m) False)) (send_tag h) s
    \<and> (exchange_log (the_broker_of s) e = Some log \<longrightarrow>
        exchange_log (the_broker_of (snd (on_post h cfg (b_lit ''/add-message-on/'' @ name) data hs s))) e
          = Some (log @ [\<lparr>stored_headers = PDict d, stored_body = PStr m\<rparr>]))
    \<and> (exchange_log (the_broker_of s) e = None \<longrightarrow>
        on_post h cfg (b_lit ''/add-message-on/'' @ name) data hs s = send_http_response_not_found h s)"
proof -
  let ?full = "PDict [(lit ''headers'', PDict d), (lit ''body'', PStr m)]"
  have "plain_json ?full" using assms(2,3) by (simp add: lit_def valid_cp_def is_surrogate_def)
  from json_round_trip(1) [OF assms(1) this] utf8_decode_encode [OF assms(4)] assms(5)
  have b: "build_message data hs = Inr ?full" by (simp add: build_message_def)
  have a: "message_arguments ?full = Inr (PDict d, PStr m, False)"
    by (simp add: message_arguments_def py_getitem_def py_has_def lit_def)
  have "on_server (publish_message (set_order cfg) e (PDict d) (PStr m) False) s = (Inr None, s)"
    if "exchange_log (the_broker_of s) e = None"
    using that by (simp add: on_server_def publish_message_def exchange_log_def the_broker_of_def)
  then have "bindS (on_server (publish_message (set_order cfg) e (PDict d) (PStr m) False)) (send_tag h) s
      = send_http_response_not_found h s" if "exchange_log (the_broker_of s) e = None"
    using that by (simp add: bindS_def send_tag_def)
  then show ?thesis
    using posted_on_log [OF b a assms(6), of s log h cfg]
    by (intro conjI impI) (simp_all only: posted_to_known [OF b a assms(6)])
qed

lemma posted_message_published_witness:
  "\<exists>text data. json_dumps (PDict [(lit ''headers'', PDict []), (lit ''body'', PStr (lit ''hi''))]) = Inr text
     \<and> utf8_encode False text = Inr data
     \<and> exchange_log (the_broker_of (snd (on_post prepared plain_settings (b_lit ''/add-message-on/'' @ []) data []
           (prepared_http [] guest_world)))) []
       = Some ([] @ [\<lparr>stored_headers = PDict [], stored_body = PStr (lit ''hi'')\<rparr>])"
proof -
  let ?v = "PDict [(lit ''headers'', PDict []), (lit ''body'', PStr (lit ''hi''))]"
  obtain json where t: "json_dumps ?v = Inr json" and v: "valid_str False json"
    by (simp add: json_string_def json_char_def lit_def valid_cp_def is_surrogate_def)
  then obtain data where d: "utf8_encode False json = Inr data" using utf8_encode_total by blast
  have l: "exchange_log (the_broker_of (prepared_http [] guest_world)) [] = Some []"
    by (simp add: prepared_http_def new_http_def guest_world_def initial_world_def init_state_def
        the_broker_of_def exchange_log_def new_exchange_def)
  have "valid_str False (lit ''hi'')" by (simp add: lit_def valid_cp_def is_surrogate_def)
  from posted_message_published [OF t _ this d, of "[]" "[]" "[]" "[]" prepared plain_settings "prepared_http [] guest_world" "[]"]
    l t d show ?thesis by auto
qed

text \<open>C31: A body that the parser hands over in several pieces is published piece by piece: the handler of
  POST runs for each \<open>Data\<close> event, so two pieces of one binary body are two messages. Both are stored in the
  exchange, whatever the docstring of \<open>publish_message\<close> says ("without storing it").\<close>

theorem body_in_pieces_published_in_pieces:
  assumes "request_fields s = (WAITING_BODY, Some (b_lit ''POST''), Some (b_lit ''/add-message-on/'' @ name), Some hs)"
    and "sorted_headers hs False [] = Inr (True, kept)" and "utf8_decode False name = Inr e"
    and "exchange_log (the_broker_of s) e = Some log"
    and "on_event h cfg (Data a) s = (Inr (), s1)" and "on_event h cfg (Data b) s1 = (r, s2)"
  shows "exchange_log (the_broker_of s2) e = Some (log @
    [\<lparr>stored_headers = PDict kept, stored_body = PBytes a\<rparr>, \<lparr>stored_headers = PDict kept, stored_body = PBytes b\<rparr>])"
proof -
  let ?t = "b_lit ''/add-message-on/'' @ name"
  have ev: "on_event h cfg (Data x) u = on_post h cfg ?t x hs u"
    if "request_fields u = (WAITING_BODY, Some (b_lit ''POST''), Some ?t, Some hs)" for x u
    using that by (simp add: request_fields_def on_event_def on_data_def the_field_def)
  have full: "build_message x hs = Inr (PDict [(lit ''body'', PBytes x), (lit ''headers'', PDict kept), (lit ''binary'', PBool True)])"
    and args: "message_arguments (PDict [(lit ''body'', PBytes x), (lit ''headers'', PDict kept), (lit ''binary'', PBool True)])
      = Inr (PDict kept, PBytes x, True)" for x
    using assms(2) by (simp_all add: build_message_def message_arguments_def py_getitem_def py_has_def lit_def)
  note step = posted_on_log [OF full args assms(3)]
  from step [OF assms(4), of h cfg a] assms(5) ev [OF assms(1)]
  have l: "exchange_log (the_broker_of s1) e = Some (log @ [\<lparr>stored_headers = PDict kept, stored_body = PBytes a\<rparr>])"
    by simp
  have kept: "keeps (\<lambda>s. request_fields s = x) (on_post h cfg ?t a hs)" for x
    by (rule own_request.keeps_on_post)
  have "request_fields s1 = (WAITING_BODY, Some (b_lit ''POST''), Some ?t, Some hs)"
    using keepsD [OF kept, OF assms(1)] assms(5) ev [OF assms(1)] by simp
  from step [OF l, of h cfg b] assms(6) ev [OF this] show ?thesis by simp
qed

lemma body_in_pieces_published_in_pieces_witness:
  "\<exists>s1 s2. on_event prepared plain_settings (Data [1]) ((prepared_http [] guest_world)
         \<lparr>request_state := WAITING_BODY, verb := Some (b_lit ''POST''), target := Some (b_lit ''/add-message-on/'' @ []),
          headers := Some [(b_lit ''content-type'', b_lit ''application/octet-stream'')]\<rparr>) = (Inr (), s1)
     \<and> on_event prepared plain_settings (Data [2]) s1 = (Inr (), s2)
     \<and> exchange_log (the_broker_of s2) [] = Some ([] @ [\<lparr>stored_headers = PDict [], stored_body = PBytes [1]\<rparr>,
         \<lparr>stored_headers = PDict [], stored_body = PBytes [2]\<rparr>])"
proof -
  let ?hs = "[(b_lit ''content-type'', b_lit ''application/octet-stream'')]"
  let ?s = "(prepared_http [] guest_world)\<lparr>request_state := WAITING_BODY, verb := Some (b_lit ''POST''),
      target := Some (b_lit ''/add-message-on/'' @ []), headers := Some ?hs\<rparr>"
  have f: "request_fields ?s = (WAITING_BODY, Some (b_lit ''POST''), Some (b_lit ''/add-message-on/'' @ []), Some ?hs)"
    by (simp add: request_fields_def)
  have l: "exchange_log (the_broker_of ?s) [] = Some []"
    by (simp add: prepared_http_def new_http_def guest_world_def initial_world_def init_state_def
        the_broker_of_def exchange_log_def new_exchange_def)
  obtain s1 s2 where "on_event prepared plain_settings (Data [1]) ?s = (Inr (), s1)"
    "on_event prepared plain_settings (Data [2]) s1 = (Inr (), s2)"
  proof -
    have full: "build_message x ?hs = Inr (PDict [(lit ''body'', PBytes x), (lit ''headers'', PDict []), (lit ''binary'', PBool True)])"
      and args: "message_arguments (PDict [(lit ''body'', PBytes x), (lit ''headers'', PDict []), (lit ''binary'', PBool True)])
        = Inr (PDict [], PBytes x, True)" for x
      by (simp_all add: build_message_def message_arguments_def py_getitem_def py_has_def lit_def)
    have c: "set_order plain_settings = id" and n: "utf8_decode False [] = Inr []"
      by (simp_all add: plain_settings_def)
    let ?post = "\<lambda>x. on_post prepared plain_settings (b_lit ''/add-message-on/'' @ []) x ?hs"
    have quiet: "fst (?post x u) = Inr () \<and> bound_queues (the_broker_of (snd (?post x u))) [] = []
        \<and> exchange_log (the_broker_of (snd (?post x u))) [] \<noteq> None"
      if "exchange_log (the_broker_of u) [] = Some log" "bound_queues (the_broker_of u) [] = []" for u x log
      using posted_without_queues [OF full args n that c, of x]
        posted_on_log [OF full args n that(1), of prepared plain_settings x] by simp
    have own: "keeps (\<lambda>s. request_fields s = y) (?post x)" for x y
      by (rule own_request.keeps_on_post)
    have ev: "on_event prepared plain_settings (Data x) u = ?post x u"
      if "request_fields u = request_fields ?s" for x u
      using that f by (simp add: request_fields_def on_event_def on_data_def the_field_def)
    have b: "bound_queues (the_broker_of ?s) [] = []"
      by (simp add: the_broker_of_def bound_queues_def prepared_http_def new_http_def
          guest_world_def initial_world_def init_state_def)
    define s1 where "s1 = snd (?post [1] ?s)"
    have e1: "on_event prepared plain_settings (Data [1]) ?s = (Inr (), s1)"
      unfolding ev [OF refl] s1_def using quiet [OF l b, of "[1]"] by (metis prod.collapse)
    have f1: "request_fields s1 = request_fields ?s"
      unfolding s1_def by (rule keepsD [OF own, OF refl])
    obtain log where l1: "exchange_log (the_broker_of s1) [] = Some log" and b1: "bound_queues (the_broker_of s1) [] = []"
      using quiet [OF l b, of "[1]"] unfolding s1_def by auto
    have "on_event prepared plain_settings (Data [2]) s1 = (Inr (), snd (?post [2] s1))"
      unfolding ev [OF f1] using quiet [OF l1 b1, of "[2]"] by (metis prod.collapse)
    with e1 show thesis by (rule that)
  qed
  with body_in_pieces_published_in_pieces [OF f _ _ l this] show ?thesis by (auto simp: starts_with_def b_lit_def)
qed

section \<open>Inspecting over HTTP\<close>

lemma inspected_bodies:
  assumes "\<forall>(d, s, bs)\<in>set ms. utf8_encode False s = Inr bs"
  shows "base64encode_messages (map (\<lambda>(d, s, bs). \<lparr>stored_headers = PDict d, stored_body = PBytes bs\<rparr>) ms)
    = Inr (map (\<lambda>(d, s, bs). \<lparr>stored_headers = PDict d, stored_body = PStr s\<rparr>) ms)"
  using assms by (induction ms) (auto simp: decode_body_def utf8_decode_encode)

lemma on_get_inspect:
  "on_get h cfg (b_lit ''/messages-in-queue/'' @ name) =
     bindS (text_of name) (\<lambda>q. bindS (getS (\<lambda>s. get_messages_of_queue q (the_broker_of s))) (\<lambda>r.
     bindS (liftE r) (send_messages h)))"
  by (simp add: on_get_def starts_with_def path_part_inspect) (simp add: b_lit_def tag_def byte_of_def)

text \<open>Inspecting a queue whose bodies are UTF-8 answers with a body that reads, as JSON, as the list of
  its messages in the order they were stored, each with its headers and its body as text.\<close>

lemma queue_inspected:
  assumes "queue_log (the_broker_of s) q
      = Some (map (\<lambda>(d, t, bs). \<lparr>stored_headers = PDict d, stored_body = PBytes bs\<rparr>) ms)"
    and "\<forall>(d, t, bs)\<in>set ms. utf8_encode False t = Inr bs \<and> plain_json (PDict d)"
    and "utf8_decode False name = Inr q"
  shows "\<exists>body json. on_get h cfg (b_lit ''/messages-in-queue/'' @ name) s
        = send_http_response_with_body h 200 (body @ newline) s
      \<and> utf8_decode False (body @ newline) = Inr json
      \<and> json_loads json = Inr (PList (map (\<lambda>(d, t, bs).
          PDict [(lit ''headers'', PDict d), (lit ''body'', PStr t)]) ms))"
proof -
  let ?v = "PList (map (\<lambda>(d, t, bs). PDict [(lit ''headers'', PDict d), (lit ''body'', PStr t)]) ms)"
  let ?ms = "map (\<lambda>(d, t, bs). \<lparr>stored_headers = PDict d, stored_body = PStr t\<rparr>) ms"
  have v: "PList (map message_value ?ms) = ?v"
    by (simp add: message_value_def split_def)
  have "valid_str False t" if "(d, t, bs) \<in> set ms" for d t bs
    using assms(2) that utf8_encode_total by blast
  then have "plain_json ?v"
    using assms(2) by (fastforce simp: list_all_iff lit_def valid_cp_def is_surrogate_def)
  then obtain t bs where t: "json_dumps ?v = Inr t" "utf8_encode False t = Inr bs"
    and r: "utf8_decode False (bs @ [0x0A]) = Inr (t @ [10])" "json_loads (t @ [10]) = Inr ?v"
    by (rule json_encoded)
  obtain qu where qu: "map_of (queues (the_broker_of s)) q = Some qu"
    and log: "queue_messages qu = map (\<lambda>(d, t, bs). \<lparr>stored_headers = PDict d, stored_body = PBytes bs\<rparr>) ms"
    using assms(1) by (auto simp: queue_log_def)
  have "base64encode_messages (queue_messages qu) = Inr ?ms"
    unfolding log by (rule inspected_bodies) (use assms(2) in auto)
  with qu have "get_messages_of_queue q (the_broker_of s) = Inr (Some ?ms)"
    by (simp add: get_messages_of_queue_def)
  then have "on_get h cfg (b_lit ''/messages-in-queue/'' @ name) s = send_http_response_ok h bs s"
    using assms(3) t by (simp add: on_get_inspect text_of_def send_messages_def v del: map_map)
  with r show ?thesis by (auto simp: send_http_response_ok_def newline_def)
qed

text \<open>C2: From the network to the test: when the bytes of a publication have arrived on an open channel,
  in any number of body frames, inspecting a queue bound to its exchange answers with a body that reads, as
  JSON, as the messages that were in the queue followed by the published one, each with its headers
  and its body as text.\<close>

theorem published_message_inspected:
  assumes "channel_at (server s) me n = Some ch" "ch_state ch = CH_OPENED" "n \<noteq> 0"
    and "buffer (trackers (server s) me) = []" "parser_state (trackers (server s) me) \<noteq> WAITING_PROTOCOL_HEADER"
    and "broker_ok (the_broker_of s)" "\<forall>xs. mset (so xs) = mset xs"
    and "get_str d ''exchange-name'' = Inr e" "get_str d ''routing-key'' = Inr k"
    and "type_of (the_broker_of s) e \<noteq> None" "q \<in> set (bound_queues (the_broker_of s) e)"
    and "bodies \<noteq> []" "snd (last bodies) \<noteq> []"
    and "list_all2 reads_as bss (publication n sz1 sz2 d props bodies)"
    and "queue_log (the_broker_of s) q
      = Some (map (\<lambda>(d, t, bs). \<lparr>stored_headers = PDict d, stored_body = PBytes bs\<rparr>) ms)"
    and "\<forall>(d, t, bs)\<in>set (ms @ [(props, t, concat (map snd bodies))]). utf8_encode False t = Inr bs \<and> plain_json (PDict d)"
    and "utf8_decode False name = Inr q"
  shows "\<exists>w' body json. data_received so me (concat bss) (server s) = (Inr (), w')
      \<and> on_get h cfg (b_lit ''/messages-in-queue/'' @ name) (s\<lparr>server := w'\<rparr>)
        = send_http_response_with_body h 200 (body @ newline) (s\<lparr>server := w'\<rparr>)
      \<and> utf8_decode False (body @ newline) = Inr json
      \<and> json_loads json = Inr (PList (map (\<lambda>(d, t, bs).
          PDict [(lit ''headers'', PDict d), (lit ''body'', PStr t)]) (ms @ [(props, t, concat (map snd bodies))])))"
proof -
  let ?m = "\<lparr>stored_headers = PDict props, stored_body = PBytes (concat (map snd bodies))\<rparr>"
  from publication_received [OF assms(1-5) _ assms(7-9) _ assms(12-14)] assms(6,10) obtain w'
    where run: "data_received so me (concat bss) (server s) = (Inr (), w')"
      and c: "contract_of (the_broker w') = c_store e ?m (contract_of (the_broker (server s)))"
    by (auto simp: the_broker_of_def)
  have "queue_log (the_broker w') q = c_queue (c_store e ?m (contract_of (the_broker (server s)))) q"
    unfolding c [symmetric] by (simp add: contract_of_def)
  then have "queue_log (the_broker_of (s\<lparr>server := w'\<rparr>)) q = Some (map (\<lambda>(d, t, bs).
      \<lparr>stored_headers = PDict d, stored_body = PBytes bs\<rparr>) (ms @ [(props, t, concat (map snd bodies))]))"
    using assms(10,11,15) by (simp add: c_store_def contract_of_def the_broker_of_def)
  from queue_inspected [OF this assms(16,17)] run show ?thesis by blast
qed

lemma published_message_inspected_witness:
  "\<exists>w' body json. data_received id 0 (concat [publish_bytes, header_bytes 2, frame_bytes 3 1 [104], frame_bytes 3 1 [105]])
       open_world = (Inr (), w')
     \<and> on_get prepared plain_settings (b_lit ''/messages-in-queue/'' @ b_lit ''q'') (prepared_http [] w')
       = send_http_response_with_body prepared 200 (body @ newline) (prepared_http [] w')
     \<and> utf8_decode False (body @ newline) = Inr json
     \<and> json_loads json = Inr (PList [PDict [(lit ''headers'', PDict []), (lit ''body'', PStr (lit ''hi''))]])"
proof -
  let ?bodies = "[(9, [104]), (9, [105])] :: (nat \<times> bytes) list" and ?s = "prepared_http [] open_world"
  have f: "list_all2 reads_as [publish_bytes, header_bytes 2, frame_bytes 3 1 [104], frame_bytes 3 1 [105]]
      (publication 1 17 22 publish_args [] ?bodies)"
    using publish_bytes_read header_bytes_read [of 2] body_bytes_read [of "[104]"] body_bytes_read [of "[105]"]
    by (simp add: publication_def)
  have e: "utf8_encode False (lit ''hi'') = Inr [104, 105]" "utf8_encode False (lit ''q'') = Inr (b_lit ''q'')"
    by (simp_all add: utf8_encode_lit ascii_def b_lit_def tag_def byte_of_def)
  have s [simp]: "server ?s = open_world" "the_broker_of ?s = the_broker open_world"
    by (simp_all add: prepared_http_def new_http_def the_broker_of_def)
  have q: "queue_log (the_broker open_world) (lit ''q'') = Some []" "lit ''q'' \<in> set (bound_queues (the_broker open_world) [])"
    by (simp_all add: open_world_def declare_queue_view, simp_all add: init_state_def view_defs set_add_def)
  have a: "get_str publish_args ''exchange-name'' = Inr []" "get_str publish_args ''routing-key'' = Inr []"
    by (simp_all add: publish_args_def get_str_def py_get_def)
  have w: "?s\<lparr>server := w'\<rparr> = prepared_http [] w'" for w' by (simp add: prepared_http_def new_http_def)
  from published_message_inspected [of ?s 0 1 open_channel id publish_args "[]" "[]" "lit ''q''" ?bodies
      "[publish_bytes, header_bytes 2, frame_bytes 3 1 [104], frame_bytes 3 1 [105]]" 17 22 "[]" "[]" "lit ''hi''"
      "b_lit ''q''" prepared plain_settings]
    f q a open_world_broker e utf8_decode_encode [OF e(2)]
  show ?thesis by (simp add: w)
qed

section \<open>Waiting over HTTP\<close>

lemma verdict_tag:
  assumes "\<And>b. look x b = Inr (if P b then Some True else None)"
  shows "verdict x bs = (if \<exists>b\<in>set bs. P b then Inr True else Inl WaitTimeout)"
proof (cases "\<exists>b\<in>set bs. P b")
  case True
  then obtain as b cs where "bs = as @ b # cs" "P b" "\<forall>a\<in>set as. \<not> P a" by (metis split_list_first_prop)
  with assms verdict_found [of as x b True cs] True show ?thesis by simp
next
  case False
  with assms verdict_timeout [of bs x] show ?thesis by simp
qed

definition answer_wait :: "'p h11 \<Rightarrow> broker list \<Rightarrow> wait \<Rightarrow> ('p http, unit) eff" where
  \<comment> \<open>the callback of a wait, once it has been resumed with these states\<close>
  "answer_wait h bs x = (case resumes bs (new_task x) of Finished r \<Rightarrow> on_get_done h r | Waiting _ _ \<Rightarrow> returnS ())"

lemma answer_wait_verdict: "length bs = 10 \<Longrightarrow> answer_wait h (bs @ [b]) x = on_get_done h (verdict x bs)"
  by (simp add: answer_wait_def new_task_def resumes_waiting del: resumes_append)

text \<open>C12: A wait ends: with the states of its ten rounds it is answered with 204 when what it waits for shows
  up in one of them and with 504 when it does not. The wait for a login is answered by the first round that
  has an attempt of the user, with 204 or 403 as the credentials were; a user name that is not UTF-8 gets
  no answer at all.\<close>

theorem waits_answered:
  assumes "length bs = 10"
  shows "answer_wait h (bs @ [b]) x =
    (let found = (\<lambda>P. if \<exists>b\<in>set bs. P b then send_http_response_no_content h else send_http_response_timeout h)
     in case x of
          Acknowledged t \<Rightarrow> found (\<lambda>b. t \<in> acknowledged b)
        | Not_Acknowledged t \<Rightarrow> found (\<lambda>b. t \<in> not_acknowledged b)
        | Requeued t \<Rightarrow> found (\<lambda>b. t \<in> requeued b)
        | Queue_Bound q e \<Rightarrow> found (\<lambda>b. q \<in> set (bound_queues b e))
        | Authentication u \<Rightarrow>
            (case utf8_decode False u of
               Inl _ \<Rightarrow> raiseS UnicodeDecodeError
             | Inr user \<Rightarrow>
                 (case dropWhile (\<lambda>b. map_of (auth_tried b) user = None) bs of
                    [] \<Rightarrow> send_http_response_timeout h
                  | b # _ \<Rightarrow> if map_of (auth_tried b) user = Some True then send_http_response_no_content h
                             else send_http_response_forbidden h)))"
proof -
  note d = answer_wait_verdict [OF assms] on_get_done_def
  show ?thesis
  proof (cases x)
    case (Authentication u)
    show ?thesis
    proof (cases "utf8_decode False u")
      case (Inl err)
      from assms have "bs \<noteq> []" by auto
      with Inl utf8_decode_error [OF Inl] have "verdict x bs = Inl UnicodeDecodeError"
        by (cases bs) (simp_all add: Authentication verdict_def wait_authentication_performed_on_def)
      then show ?thesis by (simp add: d Inl Authentication)
    next
      case (Inr user)
      let ?none = "\<lambda>b. map_of (auth_tried b) user = None"
      show ?thesis
      proof (cases "dropWhile ?none bs")
        case Nil
        then show ?thesis
          unfolding d Authentication verdict_def by (simp only: look.simps wait_authentication_performed_on_def Inr bindE_Inr
              sum.inject list.case Let_def sum.case wait.case) simp
      next
        case (Cons a as)
        then have "dropWhile ?none bs \<noteq> []" by simp
        from hd_dropWhile [OF this] Cons obtain ok where "map_of (auth_tried a) user = Some ok" by auto
        with Cons show ?thesis
          unfolding d Authentication verdict_def by (simp only: look.simps wait_authentication_performed_on_def Inr bindE_Inr
              sum.inject list.case Let_def sum.case wait.case) simp
      qed
    qed
  next
    case (Acknowledged t)
    then show ?thesis
      by (simp add: d verdict_tag [of "Acknowledged t" "\<lambda>b. t \<in> acknowledged b"] wait_message_acknowledged_def)
  next
    case (Not_Acknowledged t)
    then show ?thesis
      by (simp add: d verdict_tag [of "Not_Acknowledged t" "\<lambda>b. t \<in> not_acknowledged b"] wait_message_not_acknowledged_def)
  next
    case (Requeued t)
    then show ?thesis
      by (simp add: d verdict_tag [of "Requeued t" "\<lambda>b. t \<in> requeued b"] wait_message_requeued_def)
  next
    case (Queue_Bound q e)
    then show ?thesis
      by (simp add: d verdict_tag [of "Queue_Bound q e" "\<lambda>b. q \<in> set (bound_queues b e)"] wait_queue_bound_def)
  qed
qed

lemma waits_answered_witness:
  "answer_wait prepared (replicate 3 (init_state [] []) @ (init_state [] [])\<lparr>acknowledged := {7}\<rparr> # replicate 6 (init_state [] []) @ [init_state [] []])
     (Acknowledged 7) = send_http_response_no_content prepared
   \<and> answer_wait prepared (replicate 10 (init_state [] []) @ [(init_state [] [])\<lparr>acknowledged := {7}\<rparr>])
     (Acknowledged 7) = send_http_response_timeout prepared"
  using waits_answered [of "replicate 3 (init_state [] []) @ (init_state [] [])\<lparr>acknowledged := {7}\<rparr> # replicate 6 (init_state [] [])"
      prepared "init_state [] []" "Acknowledged 7"]
    waits_answered [of "replicate 10 (init_state [] [])" prepared "(init_state [] [])\<lparr>acknowledged := {7}\<rparr>" "Acknowledged 7"]
  by (simp add: init_state_def)

end
