(* ===== verification/Generic_Content.thy ===== *)
theory Generic_Content
  imports Loads Dumps
begin

text \<open>
  The class \<open>GenericContent\<close> of \<open>service/serialization.py\<close>, which the service keeps from py-amqp without
  using it: properties read from and written to a content header, and a body that comes in pieces. The
  class attribute \<open>PROPERTIES\<close>, which subclasses override, is an argument.
\<close>

section \<open>The object\<close>

text \<open>The attribute \<open>body\<close> is only there once the body is complete.\<close>

record generic_content =
  frame_args :: "pyval \<times> pyval"
  content_properties :: pydict
  pending_chunks :: "bytes list"
  body_received :: nat
  body_size :: int
  ready :: bool
  body :: "bytes option"

definition new_content :: "pyval \<Rightarrow> pyval \<Rightarrow> pydict \<Rightarrow> generic_content" where
  "new_content meth args props =
     \<lparr>frame_args = (meth, args), content_properties = props, pending_chunks = [], body_received = 0,
      body_size = 0, ready = False, body = None\<rparr>"

definition content_getattr :: "pystr \<Rightarrow> generic_content \<Rightarrow> pyval result" where
  \<comment> \<open>\<open>__getattr__\<close>\<close>
  "content_getattr name c =
     (if name = lit ''__setstate__'' then Inl AttributeError
      else case map_of (content_properties c) name of Some v \<Rightarrow> Inr v | None \<Rightarrow> Inl AttributeError)"

section \<open>Properties\<close>

definition PROPERTY_CLASSES :: "int \<Rightarrow> (bytes \<Rightarrow> nat \<Rightarrow> (pydict \<times> nat) result) option" where
  "PROPERTY_CLASSES = [60 \<mapsto> decode_properties_basic]"

definition load_properties :: "int \<Rightarrow> bytes \<Rightarrow> nat \<Rightarrow> (generic_content, nat) eff" where
  "load_properties class_id buf offset =
     bindS (liftE (case PROPERTY_CLASSES class_id of
                     None \<Rightarrow> Inl KeyError
                   | Some decode \<Rightarrow> decode buf offset)) (\<lambda>(props, offset).
     thenS (modifyS (content_properties_update (\<lambda>_. props))) (returnS offset))"

text \<open>
  The loop of \<open>_serialize_properties\<close>: the bit of the next property, the flags gathered so far and the
  format and values of the properties that are there. A shift by a negative number is a ValueError.
\<close>

fun serialize_loop ::
  "(string \<times> string) list \<Rightarrow> pydict \<Rightarrow> int \<Rightarrow> int \<Rightarrow> int list \<Rightarrow> string \<Rightarrow> pyval list
   \<Rightarrow> (int list \<times> string \<times> pyval list) result" where
  "serialize_loop [] props shift flag_bits flags sformat svalues = Inr (flags @ [flag_bits], sformat, svalues)"
| "serialize_loop ((key, proptype) # table) props shift flag_bits flags sformat svalues =
     (case map_of props (lit key) of
        Some val \<Rightarrow>
          if val \<noteq> PNone then
            (let (flags, flag_bits, shift) = (if shift = 0 then (flags @ [flag_bits], 0, 15) else (flags, flag_bits, shift))
             in if shift < 0 then Inl ValueError
                else let flag_bits = flag_bits OR push_bit (nat shift) 1
                     in if proptype \<noteq> ''bit''
                        then serialize_loop table props (shift - 1) flag_bits flags (sformat @ proptype) (svalues @ [val])
                        else serialize_loop table props (shift - 1) flag_bits flags sformat svalues)
          else serialize_loop table props (shift - 1) flag_bits flags sformat svalues
      | None \<Rightarrow> serialize_loop table props (shift - 1) flag_bits flags sformat svalues)"

fun pack_flags :: "int list \<Rightarrow> bytes result" where
  "pack_flags [] = Inr []"
| "pack_flags (f # fs) = bindE (pack_H f) (\<lambda>b. bindE (pack_flags fs) (\<lambda>bs. Inr (b @ bs)))"

definition set_default :: "pystr \<Rightarrow> pyval \<Rightarrow> pydict \<Rightarrow> pydict" where
  "set_default k v d = (if k \<in> fst ` set d then d else AList.update k v d)"

definition serialize_properties :: "(string \<times> string) list \<Rightarrow> (generic_content, bytes) eff" where
  "serialize_properties table =
     thenS (modifyS (content_properties_update (set_default (lit ''content_encoding'') (PStr (lit ''utf-8'')))))
    (bindS (getS content_properties) (\<lambda>props.
     bindS (liftE (serialize_loop table props 15 0 [] [] [])) (\<lambda>(flags, sformat, svalues).
     bindS (liftE (pack_flags flags)) (\<lambda>head.
     bindS (liftE (dumps sformat svalues)) (\<lambda>args.
     returnS (head @ args))))))"

section \<open>Frames of a content\<close>

definition inbound_header :: "bytes \<Rightarrow> nat \<Rightarrow> (generic_content, nat) eff" where
  \<comment> \<open>\<open>unpack_from('>HxxQ', buf, offset)\<close>\<close>
  "inbound_header buf offset =
     bindS (liftE (bindE (unpack_H buf offset) (\<lambda>class_id.
                   bindE (unpack_Q buf (offset + 4)) (\<lambda>size. Inr (class_id, size))))) (\<lambda>(class_id, size).
     thenS (modifyS (body_size_update (\<lambda>_. size)))
    (bindS (load_properties class_id buf (offset + 12)) (\<lambda>_.
     bindS (getS body_size) (\<lambda>size.
     thenS (if size = 0 then modifyS (ready_update (\<lambda>_. True)) else returnS ())
           (returnS (offset + 12))))))"

definition inbound_body :: "bytes \<Rightarrow> (generic_content, unit) eff" where
  "inbound_body buf =
     modifyS (\<lambda>c.
       let c = c\<lparr>body_received := body_received c + length buf\<rparr>
       in if body_size c \<le> int (body_received c) then
            (if pending_chunks c \<noteq> []
             then c\<lparr>body := Some (concat (pending_chunks c @ [buf])), pending_chunks := [], ready := True\<rparr>
             else c\<lparr>body := Some buf, ready := True\<rparr>)
          else c\<lparr>pending_chunks := pending_chunks c @ [buf]\<rparr>)"

definition inbound_bodies :: "bytes list \<Rightarrow> generic_content \<Rightarrow> generic_content" where
  "inbound_bodies bufs c = foldl (\<lambda>c b. snd (inbound_body b c)) c bufs"

section \<open>A body is what its pieces are\<close>

definition filling :: "generic_content \<Rightarrow> bytes list \<Rightarrow> bool" where
  \<comment> \<open>the pieces so far, of a body that is not complete\<close>
  "filling c bufs \<longleftrightarrow> pending_chunks c = bufs \<and> body_received c = length (concat bufs)
     \<and> int (body_received c) < body_size c \<and> \<not> ready c"

lemma filling_more:
  assumes "filling c bufs" and "int (length (concat bufs) + length b) < body_size c"
  shows "filling (snd (inbound_body b c)) (bufs @ [b])" and "body_size (snd (inbound_body b c)) = body_size c"
  using assms by (auto simp: filling_def inbound_body_def)

lemma filling_last:
  assumes "filling c bufs" and "body_size c \<le> int (length (concat bufs) + length b)"
  shows "ready (snd (inbound_body b c)) \<and> body (snd (inbound_body b c)) = Some (concat (bufs @ [b]))"
  using assms by (auto simp: filling_def inbound_body_def Let_def)

lemma filling_pieces:
  assumes "filling c bufs" and "int (length (concat (bufs @ bs))) < body_size c"
  shows "filling (inbound_bodies bs c) (bufs @ bs) \<and> body_size (inbound_bodies bs c) = body_size c"
  using assms
proof (induction bs arbitrary: c bufs)
  case Nil
  then show ?case by (simp add: inbound_bodies_def)
next
  case (Cons b bs)
  then have "int (length (concat bufs) + length b) < body_size c" by simp
  from Cons.IH [OF filling_more(1) [OF Cons.prems(1) this]] filling_more(2) [OF Cons.prems(1) this] Cons.prems(2)
  show ?case by (simp add: inbound_bodies_def)
qed

text \<open>
  Behind the header of a body that is not empty, the pieces make the body with the first one that
  reaches the announced size.
\<close>

lemma body_assembled:
  assumes "body_size c = int n" and "0 < n" and "pending_chunks c = []" and "body_received c = 0" and "\<not> ready c"
    and "length (concat bs) < n" and "n \<le> length (concat bs) + length b"
  shows "ready (inbound_bodies (bs @ [b]) c) \<and> body (inbound_bodies (bs @ [b]) c) = Some (concat (bs @ [b]))"
proof -
  have "filling c []" using assms by (simp add: filling_def)
  with filling_pieces [of c "[]" bs] assms(1,6)
  have f: "filling (inbound_bodies bs c) bs" and s: "body_size (inbound_bodies bs c) = int n" by simp_all
  from filling_last [OF f, of b] s assms(7) show ?thesis by (simp add: inbound_bodies_def)
qed

end
