(* ===== verification/Generic_Properties.thy ===== *)
theory Generic_Properties
  imports Generic_Content Wire_Properties
begin

text \<open>
  What the class \<open>GenericContent\<close> writes, it reads: with the table of the basic class, serializing the
  properties and loading them gives the properties that were there, and an encoding.
\<close>

definition basic_table :: "(string \<times> string) list" where
  \<comment> \<open>the names and types that \<open>PROPERTIES\<close> of \<open>service/method.py\<close> has, as a subclass would give them\<close>
  "basic_table = map (\<lambda>(name, p, _). (name, [p])) header_properties"

text \<open>The flags of a table fall bit by bit, and the loop is over before a second word is needed.\<close>

fun falling :: "nat \<Rightarrow> (string \<times> char \<times> int) list \<Rightarrow> bool" where
  "falling k [] = True"
| "falling 0 (row # rows) = False"
| "falling (Suc k) ((name, p, flag) # rows) = (flag = 2 ^ Suc k \<and> falling k rows)"

lemma or_power:
  assumes "2 ^ Suc k dvd (fb :: int)"
  shows "fb OR 2 ^ k = fb + 2 ^ k"
proof -
  have "\<not> bit fb k"
    using assms bit_take_bit_iff [of "Suc k" fb k] by (simp only: take_bit_eq_0_iff [symmetric]) simp
  then show ?thesis
    by (intro disjunctive_add_eq_or [symmetric] bit_eqI) (auto simp: bit_simps)
qed

lemma serialize_rows:
  assumes "falling k rows" and "2 ^ Suc k dvd fb" and "\<forall>(name, _) \<in> set rows. map_of props (lit name) \<noteq> Some PNone"
  shows "serialize_loop (map (\<lambda>(name, p, _). (name, [p])) rows) props (int k) fb flags sf sv
    = Inr (flags @ [fb + flags_of (chosen props rows)], sf @ parse_string (chosen props rows),
        sv @ values_of props (chosen props rows))"
  using assms
proof (induction k rows arbitrary: fb sf sv rule: falling.induct)
  case (1 k)
  then show ?case by (simp add: chosen_def flags_of_def parse_string_def values_of_def)
next
  case (2 row rows)
  then show ?case by simp
next
  case (3 k name p flag rows)
  from "3.prems" have rest: "falling k rows" "\<forall>(name, _) \<in> set rows. map_of props (lit name) \<noteq> Some PNone"
    and flag: "flag = 2 ^ Suc k" by simp_all
  have "(2::int) ^ Suc k dvd 2 ^ Suc (Suc k)" by (rule le_imp_power_dvd) simp
  then have even: "2 ^ Suc k dvd fb" "2 ^ Suc k dvd fb + 2 ^ Suc k"
    using "3.prems"(2) by (auto intro: dvd_trans)
  show ?case
  proof (cases "map_of props (lit name)")
    case None
    then have "\<not> present props name" by (simp add: present_def map_of_eq_None_iff)
    with None "3.IH" [OF rest(1) even(1) rest(2)] show ?thesis by (simp add: chosen_def)
  next
    case (Some v)
    then have "present props name" "v \<noteq> PNone"
      using "3.prems"(3) by (force simp: present_def dest: map_of_SomeD)+
    moreover have "fb OR push_bit (Suc k) 1 = fb + flag"
      using or_power [OF "3.prems"(2)] flag by (simp add: push_bit_of_1)
    ultimately show ?thesis
      using Some "3.IH" [OF rest(1) even(2) rest(2), of "sf @ [p]" "sv @ [v]"] flag
      by (simp add: chosen_def flags_of_def parse_string_def values_of_def nat_add_distrib)
  qed
qed

lemma falling_header: "falling 15 header_properties"
  by (simp add: header_properties_def numeral_eq_Suc)

lemma serialize_basic:
  assumes "sendable props"
  shows "serialize_loop basic_table props 15 0 [] [] [] = Inr ([flags_of (chosen props header_properties)],
    parse_string (chosen props header_properties), values_of props (chosen props header_properties))"
proof -
  have "\<forall>(name, _) \<in> set header_properties. map_of props (lit name) \<noteq> Some PNone"
    using assms by (fastforce simp: sendable_def list_all_iff field_ok_def header_properties_def)
  from serialize_rows [OF falling_header _ this, of 0 "[]" "[]" "[]"] show ?thesis
    by (simp add: basic_table_def)
qed

text \<open>Reading the words that were written.\<close>

lemma decode_basic_written:
  assumes "pack_H (flags_of (chosen props header_properties)) = Inr head"
    and "dumps (parse_string (chosen props header_properties)) (values_of props (chosen props header_properties)) = Inr args"
    and "sendable props"
  shows "decode_properties_basic (before @ (head @ args) @ after) (length before)
    = Inr (picked props, length before + length (head @ args))"
proof -
  let ?rows = "chosen props header_properties" and ?buf = "before @ (head @ args) @ after"
  have u: "unpack_H ?buf (length before) = Inr (flags_of ?rows)" and l: "length head = 2"
    using u16.unpack_pack [OF assms(1), of before "args @ after"] u16.pack_length [OF assms(1)] by simp_all
  have "holds_at ?buf (length before + 2) args"
    using holds_at_mid [of "before @ head" args after] l by simp
  from loads_dumps_at [OF assms(2) sendable_fields [OF assms(3)] _ this]
  have "loads (parse_string ?rows) ?buf (length before + 2) = Inr (values_of props ?rows, length before + 2 + length args)"
    using format_ok_header [of "parse_string ?rows"] parse_string_letters [of props] by auto
  moreover have "property_rows (flags_of ?rows) header_properties ?buf ([], length before + 2) =
    bindE (loads_loop (parse_string (selected (flags_of ?rows) header_properties)) ?buf (length before + 2) 0 0)
      (\<lambda>(vs, offset'). Inr ([] @ zip (row_keys (selected (flags_of ?rows) header_properties)) vs, offset'))"
    by (rule property_rows_loads) (auto simp: header_properties_def row_keys_def)
  ultimately show ?thesis
    using u l by (simp add: decode_properties_basic_rows selected_header_properties loads_def picked_def)
qed

lemma serialize_properties_written:
  assumes "serialize_properties basic_table c = (Inr bs, c')" and "sendable (content_properties c')"
  obtains head args where "bs = head @ args"
    and "c' = c\<lparr>content_properties := set_default (lit ''content_encoding'') (PStr (lit ''utf-8'')) (content_properties c)\<rparr>"
    and "pack_H (flags_of (chosen (content_properties c') header_properties)) = Inr head"
    and "dumps (parse_string (chosen (content_properties c') header_properties))
      (values_of (content_properties c') (chosen (content_properties c') header_properties)) = Inr args"
proof -
  let ?c = "c\<lparr>content_properties := set_default (lit ''content_encoding'') (PStr (lit ''utf-8'')) (content_properties c)\<rparr>"
  have c: "c' = ?c"
    using assms(1) by (auto simp: serialize_properties_def bindS_def split: sum.splits prod.splits)
  from assms(1) serialize_basic [OF assms(2)[unfolded c]] that [OF _ c]
  show thesis
    unfolding c by (auto simp: serialize_properties_def bindS_def bindE_eq_Inr split: sum.splits)
qed

text \<open>C19: The properties that \<open>_serialize_properties\<close> writes with the basic class's table, wherever they
  stand in a buffer, \<open>_load_properties\<close> reads back: those of the object in the table's order, with the
  content encoding utf-8 if there was none.\<close>

theorem properties_round_trip:
  assumes "serialize_properties basic_table c = (Inr bs, c')" and "sendable (content_properties c')"
  shows "load_properties 60 (before @ bs @ after) (length before) x
      = (Inr (length before + length bs), x\<lparr>content_properties := picked (content_properties c')\<rparr>)
    \<and> content_properties c' = set_default (lit ''content_encoding'') (PStr (lit ''utf-8'')) (content_properties c)"
  using serialize_properties_written [OF assms]
proof cases
  fix head args assume a: "bs = head @ args"
    "c' = c\<lparr>content_properties := set_default (lit ''content_encoding'') (PStr (lit ''utf-8'')) (content_properties c)\<rparr>"
    "pack_H (flags_of (chosen (content_properties c') header_properties)) = Inr head"
    "dumps (parse_string (chosen (content_properties c') header_properties))
      (values_of (content_properties c') (chosen (content_properties c') header_properties)) = Inr args"
  from decode_basic_written [OF a(3,4) assms(2), of before after] a(1,2) show ?thesis
    by (simp add: load_properties_def PROPERTY_CLASSES_def)
qed

lemma properties_round_trip_witness:
  "load_properties 60 ([9] @ [0x50, 0, 5, 117, 116, 102, 45, 56, 2] @ [8]) 1 (new_content PNone PNone [])
     = (Inr 10, (new_content PNone PNone [])\<lparr>content_properties :=
         [(lit ''content_encoding'', PStr (lit ''utf-8'')), (lit ''delivery_mode'', PInt 2)]\<rparr>)"
proof -
  let ?c = "new_content PNone PNone [(lit ''delivery_mode'', PInt 2)]"
  let ?d = "[(lit ''delivery_mode'', PInt 2), (lit ''content_encoding'', PStr (lit ''utf-8''))]"
  have s: "sendable ?d"
    by (simp add: sendable_def header_properties_def field_ok_def) (simp add: lit_def valid_cp_def)
  have p: "picked ?d = [(lit ''content_encoding'', PStr (lit ''utf-8'')), (lit ''delivery_mode'', PInt 2)]"
    by (simp add: picked_def header_properties_def chosen_def present_def row_keys_def values_of_def)
  have d: "sendable (content_properties (?c\<lparr>content_properties := ?d\<rparr>))" using s by simp
  have "dumps ''so'' [PStr (lit ''utf-8''), PInt 2] = Inr [5, 117, 116, 102, 45, 56, 2]"
    by (simp add: dumps_def dumps_field_def flushbits_def emit_def write_str_def or_else_def encode_str_def
        py_len_def as_buffer_def eval_codec del: be_bytes.simps)
  then have "serialize_properties basic_table ?c = (Inr [0x50, 0, 5, 117, 116, 102, 45, 56, 2], ?c\<lparr>content_properties := ?d\<rparr>)"
    using serialize_basic [OF s]
    by (simp add: serialize_properties_def new_content_def set_default_def bindS_def chosen_def present_def
        header_properties_def flags_of_def parse_string_def values_of_def pack_H_def pack_u_def be_bytes_eval del: be_bytes.simps)
  from properties_round_trip [OF this d, of "[9]" "[8]" "new_content PNone PNone []"] p show ?thesis
    by simp
qed

text \<open>A content header that the sender wrote, as this class reads it.\<close>

lemma inbound_sent_header:
  assumes "content_header_args (PDict d) n = Inr args" and "sendable d"
  shows "inbound_header args 0 c = (Inr 12, c\<lparr>body_size := n, content_properties := picked d, ready := (n = 0 \<or> ready c)\<rparr>)"
proof -
  from content_header_read [OF assms, of 0 0] obtain a b k f
    where u: "unpack_HHQH (py_slice args 0 14) = Inr (a, b, k, f)" and h: "header_fields f args = Inr (picked d)"
      and k: "a = 60" "k = n"
    by (auto simp: build_frame_def frame_consts new_header_def bindE_eq_Inr)
  have "py_slice args 0 14 = take 14 args" by (simp add: py_slice_def)
  with u have l: "14 \<le> length args" and t: "unpack_H (take 14 args) 0 = Inr 60" "unpack_Q (take 14 args) 4 = Inr n"
    "unpack_H (take 14 args) 12 = Inr f"
    using k by (auto simp: unpack_HHQH_def bindE_eq_Inr split: if_splits)
  have "args = take 14 args @ drop 14 args" by simp
  with l t have t: "unpack_H args 0 = Inr 60" "unpack_Q args 4 = Inr n" "unpack_H args 12 = Inr f"
    using u16.unpack_ext [of _ "take 14 args" "drop 14 args"] u64.unpack_ext [of 4 "take 14 args" "drop 14 args"]
    by (simp_all del: append_take_drop_id)
  from header_fields_agree [of args] t(3) h
  obtain off where "decode_properties_basic args 12 = Inr (picked d, off)"
    by (auto simp: bindE_eq_Inr dest!: sym [of "Inr _"])
  with t show ?thesis
    by (simp add: inbound_header_def load_properties_def PROPERTY_CLASSES_def bindS_def)
qed

text \<open>C20: What the sender sends, this class receives: its content header gives the announced size and
  the properties, and then the body comes together from the pieces that have this size in all.\<close>

theorem sent_content_received:
  assumes "content_header_args (PDict d) (int (length (concat (bs @ [b])))) = Inr args" and "sendable d" and "b \<noteq> []"
  shows "\<exists>c. inbound_header args 0 (new_content m a props) = (Inr 12, c) \<and> content_properties c = picked d
    \<and> \<not> ready (inbound_bodies bs c)
    \<and> ready (inbound_bodies (bs @ [b]) c) \<and> body (inbound_bodies (bs @ [b]) c) = Some (concat (bs @ [b]))"
proof -
  let ?n = "length (concat (bs @ [b]))"
  let ?c = "(new_content m a props)\<lparr>body_size := int ?n, content_properties := picked d\<rparr>"
  have "0 < length b" using assms(3) by simp
  have h: "inbound_header args 0 (new_content m a props) = (Inr 12, ?c)"
    using inbound_sent_header [OF assms(1,2), of "new_content m a props"] \<open>0 < length b\<close>
    by (simp add: new_content_def flip: of_nat_add)
  have n: "0 < ?n" "length (concat bs) < ?n" using assms(3) by simp_all
  have "0 < int ?n" using n(1) by (simp only: of_nat_0_less_iff)
  then have "filling ?c []" by (simp add: filling_def new_content_def)
  with filling_pieces [of ?c "[]" bs] n have "\<not> ready (inbound_bodies bs ?c)" by (simp add: filling_def)
  moreover have "ready (inbound_bodies (bs @ [b]) ?c) \<and> body (inbound_bodies (bs @ [b]) ?c) = Some (concat (bs @ [b]))"
    by (rule body_assembled [of _ ?n]) (use n in \<open>simp_all add: new_content_def\<close>)
  ultimately show ?thesis using h by auto
qed

lemma sent_content_received_witness:
  "\<exists>args c. content_header_args (PDict []) 3 = Inr args \<and> inbound_header args 0 (new_content PNone PNone []) = (Inr 12, c)
     \<and> body (inbound_bodies ([[1], [2]] @ [[3]]) c) = Some [1, 2, 3]"
proof -
  have a: "content_header_args (PDict []) 3 = Inr [0, 60, 0, 0, 0, 0, 0, 0, 0, 0, 0, 3, 0, 0]"
    by (simp add: content_header_args_def sender_properties_def py_has_def py_getitem_def dumps_def
        dumps_field_def pack_Q_def eval_codec flushbits_def emit_def del: be_bytes.simps)
  have "sendable []" by (simp add: sendable_def header_properties_def)
  from sent_content_received [of "[]" "[[1], [2]]" "[3]", OF _ this] a show ?thesis by fastforce
qed

end
