(* ===== verification/Delivery_Properties.thy ===== *)
theory Delivery_Properties
  imports Broker_Properties Wire_Properties
begin

text \<open>What a consumer that is served can read from the bytes it gets.\<close>

lemma deliver_arguments_read:
  assumes "dumps ''sLbss'' [PStr consumer_tag, PInt delivery_tag, PBool False, PStr exchange_name, PStr []] = Inr marg"
    and "valid_str True consumer_tag" "valid_str True exchange_name"
  shows "loads ''sLbss'' marg 0
    = Inr ([PStr consumer_tag, PInt delivery_tag, PBool False, PStr exchange_name, PStr []], length marg)"
proof -
  have "list_all2 field_ok ''sLbss'' [PStr consumer_tag, PInt delivery_tag, PBool False, PStr exchange_name, PStr []]"
    using assms
    by (auto simp: dumps_def dumps_field_def field_ok_def elim!: bindE_InrE dest!: u64.pack_Inr_ok)
  from loads_dumps_at [OF assms(1) this, of marg 0] show ?thesis by simp
qed

lemma body_frame_read:
  assumes "sends_frame 3 channel body t t'"
  shows "read_frame (frame_bytes 3 channel body @ rest) = Inr (Some (BodyFrame channel (length (frame_bytes 3 channel body)) body))"
proof -
  have "length (frame_bytes 3 channel body) = 8 + length body" by (simp add: frame_bytes_def)
  with assms read_frame_bytes [of 3 channel body rest] show ?thesis
    by (simp add: sends_frame_def build_frame_def frame_consts)
qed

text \<open>C7: What \<open>push_message\<close> writes to a consumer, a client can read: three frames, of which the first has the
  consumer tag, the delivery tag and the exchange as its arguments, the second is a content header with the
  size and the properties of the message, and the third holds its body.\<close>

theorem pushed_message_readable:
  assumes "push_message (PDict d) (PBytes body) channel consumer_tag delivery_tag exchange_name t = (Inr (), t')"
    and "sendable d" "valid_str True consumer_tag" "valid_str True exchange_name"
  shows "\<exists>marg header content. sends (frame_bytes 1 channel ([0, 60, 0, 60] @ marg) @ header @ content) t t'
    \<and> loads ''sLbss'' marg 0
        = Inr ([PStr consumer_tag, PInt delivery_tag, PBool False, PStr exchange_name, PStr []], length marg)
    \<and> (\<forall>rest. read_frame (header @ rest)
        = Inr (Some (HeaderFrame channel (length header) 60 (int (length body)) (picked d))))
    \<and> (\<forall>rest. read_frame (content @ rest) = Inr (Some (BodyFrame channel (length content) body)))"
  using assms(1)
proof (rule push_frames)
  fix marg args t1 t2
  assume m: "dumps ''sLbss'' [PStr consumer_tag, PInt delivery_tag, PBool False, PStr exchange_name, PStr []] = Inr marg"
    and a: "content_header_args (PDict d) (int (length body)) = Inr args"
    and s: "sends_frame 1 channel ([0, 60, 0, 60] @ marg) t t1" "sends_frame 2 channel args t1 t2"
      "sends_frame 3 channel body t2 t'"
  have "sends (frame_bytes 1 channel ([0, 60, 0, 60] @ marg) @ frame_bytes 2 channel args @ frame_bytes 3 channel body) t t'"
    using s by (auto simp: sends_frame_def intro: sends_trans)
  moreover have "read_frame (frame_bytes 2 channel args @ rest) = Inr (Some (HeaderFrame channel
      (length (frame_bytes 2 channel args)) 60 (int (length body)) (picked d)))" for rest
    using s(2) read_frame_bytes [of 2 channel args rest] content_header_read [OF a assms(2), of channel]
    by (simp add: sends_frame_def frame_consts frame_bytes_def)
  ultimately show ?thesis
    using deliver_arguments_read [OF m assms(3,4)] body_frame_read [OF s(3)] by blast
qed

lemma pushed_message_readable_witness:
  "\<exists>t' marg header content. sends (frame_bytes 1 1 ([0, 60, 0, 60] @ marg) @ header @ content) new_transport t'
     \<and> loads ''sLbss'' marg 0 = Inr ([PStr (lit ''b''), PInt 8, PBool False, PStr [], PStr []], length marg)
     \<and> read_frame (header @ content) = Inr (Some (HeaderFrame 1 (length header) 60 1 []))
     \<and> read_frame (content @ []) = Inr (Some (BodyFrame 1 (length content) [104]))"
proof -
  have a: "content_header_args (PDict []) (int (length [104 :: byte])) = Inr [0, 60, 0, 0, 0, 0, 0, 0, 0, 0, 0, 1, 0, 0]"
    by (simp add: content_header_args_def sender_properties_def py_has_def dumps_def dumps_field_def
        pack_H_def pack_Q_def pack_u_def be_bytes_eval flushbits_def emit_def del: be_bytes.simps)
  have s: "short_str (lit ''b'')" "short_str []" "valid_str True (lit ''b'')" "valid_str True []"
    by (simp_all add: short_str_def lit_def valid_cp_def utf8_encode_cp_def)
  have "fst (push_message (PDict []) (PBytes [104]) 1 (lit ''b'') 8 [] new_transport) = Inr ()"
    by (rule push_ok [OF _ s(1,2) _ _ a]) (simp_all add: sendable_on_def)
  then obtain t' where p: "push_message (PDict []) (PBytes [104]) 1 (lit ''b'') 8 [] new_transport = (Inr (), t')"
    by (metis prod.collapse)
  have d: "sendable []" and k: "picked [] = []"
    by (simp_all add: sendable_def picked_def header_properties_def chosen_def present_def row_keys_def)
  from pushed_message_readable [OF p d s(3,4)] k show ?thesis by fastforce
qed

end
