(* ===== verification/Mock_Broker.thy ===== *)
theory Mock_Broker
  imports Server
begin

text \<open>
  The broker a test sees, without connections, bytes or consumers: a machine with one transition per
  thing that can be asked of it, on maps and sets. Every step of the server is a sequence of these
  transitions, and those an AMQP connection makes are of the kinds a client may ask for.
\<close>

section \<open>The machine\<close>

record mock =
  m_contract :: contract
  m_tried :: "pystr \<Rightarrow> bool option"
  m_acked :: "int set"
  m_nacked :: "int set"
  m_requeued :: "int set"

datatype request =
    Log_In pystr pystr
  | Declare_Exchange pystr pystr
  | Declare_Queue pystr
  | Bind pystr pystr
  | Store pystr stored
  | Acknowledge int
  | Reject int bool
  | Announce pystr stored
  | Put pystr stored
  | Purge_Queue pystr
  | Purge_Exchange pystr
  | Start_Over

definition on_contract :: "(contract \<Rightarrow> contract) \<Rightarrow> mock \<Rightarrow> mock" where
  "on_contract f m = m\<lparr>m_contract := f (m_contract m)\<rparr>"

text \<open>A broker as it starts: the default exchange, and nothing that has happened.\<close>

definition mock_start :: mock where
  "mock_start =
     \<lparr>m_contract = \<lparr>c_type = [[] \<mapsto> lit ''direct''], c_exchange = [[] \<mapsto> []], c_queue = Map.empty, c_bound = {}\<rparr>,
      m_tried = Map.empty, m_acked = {}, m_nacked = {}, m_requeued = {}\<rparr>"

text \<open>
  \<open>Store\<close> is an AMQP publish, into the exchange and what is bound to it; \<open>Announce\<close> and \<open>Put\<close> are the
  publishes over HTTP, which leave a trace in the exchange or in the queue only.
\<close>

fun answer :: "pystr \<Rightarrow> pystr \<Rightarrow> request \<Rightarrow> mock \<Rightarrow> mock" where
  "answer user password (Log_In u p) m = m\<lparr>m_tried := (m_tried m)(u \<mapsto> u = user \<and> p = password)\<rparr>"
| "answer user password (Declare_Exchange e ty) m = on_contract (c_declare_exchange e ty) m"
| "answer user password (Declare_Queue q) m = on_contract (c_declare_queue q) m"
| "answer user password (Bind q e) m = on_contract (c_bind q e) m"
| "answer user password (Store e x) m = on_contract (c_store e x) m"
| "answer user password (Acknowledge t) m = m\<lparr>m_acked := insert t (m_acked m)\<rparr>"
| "answer user password (Reject t requeue) m =
     (if requeue then m\<lparr>m_requeued := insert t (m_requeued m)\<rparr> else m\<lparr>m_nacked := insert t (m_nacked m)\<rparr>)"
| "answer user password (Announce e x) m =
     on_contract (\<lambda>c. c\<lparr>c_exchange := (c_exchange c)(e := map_option (\<lambda>ms. ms @ [x]) (c_exchange c e))\<rparr>) m"
| "answer user password (Put q x) m =
     on_contract (\<lambda>c. c\<lparr>c_queue := (c_queue c)(q := map_option (\<lambda>ms. ms @ [x]) (c_queue c q))\<rparr>) m"
| "answer user password (Purge_Queue q) m =
     on_contract (\<lambda>c. c\<lparr>c_queue := (c_queue c)(q := map_option (\<lambda>_. []) (c_queue c q))\<rparr>) m"
| "answer user password (Purge_Exchange e) m =
     on_contract (\<lambda>c. c\<lparr>c_exchange := (c_exchange c)(e := map_option (\<lambda>_. []) (c_exchange c e))\<rparr>) m"
| "answer user password Start_Over m = mock_start"

abbreviation answers :: "pystr \<Rightarrow> pystr \<Rightarrow> request list \<Rightarrow> mock \<Rightarrow> mock" where
  "answers user password \<equiv> fold (answer user password)"

definition asking :: "request result \<Rightarrow> request list" where
  \<comment> \<open>the request that a client spells out, unless it cannot be read\<close>
  "asking r = (case r of Inl _ \<Rightarrow> [] | Inr x \<Rightarrow> [x])"

lemma asking_simps [simp]: "asking (Inl e) = []" "asking (Inr x) = [x]"
  by (simp_all add: asking_def)

text \<open>What an AMQP client may ask for, and what a test does.\<close>

fun amqp_request :: "request \<Rightarrow> bool" where
  "amqp_request (Announce _ _) = False"
| "amqp_request (Put _ _) = False"
| "amqp_request (Purge_Queue _) = False"
| "amqp_request (Purge_Exchange _) = False"
| "amqp_request Start_Over = False"
| "amqp_request _ = True"

fun http_request :: "request \<Rightarrow> bool" where
  "http_request (Log_In _ _) = False"
| "http_request (Bind _ _) = False"
| "http_request (Store _ _) = False"
| "http_request (Acknowledge _) = False"
| "http_request (Reject _ _) = False"
| "http_request _ = True"

section \<open>The state as the machine's\<close>

definition mock_of :: "broker \<Rightarrow> mock" where
  "mock_of b = \<lparr>m_contract = contract_of b, m_tried = map_of (auth_tried b), m_acked = acknowledged b,
     m_nacked = not_acknowledged b, m_requeued = requeued b\<rparr>"

text \<open>Operations on exchanges, queues and consumers leave the records of logins and of deliveries.\<close>

definition records :: "broker \<Rightarrow> (pystr \<times> bool) list \<times> int set \<times> int set \<times> int set" where
  "records b = (auth_tried b, acknowledged b, not_acknowledged b, requeued b)"

lemma records_kept:
  "records (snd (declare_exchange n ty b)) = records b" "records (snd (declare_queue q b)) = records b"
  "records (snd (bind_queue q e b)) = records b" "records (snd (register_consumer c tg q ch b)) = records b"
  "records (snd (append_to_exchange x e b)) = records b" "records (snd (append_to_queue x q b)) = records b"
  "records (snd (remove_consumers q dead b)) = records b"
  "records (snd (delete_messages_of_queue q b)) = records b" "records (snd (delete_messages_of_exchange e b)) = records b"
  by (simp_all add: records_def declare_exchange_def declare_queue_def bind_queue_def register_consumer_def
      append_to_exchange_def append_to_queue_def remove_consumers_def delete_messages_of_queue_def
      delete_messages_of_exchange_def bindS_apply split: option.split)

lemma records_store: "records (snd (store_message so e hdrs body b)) = records b"
  using keepsD [OF keeps_store_message [of "\<lambda>b'. records b' = records b"]] records_kept(5,6)
  by (simp add: keeps_def)

lemma mock_of_contract:
  "records b' = records b \<Longrightarrow> contract_of b' = f (contract_of b) \<Longrightarrow> mock_of b' = on_contract f (mock_of b)"
  by (simp add: mock_of_def on_contract_def records_def)

lemma mock_of_init: "mock_of (init_state user password) = mock_start"
  by (auto simp: mock_of_def mock_start_def init_state_def contract_of_def view_defs new_exchange_def fun_eq_iff)

text \<open>Each operation of the state is one transition, or none.\<close>

lemma operations_answer:
  assumes "broker_ok b" and "users b = [(user, password)]"
  shows "mock_of (snd (check_credentials u p b)) = answer user password (Log_In u p) (mock_of b)"
    and "mock_of (snd (declare_exchange n ty b)) = answer user password (Declare_Exchange n ty) (mock_of b)"
    and "mock_of (snd (declare_queue q b)) = answer user password (Declare_Queue q) (mock_of b)"
    and "mock_of (snd (bind_queue q e b)) = answer user password (Bind q e) (mock_of b)"
    and "mock_of (snd (message_ack t b)) = answer user password (Acknowledge t) (mock_of b)"
    and "mock_of (snd (message_nack t requeue b)) = answer user password (Reject t requeue) (mock_of b)"
    and "mset (so (bound_queues b e)) = mset (bound_queues b e) \<Longrightarrow>
      mock_of (snd (store_message so e hdrs body b))
        = answer user password (Store e \<lparr>stored_headers = hdrs, stored_body = body\<rparr>) (mock_of b)"
    and "mock_of (snd (append_to_exchange x e b)) = answer user password (Announce e x) (mock_of b)"
    and "mock_of (snd (append_to_queue x q b)) = answer user password (Put q x) (mock_of b)"
    and "mock_of (snd (delete_messages_of_queue q b)) = answer user password (Purge_Queue q) (mock_of b)"
    and "mock_of (snd (delete_messages_of_exchange e b)) = answer user password (Purge_Exchange e) (mock_of b)"
    and "mock_of (snd (reset user password b)) = answer user password Start_Over (mock_of b)"
    and "mock_of (snd (register_consumer c tg q ch b)) = mock_of b"
    and "mock_of (snd (remove_consumers q dead b)) = mock_of b"
proof -
  have ex: "type_of b [] \<noteq> None" using assms(1) by (simp add: broker_ok_iff)
  show "mock_of (snd (check_credentials u p b)) = answer user password (Log_In u p) (mock_of b)"
    by (auto simp: mock_of_def check_credentials_def Let_def assms(2) contract_of_def view_defs AList.update_conv' fun_eq_iff)
  show "mock_of (snd (message_ack t b)) = answer user password (Acknowledge t) (mock_of b)"
    "mock_of (snd (message_nack t requeue b)) = answer user password (Reject t requeue) (mock_of b)"
    by (simp_all add: mock_of_def message_ack_def message_nack_def contract_of_def view_defs fun_eq_iff)
  show "mset (so (bound_queues b e)) = mset (bound_queues b e) \<Longrightarrow>
      mock_of (snd (store_message so e hdrs body b))
        = answer user password (Store e \<lparr>stored_headers = hdrs, stored_body = body\<rparr>) (mock_of b)"
    using mock_of_contract [where f = "c_store e \<lparr>stored_headers = hdrs, stored_body = body\<rparr>",
        OF records_store store_message_result(2) [OF assms(1)]] by simp
  show "mock_of (snd (reset user password b)) = answer user password Start_Over (mock_of b)"
    by (simp add: reset_state mock_of_init)
  show "mock_of (snd (register_consumer c tg q ch b)) = mock_of b"
    "mock_of (snd (remove_consumers q dead b)) = mock_of b"
    using mock_of_contract [OF records_kept(4), of c tg q ch b id] mock_of_contract [OF records_kept(7), of q dead b id]
    by (simp_all add: contract_of_def register_consumer_view remove_consumers_view on_contract_def)
  show "mock_of (snd (declare_exchange n ty b)) = answer user password (Declare_Exchange n ty) (mock_of b)"
    using mock_of_contract [where f = "c_declare_exchange n ty", OF records_kept(1) declare_exchange_refines] by simp
  show "mock_of (snd (declare_queue q b)) = answer user password (Declare_Queue q) (mock_of b)"
    using mock_of_contract [where f = "c_declare_queue q", OF records_kept(2) declare_queue_refines [OF ex]] by simp
  show "mock_of (snd (bind_queue q e b)) = answer user password (Bind q e) (mock_of b)"
    using mock_of_contract [where f = "c_bind q e", OF records_kept(3) bind_queue_refines] by simp
  show "mock_of (snd (append_to_exchange x e b)) = answer user password (Announce e x) (mock_of b)"
    and "mock_of (snd (append_to_queue x q b)) = answer user password (Put q x) (mock_of b)"
    and "mock_of (snd (delete_messages_of_queue q b)) = answer user password (Purge_Queue q) (mock_of b)"
    and "mock_of (snd (delete_messages_of_exchange e b)) = answer user password (Purge_Exchange e) (mock_of b)"
    by (simp_all, rule_tac [!] mock_of_contract [OF records_kept(5)] mock_of_contract [OF records_kept(6)]
        mock_of_contract [OF records_kept(8)] mock_of_contract [OF records_kept(9)])
      (simp_all add: contract_of_def append_to_exchange_view append_to_queue_view delete_views)
qed

section \<open>The server plays the machine\<close>

definition asks :: "pystr \<Rightarrow> pystr \<Rightarrow> (request \<Rightarrow> bool) \<Rightarrow> mock \<Rightarrow> mock \<Rightarrow> bool" where
  "asks user password ok m m' \<longleftrightarrow> (\<exists>rs. list_all ok rs \<and> m' = answers user password rs m)"

lemma asks_none [simp]: "asks user password ok m m"
  unfolding asks_def by (rule exI [of _ "[]"]) simp

lemma asks_more:
  "asks user password ok m m' \<Longrightarrow> ok r \<Longrightarrow> asks user password ok m (answer user password r m')"
  unfolding asks_def by (elim exE conjE, rule_tac x = "rs @ [r]" in exI) simp

lemma asks_trans:
  "asks user password ok m m' \<Longrightarrow> asks user password ok m' m'' \<Longrightarrow> asks user password ok m m''"
  unfolding asks_def by (elim exE conjE, rule_tac x = "rs @ rsa" in exI) simp

lemma asks_weaken: "asks user password ok m m' \<Longrightarrow> (\<And>r. ok r \<Longrightarrow> ok' r) \<Longrightarrow> asks user password ok' m m'"
  unfolding asks_def by (auto simp: list_all_iff)

text \<open>A state that got where it is from the machine's state \<open>m\<close> by requests of a kind.\<close>

definition plays ::
  "(pystr list \<Rightarrow> pystr list) \<Rightarrow> pystr \<Rightarrow> pystr \<Rightarrow> (request \<Rightarrow> bool) \<Rightarrow> mock \<Rightarrow> broker \<Rightarrow> bool" where
  "plays so user password ok m b \<longleftrightarrow> ((\<forall>xs. mset (so xs) = mset xs) \<longrightarrow>
     broker_ok b \<and> users b = [(user, password)] \<and> asks user password ok m (mock_of b))"

lemma keeps_plays:
  assumes "keeps broker_ok op" and "\<And>us. keeps (\<lambda>b. users b = us) op"
    and "\<And>b. (\<forall>xs. mset (so xs) = mset xs) \<Longrightarrow> broker_ok b \<Longrightarrow> users b = [(user, password)] \<Longrightarrow>
      asks user password ok (mock_of b) (mock_of (snd (op b)))"
  shows "keeps (plays so user password ok m) op"
proof (rule keepsI)
  fix b assume b: "plays so user password ok m b"
  show "plays so user password ok m (snd (op b))"
    unfolding plays_def
  proof (intro impI conjI)
    assume "\<forall>xs. mset (so xs) = mset xs"
    with b have ok: "broker_ok b" "users b = [(user, password)]" and a: "asks user password ok m (mock_of b)"
      by (simp_all add: plays_def)
    show "broker_ok (snd (op b))" by (rule keepsD [OF assms(1) ok(1)])
    show "users (snd (op b)) = [(user, password)]" by (rule keepsD [OF assms(2) ok(2)])
    show "asks user password ok m (mock_of (snd (op b)))"
      using asks_trans [OF a assms(3) [OF _ ok]] \<open>\<forall>xs. mset (so xs) = mset xs\<close> by blast
  qed
qed

lemma asks_answer: "m' = answer user password r m \<Longrightarrow> ok r \<Longrightarrow> asks user password ok m m'"
  using asks_more [OF asks_none] by blast

interpretation playing: broker_invariant "plays so user password amqp_request m" so
  by unfold_locales
    (rule keeps_plays [OF ok.keeps_check_credentials accounts.keeps_check_credentials]
      keeps_plays [OF ok.keeps_declare_exchange accounts.keeps_declare_exchange]
      keeps_plays [OF ok.keeps_declare_queue accounts.keeps_declare_queue]
      keeps_plays [OF ok.keeps_bind_queue accounts.keeps_bind_queue]
      keeps_plays [OF ok.keeps_register_consumer accounts.keeps_register_consumer]
      keeps_plays [OF ok.keeps_store_message accounts.keeps_store_message]
      keeps_plays [OF ok.keeps_message_ack accounts.keeps_message_ack]
      keeps_plays [OF ok.keeps_message_nack accounts.keeps_message_nack],
     simp add: operations_answer(13) asks_answer [OF operations_answer(1)] asks_answer [OF operations_answer(2)]
      asks_answer [OF operations_answer(3)] asks_answer [OF operations_answer(4)]
      asks_answer [OF operations_answer(5)] asks_answer [OF operations_answer(6)]
      asks_answer [OF operations_answer(7)])+

text \<open>The other clients of the state ask for the rest.\<close>

lemma keeps_users:
  "keeps (\<lambda>b. users b = us) (append_to_exchange x e)" "keeps (\<lambda>b. users b = us) (append_to_queue x q)"
  "keeps (\<lambda>b. users b = us) (remove_consumers q dead)" "keeps (\<lambda>b. users b = us) (delete_messages_of_queue q)"
  "keeps (\<lambda>b. users b = us) (delete_messages_of_exchange e)"
  by (simp_all add: keeps_def append_to_exchange_def append_to_queue_def remove_consumers_def
      delete_messages_of_queue_def delete_messages_of_exchange_def split: option.split)

lemma keeps_broker_ok_delete:
  "keeps broker_ok (remove_consumers q dead)" "keeps broker_ok (delete_messages_of_queue q)"
  "keeps broker_ok (delete_messages_of_exchange e)"
  by (auto simp: keeps_def broker_ok_iff remove_consumers_view delete_views split: if_splits)

lemma keeps_plays_http:
  assumes "\<And>r. http_request r \<Longrightarrow> kind r"
  shows "keeps (plays so user password kind m) (append_to_exchange x e)"
    "keeps (plays so user password kind m) (append_to_queue x q)"
    "keeps (plays so user password kind m) (remove_consumers q dead)"
    "keeps (plays so user password kind m) (delete_messages_of_queue q)"
    "keeps (plays so user password kind m) (delete_messages_of_exchange e)"
    "keeps (plays so user password kind m) (declare_exchange e ty)"
    "keeps (plays so user password kind m) (declare_queue q)"
  by (rule keeps_plays [OF keeps_broker_ok(6) keeps_users(1)] keeps_plays [OF keeps_broker_ok(7) keeps_users(2)]
      keeps_plays [OF keeps_broker_ok_delete(1) keeps_users(3)] keeps_plays [OF keeps_broker_ok_delete(2) keeps_users(4)]
      keeps_plays [OF keeps_broker_ok_delete(3) keeps_users(5)]
      keeps_plays [OF keeps_broker_ok(2) accounts.keeps_declare_exchange]
      keeps_plays [OF keeps_broker_ok(3) accounts.keeps_declare_queue],
     simp add: assms operations_answer(14) asks_answer [OF operations_answer(2)] asks_answer [OF operations_answer(3)]
      asks_answer [OF operations_answer(8)] asks_answer [OF operations_answer(9)]
      asks_answer [OF operations_answer(10)] asks_answer [OF operations_answer(11)])+

lemma keeps_plays_reset:
  assumes "\<And>r. http_request r \<Longrightarrow> kind r"
  shows "keeps (plays so user password kind m) (reset user password)"
proof (rule keepsI)
  fix b assume b: "plays so user password kind m b"
  have "asks user password kind m' mock_start" for m'
    by (rule asks_answer [of _ _ _ Start_Over]) (simp_all add: assms)
  then show "plays so user password kind m (snd (reset user password b))"
    by (simp add: plays_def reset_state mock_of_init init_state_ok) (simp add: init_state_def)
qed

lemma keeps_plays_world:
  assumes "\<And>r. http_request r \<Longrightarrow> kind r"
  shows "keeps (\<lambda>w. plays so user password kind m (the_broker w)) (publish_message so' e hdrs data is_binary)"
    and "keeps (\<lambda>w. plays so user password kind m (the_broker w)) (publish_message_in_queue q hdrs data is_binary)"
proof -
  have "keeps (\<lambda>w. plays so user password kind m (the_broker w) \<and> trackers w = ts) (publish_message so' e hdrs data is_binary)"
    "keeps (\<lambda>w. plays so user password kind m (the_broker w) \<and> trackers w = ts) (publish_message_in_queue q hdrs data is_binary)" for ts
    by (rule keeps_publish; rule keeps_plays_http; erule assms)
      (rule keeps_publish_in_queue; rule keeps_plays_http; erule assms)
  then show "keeps (\<lambda>w. plays so user password kind m (the_broker w)) (publish_message so' e hdrs data is_binary)"
    "keeps (\<lambda>w. plays so user password kind m (the_broker w)) (publish_message_in_queue q hdrs data is_binary)"
    unfolding keeps_def by blast+
qed

lemma receive_plays:
  assumes "data_received so c data w = (r, w')" and "\<forall>xs. mset (so xs) = mset xs"
    and "broker_ok (the_broker w)" and "users (the_broker w) = [(user, password)]"
  shows "asks user password amqp_request (mock_of (the_broker w)) (mock_of (the_broker w'))"
proof -
  have "plays so user password amqp_request (mock_of (the_broker w)) (the_broker w)"
    using assms(3,4) by (simp add: plays_def)
  with keepsD [OF playing.connected.keeps_data_received, of so user password "mock_of (the_broker w)" w c data]
    assms(1,2) show ?thesis by (simp add: plays_def)
qed

lemma step_plays:
  assumes "server_step so user password w w'" and order: "\<forall>xs. mset (so xs) = mset xs"
    and "broker_ok (the_broker w)" and "users (the_broker w) = [(user, password)]"
  shows "plays so user password (\<lambda>_. True) (mock_of (the_broker w)) (the_broker w')"
proof -
  let ?P = "plays so user password (\<lambda>_. True) (mock_of (the_broker w))"
  have w: "?P (the_broker w)" using assms(3,4) by (simp add: plays_def)
  have step: "?P (the_broker w')" if "keeps (\<lambda>w. ?P (the_broker w)) op" and "op w = (r, w')" for op :: "(world, 'a) eff" and r
    using keepsD [OF that(1), of w] that(2) w by simp
  note call = step [OF keeps_on_broker]
  from assms(1) show ?thesis
  proof cases
    case (Connect c)
    with w show ?thesis by (simp add: connection_made_def)
  next
    case (Receive c data r)
    have "broker_ok (the_broker w')"
      using keepsD [OF ok.connected.keeps_data_received, of w so c data] assms(3) Receive by simp
    moreover have "users (the_broker w') = [(user, password)]"
      using keepsD [OF accounts.connected.keeps_data_received, of w "[(user, password)]" so c data] assms(4) Receive by simp
    ultimately show ?thesis
      using asks_weaken [OF receive_plays [OF Receive order assms(3,4)]] by (simp add: plays_def)
  next
    case (Lost c)
    with w show ?thesis by simp
  next
    case (Publish e hdrs data is_binary r)
    then show ?thesis by (rule step [OF keeps_plays_world(1), rotated]) simp
  next
    case (Publish_In_Queue q hdrs data is_binary r)
    then show ?thesis by (rule step [OF keeps_plays_world(2), rotated]) simp
  next
    case (Create_Exchange n ty r)
    then show ?thesis by (rule call [OF keeps_plays_http(6), rotated]) simp
  next
    case (Create_Queue q r')
    then show ?thesis by (rule call [OF keeps_plays_http(7), rotated]) simp
  next
    case (Delete_Queue_Messages q r'')
    then show ?thesis by (rule call [OF keeps_plays_http(4), rotated]) simp
  next
    case (Delete_Exchange_Messages e r'')
    then show ?thesis by (rule call [OF keeps_plays_http(5), rotated]) simp
  next
    case (Flush r'')
    then show ?thesis by (rule call [OF keeps_plays_reset, rotated]) simp
  qed
qed

lemma reachable_plays:
  assumes "reachable so user password ds w" and "\<forall>xs. mset (so xs) = mset xs"
  shows "plays so user password (\<lambda>_. True) mock_start (the_broker w)"
  using assms(1)
proof induction
  case Start
  show ?case by (simp add: plays_def initial_world_def init_state_ok mock_of_init) (simp add: init_state_def)
next
  case (Step w w')
  then have w: "broker_ok (the_broker w)" "users (the_broker w) = [(user, password)]"
    "asks user password (\<lambda>_. True) mock_start (mock_of (the_broker w))"
    using assms(2) by (simp_all add: plays_def)
  from step_plays [OF Step.hyps(2) assms(2) w(1,2)] asks_trans [OF w(3)] assms(2)
  show ?case by (simp add: plays_def)
qed

end
