(* ===== verification/Http_Requests.thy ===== *)
theory Http_Requests
  imports Mock_Broker Http_Steps
begin

text \<open>
  The HTTP side of the mock broker: which requests the events of a connection make of it. Of the
  connection the machine knows the request that is being read; the events are those the parser gives.
\<close>

section \<open>What a request asks for\<close>

definition name_in :: "nat \<Rightarrow> nat \<Rightarrow> bytes \<Rightarrow> pystr result" where
  \<comment> \<open>a part of the path, as text\<close>
  "name_in n i t =
     (let parts = py_split (tag (CHR ''/'')) t n
      in if i < length parts then utf8_decode False (parts ! i) else Inl IndexError)"

definition posted :: "bytes \<Rightarrow> (bytes \<times> bytes) list \<Rightarrow> stored result" where
  \<comment> \<open>the message in the body of a POST\<close>
  "posted data hs =
     bindE (build_message data hs) (\<lambda>full. bindE (message_arguments full) (\<lambda>(hdrs, body, _).
       Inr \<lparr>stored_headers = hdrs, stored_body = body\<rparr>))"

definition post_requests :: "bytes \<Rightarrow> bytes \<Rightarrow> (bytes \<times> bytes) list \<Rightarrow> request list" where
  "post_requests t data hs =
     (if starts_with t ''/add-message-on/'' then
        asking (bindE (name_in 2 2 t) (\<lambda>e. bindE (posted data hs) (\<lambda>x. Inr (Announce e x))))
      else if starts_with t ''/add-message-in-queue/'' then
        asking (bindE (name_in 2 2 t) (\<lambda>q. bindE (posted data hs) (\<lambda>x. Inr (Put q x))))
      else if starts_with t ''/create-exchange/'' then
        asking (bindE (name_in 3 2 t) (\<lambda>e. bindE (name_in 3 3 t) (\<lambda>ty. Inr (Declare_Exchange e ty))))
      else if starts_with t ''/create-queue/'' then
        asking (bindE (name_in 2 2 t) (\<lambda>q. Inr (Declare_Queue q)))
      else [])"

definition delete_requests :: "bytes \<Rightarrow> request list" where
  "delete_requests t =
     (if starts_with t ''/messages-in-queue/'' then asking (bindE (name_in 2 2 t) (\<lambda>q. Inr (Purge_Queue q)))
      else if starts_with t ''/messages-in-exchange/'' then
        asking (bindE (name_in 2 2 t) (\<lambda>e. Inr (Purge_Exchange e)))
      else [])"

section \<open>What events ask for\<close>

type_synonym request_line = "request_state \<times> bytes option \<times> bytes option \<times> (bytes \<times> bytes) list option"

definition no_request :: request_line where
  "no_request = (WAITING_HEADERS, None, None, None)"

fun told :: "request_line \<Rightarrow> event \<Rightarrow> request list" where
  "told (st, m, t, hs) (Request m' t' hs') =
     (if st \<noteq> WAITING_HEADERS then []
      else if m' = b_lit ''MOCK_FLUSH'' then [Start_Over]
      else if m' = b_lit ''DELETE'' then delete_requests t'
      else [])"
| "told (st, m, Some t, Some hs) (Data d) =
     (if st = WAITING_BODY \<and> m = Some (b_lit ''POST'') then post_requests t d hs else [])"
| "told _ _ = []"

fun follow :: "request_line \<Rightarrow> event \<Rightarrow> request_line" where
  "follow (st, m, t, hs) (Request m' t' hs') =
     (if st \<noteq> WAITING_HEADERS then (st, m, t, hs)
      else (if m' = b_lit ''POST'' \<or> m' = b_lit ''PUT'' then WAITING_BODY else WAITING_HEADERS, Some m', Some t', Some hs'))"
| "follow _ EndOfMessage = no_request"
| "follow l _ = l"

fun tell :: "request_line \<Rightarrow> event list \<Rightarrow> request list" where
  "tell l [] = []"
| "tell l (ev # evs) = told l ev @ tell (follow l ev) evs"

section \<open>Which events there are\<close>

text \<open>
  The events that the parser gives the loop, up to \<open>NEED_DATA\<close> or to the one whose handler raises; what is
  sent in between goes through the parser too.
\<close>

partial_function (option) events_given :: "'p h11 \<Rightarrow> settings \<Rightarrow> 'p http \<Rightarrow> event list option" where
  "events_given h cfg s =
     (case on_parser (h11_next_event h) s of
        (Inl _, _) \<Rightarrow> Some []
      | (Inr ev, s1) \<Rightarrow>
          (case on_event h cfg ev s1 of
             (Inl _, _) \<Rightarrow> Some [ev]
           | (Inr _, s2) \<Rightarrow>
               if ev = NEED_DATA then Some [ev]
               else Option.bind (events_given h cfg s2) (\<lambda>evs. Some (ev # evs))))"

definition events_received :: "'p h11 \<Rightarrow> settings \<Rightarrow> bytes \<Rightarrow> 'p http \<Rightarrow> event list option" where
  "events_received h cfg data s =
     (case on_parser (h11_receive_data h data) s of
        (Inl _, _) \<Rightarrow> Some []
      | (Inr _, s1) \<Rightarrow> events_given h cfg s1)"

section \<open>The handlers make these requests\<close>

text \<open>Publishing over HTTP is one transition, whatever becomes of the delivery.\<close>

lemma mock_delivery: "mock_of (the_broker (snd (deliver_to_queue hdrs data is_binary e q w))) = mock_of (the_broker w)"
proof -
  have "keeps (\<lambda>b. mock_of b = m) (remove_consumers q dead)" for m q dead
    using mock_of_contract [OF records_kept(7), of q dead _ id]
    by (auto simp: keeps_def contract_of_def remove_consumers_view on_contract_def)
  from keeps_deliver [OF this, of "mock_of (the_broker w)" "trackers w"] show ?thesis by (simp add: keeps_def)
qed

lemma mock_publish:
  assumes "broker_ok (the_broker w)" and "users (the_broker w) = [(user, password)]"
  shows "mock_of (the_broker (snd (publish_message so e hdrs data is_binary w)))
      = answer user password (Announce e \<lparr>stored_headers = hdrs, stored_body = data\<rparr>) (mock_of (the_broker w))"
    and "mock_of (the_broker (snd (publish_message_in_queue q hdrs data is_binary w)))
      = answer user password (Put q \<lparr>stored_headers = hdrs, stored_body = data\<rparr>) (mock_of (the_broker w))"
proof -
  have known: "fst (append_to_exchange x e b) = Inr ()" if "map_of (exchanges b) e \<noteq> None" for x b
    using that by (auto simp: append_to_exchange_def split: option.splits)
  have known_queue: "fst (append_to_queue x q b) = Inr ()" if "map_of (queues b) q \<noteq> None" for x b
    using that by (auto simp: append_to_queue_def split: option.splits)
  show "mock_of (the_broker (snd (publish_message so e hdrs data is_binary w)))
      = answer user password (Announce e \<lparr>stored_headers = hdrs, stored_body = data\<rparr>) (mock_of (the_broker w))"
  proof (cases "map_of (exchanges (the_broker w)) e = None")
    case True
    then show ?thesis
      by (simp add: publish_message_def on_contract_def mock_of_def contract_of_def exchange_log_def fun_upd_idem)
  next
    case False
    with known [OF False] operations_answer(8) [OF assms] show ?thesis
      by (auto simp: publish_message_def bindS_apply on_broker_apply mock_delivery split: list.split)
  qed
  show "mock_of (the_broker (snd (publish_message_in_queue q hdrs data is_binary w)))
      = answer user password (Put q \<lparr>stored_headers = hdrs, stored_body = data\<rparr>) (mock_of (the_broker w))"
  proof (cases "map_of (queues (the_broker w)) q = None")
    case True
    then show ?thesis
      by (simp add: publish_message_in_queue_def on_contract_def mock_of_def contract_of_def queue_log_def fun_upd_idem)
  next
    case False
    with known_queue [OF False] operations_answer(9) [OF assms] show ?thesis
      by (auto simp: publish_message_in_queue_def bindS_apply on_broker_apply mock_delivery)
  qed
qed

lemma path_and_text:
  "bindS (path_part n i t) (\<lambda>b. bindS (text_of b) k) = bindS (liftE (name_in n i t)) k"
  by (auto simp: path_part_def text_of_def name_in_def Let_def fun_eq_iff bindS_apply split: sum.split)

text \<open>A computation on an HTTP connection that makes these requests of the mock behind it.\<close>

definition makes :: "pystr \<Rightarrow> pystr \<Rightarrow> request list \<Rightarrow> 'p http \<Rightarrow> ('p http, 'a) eff \<Rightarrow> bool" where
  "makes user password rs s m \<longleftrightarrow>
     mock_of (the_broker (server (snd (m s)))) = answers user password rs (mock_of (the_broker (server s)))"

lemma makes_read:
  assumes "\<And>x. r = Inr x \<Longrightarrow> makes user password (rs x) s (k x)"
  shows "makes user password (case r of Inl _ \<Rightarrow> [] | Inr x \<Rightarrow> rs x) s (bindS (liftE r) k)"
  using assms by (cases r) (simp_all add: makes_def)

lemma makes_name:
  assumes "\<And>q. makes user password [R q] s (k q)"
  shows "makes user password (asking (bindE (name_in n i t) (\<lambda>q. Inr (R q)))) s (bindS (path_part n i t) (\<lambda>b. bindS (text_of b) k))"
  using makes_read [of "name_in n i t" user password "\<lambda>q. [R q]" s k] assms
  by (cases "name_in n i t") (simp_all add: path_and_text)

lemma makes_two_names:
  assumes "\<And>e ty. makes user password [R e ty] s (k e ty)"
  shows "makes user password (asking (bindE (name_in n i t) (\<lambda>e. bindE (name_in n j t) (\<lambda>ty. Inr (R e ty))))) s
    (bindS (path_part n i t) (\<lambda>a. bindS (path_part n j t) (\<lambda>b. bindS (text_of a) (\<lambda>e. bindS (text_of b) (k e)))))"
proof -
  let ?parts = "py_split (tag (CHR ''/'')) t n"
  show ?thesis
    using assms
    by (cases "utf8_decode False (?parts ! i)"; cases "utf8_decode False (?parts ! j)")
      (simp_all add: makes_def path_part_def text_of_def name_in_def Let_def)
qed

lemma makes_publication:
  assumes "\<And>e hdrs body bin. makes user password [R e \<lparr>stored_headers = hdrs, stored_body = body\<rparr>] s (k e hdrs body bin)"
  shows "makes user password (asking (bindE (name_in 2 2 t) (\<lambda>e. bindE (posted data hs) (\<lambda>x. Inr (R e x))))) s
    (bindS (path_part 2 2 t) (\<lambda>a. bindS (liftE (build_message data hs)) (\<lambda>full. bindS (text_of a) (\<lambda>e.
       bindS (liftE (message_arguments full)) (\<lambda>(hdrs, body, bin). k e hdrs body bin)))))"
proof -
  let ?parts = "py_split (tag (CHR ''/'')) t 2"
  show ?thesis
  proof (cases "build_message data hs")
    case (Inl e)
    then show ?thesis
      by (cases "utf8_decode False (?parts ! 2)") (simp_all add: makes_def path_part_def name_in_def posted_def Let_def)
  next
    case (Inr full)
    then show ?thesis
      using assms
      by (cases "message_arguments full"; cases "utf8_decode False (?parts ! 2)")
        (auto simp: makes_def path_part_def text_of_def name_in_def posted_def Let_def split: prod.split)
  qed
qed

lemma makes_one:
  assumes "\<And>x w. keeps (\<lambda>s. server s = w) (k x)"
    and "mock_of (the_broker (snd (m (server s)))) = answer user password r (mock_of (the_broker (server s)))"
  shows "makes user password [r] s (bindS (on_server m) k)"
proof -
  have "server (snd (bindS (on_server m) k s)) = snd (m (server s))"
    using assms(1) by (auto simp: bindS_apply on_server_def keeps_def split: prod.split sum.split)
  with assms(2) show ?thesis by (simp add: makes_def)
qed

lemma makes_none: "(\<And>w. keeps (\<lambda>s. server s = w) m) \<Longrightarrow> makes user password [] s m"
  by (simp add: makes_def keeps_def)

lemma keeps_server_answers:
  "keeps (\<lambda>s. server s = w) (send_tag h n)" "keeps (\<lambda>s. server s = w) (send_http_response_ok h body)"
  "keeps (\<lambda>s. server s = w) (send_http_response_no_content h)" "keeps (\<lambda>s. server s = w) (send_http_response_not_found h)"
  "keeps (\<lambda>s. server s = w) (on_get h cfg t)"
  by (rule answers.keeps_answers answers.keeps_bodies answers.keeps_responses answers.keeps_on_get)+

lemma operations_make:
  assumes b: "broker_ok (the_broker (server s))" "users (the_broker (server s)) = [(user, password)]"
  shows "makes user password [Announce e \<lparr>stored_headers = hdrs, stored_body = body\<rparr>] s
      (bindS (on_server (publish_message so e hdrs body bin)) (send_tag h))"
    and "makes user password [Put q \<lparr>stored_headers = hdrs, stored_body = body\<rparr>] s
      (bindS (on_server (publish_message_in_queue q hdrs body bin)) (send_tag h))"
    and "makes user password [Declare_Exchange e ty] s
      (bindS (on_state (declare_exchange e ty)) (\<lambda>_. send_http_response_ok h x))"
    and "makes user password [Declare_Queue q] s (bindS (on_state (declare_queue q)) (\<lambda>_. send_http_response_ok h x))"
    and "makes user password [Purge_Queue q] s (thenS (on_state (delete_messages_of_queue q)) (send_http_response_no_content h))"
    and "makes user password [Purge_Exchange e] s (thenS (on_state (delete_messages_of_exchange e)) (send_http_response_no_content h))"
    and "makes user password [Start_Over] s (thenS (on_state (reset user password)) (send_http_response_no_content h))"
  unfolding on_state_def
  by (rule makes_one, rule keeps_server_answers,
      simp add: mock_publish [OF b] on_broker_apply operations_answer [OF b] del: answer.simps)+

lemma makes_if:
  "(c \<Longrightarrow> makes user password rs s m) \<Longrightarrow> (\<not> c \<Longrightarrow> makes user password rs' s m') \<Longrightarrow>
     makes user password (if c then rs else rs') s (if c then m else m')"
  by simp

lemmas makes_rules = makes_if makes_name makes_two_names makes_publication makes_none keeps_server_answers

lemma on_post_makes:
  assumes "broker_ok (the_broker (server s))" and "users (the_broker (server s)) = [(user, password)]"
  shows "makes user password (post_requests t data hs) s (on_post h cfg t data hs)"
  unfolding on_post_def post_requests_def by (intro makes_rules operations_make [OF assms])

lemma on_delete_makes:
  assumes "broker_ok (the_broker (server s))" and "users (the_broker (server s)) = [(user, password)]"
  shows "makes user password (delete_requests t) s (on_delete h t)"
  unfolding on_delete_def delete_requests_def by (intro makes_rules operations_make [OF assms])

lemma on_event_makes:
  assumes "broker_ok (the_broker (server s))"
    and "users (the_broker (server s)) = [(default_user cfg, default_password cfg)]"
  shows "makes (default_user cfg) (default_password cfg) (told (request_fields s) ev) s (on_event h cfg ev)"
proof (cases ev)
  case (Request m t hs)
  show ?thesis
  proof (cases "request_state s = WAITING_HEADERS")
    case True
    let ?s = "s\<lparr>verb := Some m, target := Some t, headers := Some hs\<rparr>"
    have b: "broker_ok (the_broker (server ?s))" "users (the_broker (server ?s)) = [(default_user cfg, default_password cfg)]"
      using assms by simp_all
    from True operations_make(7) [OF b, of h] on_delete_makes [OF b, of t h] makes_none [OF keeps_server_answers(5), of _ _ ?s h cfg t]
    show ?thesis
      by (auto simp: Request on_event_def on_request_def makes_def request_fields_def b_lit_def tag_def byte_of_def)
  qed (simp add: Request on_event_def makes_def request_fields_def)
next
  case (Data d)
  show ?thesis
  proof (cases "request_state s = WAITING_BODY \<and> verb s = Some (b_lit ''POST'')")
    case True
    with on_post_makes [OF assms, of _ d _ h cfg] show ?thesis
      by (cases "target s"; cases "headers s")
        (simp_all add: Data on_event_def on_data_def makes_def request_fields_def the_field_def)
  next
    case False
    then have "told (request_fields s) ev = []"
      by (cases "target s"; cases "headers s") (auto simp: Data request_fields_def)
    moreover have "keeps (\<lambda>s. server s = w) (on_put h :: ('a http, unit) eff)" for w
      unfolding on_put_def by (rule keeps_server_answers)
    ultimately show ?thesis
      using False by (auto simp: Data on_event_def on_data_def makes_def keeps_def)
  qed
qed (simp_all add: on_event_def on_end_of_message_def makes_def request_fields_def)

lemmas fields_kept = own_request.keeps_on_get [THEN keepsD, OF refl] own_request.keeps_on_delete [THEN keepsD, OF refl]
  own_request.keeps_on_data [THEN keepsD, OF refl]

lemma on_event_follows:
  "request_fields (snd (on_event h cfg ev s)) = follow (request_fields s) ev"
proof (cases ev)
  case (Request m t hs)
  let ?s = "s\<lparr>verb := Some m, target := Some t, headers := Some hs\<rparr>"
  have "keeps (\<lambda>s. request_fields s = request_fields ?s) (thenS (on_state (reset u p)) (send_http_response_no_content h))"
    for u p
    by (intro keeps_http_rules own_request.keeps_responses)
      (simp add: keeps_def request_fields_def on_state_def on_server_def split: prod.split)
  from keepsD [OF this, of ?s] fields_kept(1) [of h cfg t ?s] fields_kept(2) [of h t ?s]
  have kept: "request_fields (snd (thenS (on_state (reset (default_user cfg) (default_password cfg))) (send_http_response_no_content h) ?s))
      = request_fields ?s"
    "request_fields (snd (on_get h cfg t ?s)) = request_fields ?s" "request_fields (snd (on_delete h t ?s)) = request_fields ?s"
    by blast+
  have f: "request_fields ?s = (request_state s, Some m, Some t, Some hs)"
    "request_fields (?s\<lparr>request_state := WAITING_BODY\<rparr>) = (WAITING_BODY, Some m, Some t, Some hs)"
    "request_fields s = (request_state s, verb s, target s, headers s)"
    by (simp_all add: request_fields_def)
  have verbs: "b_lit ''MOCK_FLUSH'' \<notin> {b_lit ''POST'', b_lit ''PUT''}" "b_lit ''GET'' \<notin> {b_lit ''POST'', b_lit ''PUT''}"
    "b_lit ''DELETE'' \<notin> {b_lit ''POST'', b_lit ''PUT''}"
    by (simp_all add: b_lit_def tag_def byte_of_def)
  show ?thesis
  proof (cases "request_state s = WAITING_HEADERS")
    case True
    let ?r = "request_fields (snd (on_request h cfg m t hs s))"
    have "?r = request_fields (if m = b_lit ''POST'' \<or> m = b_lit ''PUT'' then ?s\<lparr>request_state := WAITING_BODY\<rparr> else ?s)"
      using kept verbs unfolding on_request_def bindS_simps
      by (auto simp only: modifyS_apply returnS_apply snd_conv insert_iff empty_iff split: if_split)
    with True f show ?thesis
      by (cases "m = b_lit ''POST'' \<or> m = b_lit ''PUT''") (simp_all add: Request on_event_def)
  qed (simp add: Request on_event_def f)
next
  case (Data d)
  with fields_kept(3) [of h cfg d s] show ?thesis
    by (cases "request_fields s") (auto simp: on_event_def)
qed (simp_all add: on_event_def on_end_of_message_def request_fields_def no_request_def)

section \<open>A connection makes the requests of its events\<close>

text \<open>The state the mock is compared with: well formed, with the one user there is.\<close>

definition playable :: "settings \<Rightarrow> broker \<Rightarrow> bool" where
  "playable cfg b \<longleftrightarrow> broker_ok b \<and> users b = [(default_user cfg, default_password cfg)]"

lemma keeps_playable:
  "keeps broker_ok m \<Longrightarrow> (\<And>us. keeps (\<lambda>b. users b = us) m) \<Longrightarrow> keeps (playable cfg) m"
  by (simp add: keeps_def playable_def)

lemmas keeps_playable_ops = keeps_playable [OF keeps_broker_ok(6) keeps_users(1)]
  keeps_playable [OF keeps_broker_ok(7) keeps_users(2)] keeps_playable [OF keeps_broker_ok_delete(1) keeps_users(3)]
  keeps_playable [OF keeps_broker_ok_delete(2) keeps_users(4)] keeps_playable [OF keeps_broker_ok_delete(3) keeps_users(5)]
  keeps_playable [OF keeps_broker_ok(2) accounts.keeps_declare_exchange]
  keeps_playable [OF keeps_broker_ok(3) accounts.keeps_declare_queue]

lemma keeps_playable_reset: "keeps (playable cfg) (reset (default_user cfg) (default_password cfg))"
  by (simp add: keeps_def playable_def reset_state init_state_ok) (simp add: init_state_def)

lemma keeps_playable_world:
  "keeps (\<lambda>w. playable cfg (the_broker w)) (publish_message so e hdrs data is_binary)"
  "keeps (\<lambda>w. playable cfg (the_broker w)) (publish_message_in_queue q hdrs data is_binary)"
  using keeps_publish [OF keeps_playable_ops(3,1)] keeps_publish_in_queue [OF keeps_playable_ops(3,2)]
  unfolding keeps_def by blast+

interpretation http_playable: http_connection_invariant "\<lambda>s. playable cfg (the_broker (server s))" h cfg for cfg h
  by unfold_locales (rule server_only keeps_playable_world keeps_on_broker keeps_playable_ops keeps_playable_reset)+

text \<open>What a connection has to do with the mock: the request being read, and the mock's state.\<close>

definition plays_events :: "settings \<Rightarrow> event list \<Rightarrow> 'p http \<Rightarrow> 'p http \<Rightarrow> bool" where
  "plays_events cfg evs s s' \<longleftrightarrow>
     mock_of (the_broker (server s')) = answers (default_user cfg) (default_password cfg) (tell (request_fields s) evs)
       (mock_of (the_broker (server s)))
     \<and> request_fields s' = foldl follow (request_fields s) evs"

lemma plays_no_events: "server s' = server s \<Longrightarrow> request_fields s' = request_fields s \<Longrightarrow> plays_events cfg [] s s'"
  by (simp add: plays_events_def)

lemma plays_event:
  assumes "playable cfg (the_broker (server s))"
  shows "plays_events cfg [ev] s (snd (on_event h cfg ev s))"
  using on_event_makes [of s cfg ev h] on_event_follows [of h cfg ev s] assms
  by (simp add: plays_events_def makes_def playable_def)

lemma plays_more: "plays_events cfg [ev] s s1 \<Longrightarrow> plays_events cfg evs s1 s2 \<Longrightarrow> plays_events cfg (ev # evs) s s2"
  by (simp add: plays_events_def)

lemma plays_through:
  "server s0 = server s \<Longrightarrow> request_fields s0 = request_fields s \<Longrightarrow> plays_events cfg evs s0 s' \<Longrightarrow> plays_events cfg evs s s'"
  by (simp add: plays_events_def)

lemma on_parser_silent:
  "server (snd (on_parser m s)) = server s" "request_fields (snd (on_parser m s)) = request_fields s"
  by (simp_all add: on_parser_def request_fields_def split: prod.split)

lemma event_loop_plays:
  assumes "event_loop h cfg s = Some (r, s')" and "playable cfg (the_broker (server s))"
  shows "\<exists>evs. events_given h cfg s = Some evs \<and> plays_events cfg evs s s'"
proof -
  let ?P = "\<lambda>h cfg s y. playable cfg (the_broker (server s)) \<longrightarrow>
    (\<exists>evs. events_given h cfg s = Some evs \<and> plays_events cfg evs s (snd y))"
  have "?P h cfg s (r, s')"
  proof (rule event_loop.raw_induct [where P = ?P, OF _ assms(1)], goal_cases)
    case (1 loop h cfg s y)
    note ih = 1(1) and step = 1(2)
    show ?case
    proof
      assume ok: "playable cfg (the_broker (server s))"
      obtain r1 s1 where n: "on_parser (h11_next_event h) s = (r1, s1)" by fastforce
      note silent = on_parser_silent [of "h11_next_event h" s, unfolded n snd_conv]
      show "\<exists>evs. events_given h cfg s = Some evs \<and> plays_events cfg evs s (snd y)"
      proof (cases r1)
        case (Inl e)
        with step n have "y = (Inl e, s1)" by (simp add: one_round_def bindS_def)
        with n Inl silent show ?thesis
          by (subst events_given.simps) (simp add: plays_no_events)
      next
        case (Inr ev)
        obtain r2 s2 where o: "on_event h cfg ev s1 = (r2, s2)" by fastforce
        have ev: "plays_events cfg [ev] s s2"
          using plays_event [of cfg s1 ev h] ok silent plays_through [OF silent] o by simp
        have ok2: "playable cfg (the_broker (server s2))"
          using keepsD [OF http_playable.keeps_on_event [of cfg h ev], of s1] ok silent o by simp
        have round: "one_round h cfg s = (case r2 of Inl e \<Rightarrow> Inl e | Inr _ \<Rightarrow> Inr ev, s2)"
          using n Inr o by (simp add: one_round_def bindS_def split: sum.split)
        show ?thesis
        proof (cases "(\<exists>e. r2 = Inl e) \<or> ev = NEED_DATA")
          case True
          then have "events_given h cfg s = Some [ev]"
            using n Inr o by (subst events_given.simps) (auto split: sum.split)
          moreover have "snd y = s2" using True step round by (auto split: sum.splits)
          ultimately show ?thesis using ev by simp
        next
          case False
          then have "loop h cfg s2 = Some y" using step round by (auto split: sum.splits)
          from ih [OF this] ok2 obtain evs where e: "events_given h cfg s2 = Some evs" and p: "plays_events cfg evs s2 (snd y)"
            by blast
          from False e have "events_given h cfg s = Some (ev # evs)"
            using n Inr o by (subst events_given.simps) (auto split: sum.split)
          with plays_more [OF ev p] show ?thesis by simp
        qed
      qed
    qed
  qed
  with assms(2) show ?thesis by simp
qed

lemma fail_request_silent:
  "server (snd (fail_request h e s)) = server s" "request_fields (snd (fail_request h e s)) = request_fields s"
proof -
  have "keeps (\<lambda>s. server s = w) (fail_request h e)" "keeps (\<lambda>s. request_fields s = x) (fail_request h e)" for w x
    unfolding fail_request_def
    by (intro keeps_http_rules answers.keeps_bodies own_request.keeps_bodies;
        simp add: keeps_def on_out_def request_fields_def split: prod.split)+
  then show "server (snd (fail_request h e s)) = server s" "request_fields (snd (fail_request h e s)) = request_fields s"
    by (simp_all add: keeps_def)
qed

lemma http_data_plays:
  assumes "http_data_received h cfg data s = Some (r, s')" and "playable cfg (the_broker (server s))"
  shows "\<exists>evs. events_received h cfg data s = Some evs \<and> plays_events cfg evs s s'"
proof -
  obtain r1 s1 where p: "on_parser (h11_receive_data h data) s = (r1, s1)" by fastforce
  note silent = on_parser_silent [of "h11_receive_data h data" s, unfolded p snd_conv]
  show ?thesis
  proof (cases r1)
    case (Inl e)
    with assms(1) p have "s' = snd (fail_request h e s1)" by (simp add: http_data_received_def prod_eq_iff)
    with Inl p silent show ?thesis
      by (simp add: events_received_def plays_no_events fail_request_silent)
  next
    case (Inr u)
    have run: "http_data_received h cfg data s = (case event_loop h cfg s1 of None \<Rightarrow> None
        | Some (Inr x, s') \<Rightarrow> Some (Inr x, s') | Some (Inl e, s') \<Rightarrow> Some (fail_request h e s'))"
      using p Inr by (simp add: http_data_received_def)
    with assms(1) obtain r2 s2 where l: "event_loop h cfg s1 = Some (r2, s2)"
      by (cases "event_loop h cfg s1") auto
    have s': "s' = s2 \<or> (\<exists>e. s' = snd (fail_request h e s2))"
      using run assms(1) l by (cases r2) (auto simp: prod_eq_iff)
    from event_loop_plays [OF l] assms(2) silent obtain evs where "events_given h cfg s1 = Some evs"
      and "plays_events cfg evs s1 s2" by auto
    with Inr p s' plays_through [OF silent] show ?thesis
      by (auto simp: events_received_def plays_events_def fail_request_silent)
  qed
qed

end
