(* ===== verification/Service.thy ===== *)
theory Service
  imports Http_Requests
begin

text \<open>
  \<open>service/__main__.py\<close>, and the whole service in the hands of asyncio: AMQP and HTTP connections that
  come, send, wait and go over one shared state. What happens to the service is a sequence of labelled
  steps; each of them is a sequence of requests to the mock broker, of the kinds its label allows.
\<close>

section \<open>Settings of the environment\<close>

type_synonym environ = "pystr \<Rightarrow> pystr option"

definition environ_get :: "environ \<Rightarrow> string \<Rightarrow> pyval \<Rightarrow> pyval" where
  \<comment> \<open>\<open>os.environ.get(key, default)\<close>\<close>
  "environ_get env key value = (case env (lit key) of None \<Rightarrow> value | Some s \<Rightarrow> PStr s)"

definition HTTP_PORT :: "environ \<Rightarrow> pyval" where
  "HTTP_PORT env = environ_get env ''HTTP_PORT'' (PInt 8080)"

definition DEFAULT_USER :: "environ \<Rightarrow> pystr" where
  "DEFAULT_USER env = (case env (lit ''DEFAULT_USER'') of None \<Rightarrow> lit ''guest'' | Some s \<Rightarrow> s)"

definition DEFAULT_PASSWORD :: "environ \<Rightarrow> pystr" where
  "DEFAULT_PASSWORD env = (case env (lit ''DEFAULT_PASSWORD'') of None \<Rightarrow> lit ''guest'' | Some s \<Rightarrow> s)"

section \<open>Starting and stopping\<close>

text \<open>
  The event loop of asyncio is to \<open>_main\<close> the sequence of the calls that are made on it, each with an
  outcome; \<open>Interrupted\<close> is a KeyboardInterrupt. A server is known by the call that made it.
\<close>

datatype factory = Tracker_Protocol | HTTP_Protocol

datatype loop_call =
    Set_Exception_Handler
  | Create_Server factory pystr pyval
  | Run_Forever
  | Close factory
  | Wait_Closed factory
  | Close_Loop

datatype outcome = Returned | Interrupted | Raised

record loop =
  loop_calls :: "loop_call list"
  outcomes :: "nat \<Rightarrow> outcome"

definition call_loop :: "loop_call \<Rightarrow> loop \<Rightarrow> outcome \<times> loop" where
  "call_loop c l = (outcomes l (length (loop_calls l)), l\<lparr>loop_calls := loop_calls l @ [c]\<rparr>)"

fun call_all :: "loop_call list \<Rightarrow> loop \<Rightarrow> outcome \<times> loop" where
  "call_all [] l = (Returned, l)"
| "call_all (c # cs) l =
     (case call_loop c l of
        (Returned, l') \<Rightarrow> call_all cs l'
      | (other, l') \<Rightarrow> (other, l'))"

definition main_start :: "environ \<Rightarrow> loop_call list" where
  "main_start env =
     [Set_Exception_Handler,
      Create_Server Tracker_Protocol (lit ''0.0.0.0'') (PInt 5672),
      Create_Server HTTP_Protocol (lit ''0.0.0.0'') (HTTP_PORT env)]"

definition main_stop :: "loop_call list" where
  "main_stop =
     [Close Tracker_Protocol, Close HTTP_Protocol, Wait_Closed Tracker_Protocol, Wait_Closed HTTP_Protocol,
      Close_Loop]"

definition main :: "environ \<Rightarrow> loop \<Rightarrow> outcome \<times> loop" where
  "main env l =
     (case call_all (main_start env) l of
        (Returned, l1) \<Rightarrow>
          (case call_loop Run_Forever l1 of
             (Raised, l2) \<Rightarrow> (Raised, l2)
           | (_, l2) \<Rightarrow> call_all main_stop l2)
      | (other, l1) \<Rightarrow> (other, l1))"

text \<open>An interrupt ends the service in good order; any other exception leaves its ports to the process.\<close>

lemma call_all_returned:
  "\<forall>i<length cs. outcomes l (length (loop_calls l) + i) = Returned \<Longrightarrow>
     call_all cs l = (Returned, l\<lparr>loop_calls := loop_calls l @ cs\<rparr>)"
proof (induction cs arbitrary: l)
  case Nil
  then show ?case by simp
next
  case (Cons c cs)
  then have "outcomes l (length (loop_calls l)) = Returned"
    and "\<forall>i<length cs. outcomes l (Suc (length (loop_calls l)) + i) = Returned"
    by (force, metis Suc_less_eq add_Suc_right add_Suc_shift length_Cons)
  with Cons.IH [of "l\<lparr>loop_calls := loop_calls l @ [c]\<rparr>"] show ?case by (simp add: call_loop_def)
qed

lemma main_runs:
  assumes "loop_calls l = []" and "\<forall>i. i \<noteq> 3 \<longrightarrow> outcomes l i = Returned"
  shows "main env l =
    (if outcomes l 3 = Raised then (Raised, l\<lparr>loop_calls := main_start env @ [Run_Forever]\<rparr>)
     else (Returned, l\<lparr>loop_calls := main_start env @ [Run_Forever] @ main_stop\<rparr>))"
proof -
  have start: "call_all (main_start env) l = (Returned, l\<lparr>loop_calls := main_start env\<rparr>)"
    using call_all_returned [of "main_start env" l] assms by (simp add: main_start_def)
  let ?l = "l\<lparr>loop_calls := main_start env @ [Run_Forever]\<rparr>"
  have run: "call_loop Run_Forever (l\<lparr>loop_calls := main_start env\<rparr>) = (outcomes l 3, ?l)"
    by (simp add: call_loop_def main_start_def numeral_3_eq_3)
  have "call_all main_stop ?l = (Returned, l\<lparr>loop_calls := main_start env @ [Run_Forever] @ main_stop\<rparr>)"
    using call_all_returned [of main_stop ?l] assms(2) by (simp add: main_start_def)
  with start run show ?thesis by (cases "outcomes l 3") (simp_all add: main_def)
qed

text \<open>
  \<open>_exception_handler\<close>: what it prints of an exception, with the lines of \<open>traceback.format_exception\<close> as
  a parameter. asyncio does not always give it an exception.
\<close>

definition exception_handler :: "(py_error \<Rightarrow> pystr list) \<Rightarrow> py_error option \<Rightarrow> (pystr, unit) eff" where
  "exception_handler format_exception exception =
     (case exception of
        None \<Rightarrow> raiseS KeyError
      | Some e \<Rightarrow> modifyS (\<lambda>printed. printed @ concat (format_exception e)))"

text \<open>\<open>connection_lost\<close> of an AMQP connection prints too, the list of lines as it is, and changes nothing.\<close>

definition connection_lost :: "(py_error \<Rightarrow> pystr list) \<Rightarrow> py_error option \<Rightarrow> (pystr list list, unit) eff" where
  "connection_lost format_exception exception =
     (case exception of
        None \<Rightarrow> returnS ()
      | Some e \<Rightarrow> modifyS (\<lambda>printed. printed @ [format_exception e]))"

section \<open>The running service\<close>

text \<open>
  The shared world, the AMQP protocol objects there have been, and the HTTP connections. The \<open>server\<close>
  of an HTTP connection is the shared world at the moment it runs.
\<close>

record 'p service =
  shared :: world
  amqp_objects :: "nat list"
  http_objects :: "nat \<Rightarrow> 'p http option"

record 'p environment =
  parser :: "'p h11"
  fresh_parser :: 'p
  config :: settings
  clock :: "nat \<Rightarrow> nat \<Rightarrow> bytes"

definition settings_from :: "environ \<Rightarrow> (pystr list \<Rightarrow> pystr list) \<Rightarrow> (int set \<Rightarrow> int list) \<Rightarrow> settings" where
  "settings_from env so to =
     \<lparr>set_order = so, tag_order = to, default_user = DEFAULT_USER env, default_password = DEFAULT_PASSWORD env\<rparr>"

definition service_start :: "settings \<Rightarrow> (nat \<Rightarrow> int) \<Rightarrow> 'p service" where
  \<comment> \<open>\<open>global_state = State()\<close>, before the first connection\<close>
  "service_start cfg ds =
     \<lparr>shared = initial_world (default_user cfg) (default_password cfg) ds, amqp_objects = [],
      http_objects = (\<lambda>_. None)\<rparr>"

datatype happening =
    Amqp_Connects nat
  | Amqp_Sends nat bytes
  | Amqp_Leaves nat
  | Http_Connects nat
  | Http_Sends nat bytes
  | Http_Leaves nat
  | Task_Resumes nat nat
  | Task_Done nat nat

definition http_at :: "nat \<Rightarrow> 'p service \<Rightarrow> 'p http option" where
  "http_at i s = map_option (\<lambda>x. x\<lparr>server := shared s\<rparr>) (http_objects s i)"

definition put_http :: "nat \<Rightarrow> 'p http \<Rightarrow> 'p service \<Rightarrow> 'p service" where
  "put_http i x s = s\<lparr>shared := server x, http_objects := (http_objects s)(i \<mapsto> x)\<rparr>"

text \<open>asyncio closes a transport whose protocol raises, and the transport of a peer that is gone.\<close>

definition broken :: "nat \<Rightarrow> world \<Rightarrow> world" where
  "broken c w = w\<lparr>transports := (transports w)(c := (transports w c)\<lparr>is_closing := True\<rparr>)\<rparr>"

definition http_broken :: "'p http \<Rightarrow> 'p http" where
  "http_broken x = x\<lparr>out := (out x)\<lparr>is_closing := True\<rparr>\<rparr>"

definition amqp_data :: "(pystr list \<Rightarrow> pystr list) \<Rightarrow> nat \<Rightarrow> bytes \<Rightarrow> world \<Rightarrow> world" where
  "amqp_data so c data w =
     (case data_received so c data w of (Inl e, w') \<Rightarrow> broken c w' | (Inr _, w') \<Rightarrow> w')"

text \<open>
  A protocol object is made for one connection, gets data while its transport is up, and never comes
  back. A step that has no end does not happen: the loop of the service is stuck in it.
\<close>

inductive service_step :: "'p environment \<Rightarrow> happening \<Rightarrow> 'p service \<Rightarrow> 'p service \<Rightarrow> bool" for env where
  Amqp_Accept: "c \<notin> set (amqp_objects s) \<Longrightarrow>
     service_step env (Amqp_Connects c) s
       (s\<lparr>shared := connection_made c (shared s), amqp_objects := c # amqp_objects s\<rparr>)"
| Amqp_Data: "c \<in> set (amqp_objects s) \<Longrightarrow> \<not> is_closing (transports (shared s) c) \<Longrightarrow>
     service_step env (Amqp_Sends c data) s (s\<lparr>shared := amqp_data (set_order (config env)) c data (shared s)\<rparr>)"
| Amqp_Gone: "c \<in> set (amqp_objects s) \<Longrightarrow>
     service_step env (Amqp_Leaves c) s (s\<lparr>shared := broken c (shared s)\<rparr>)"
| Http_Accept: "http_objects s i = None \<Longrightarrow>
     service_step env (Http_Connects i) s (put_http i (new_http (fresh_parser env) (clock env i) (shared s)) s)"
| Http_Data: "http_at i s = Some x \<Longrightarrow> \<not> is_closing (out x) \<Longrightarrow>
     http_data_received (parser env) (config env) data x = Some (r, x') \<Longrightarrow>
     service_step env (Http_Sends i data) s
       (put_http i (case r of Inl e \<Rightarrow> http_broken x' | Inr _ \<Rightarrow> x') s)"
| Http_Gone: "http_at i s = Some x \<Longrightarrow>
     service_step env (Http_Leaves i) s (put_http i (http_broken x) s)"
| Resumed: "http_at i s = Some x \<Longrightarrow> j < length (futures x) \<Longrightarrow> futures x ! j = Waiting y n \<Longrightarrow>
     service_step env (Task_Resumes i j) s (put_http i (snd (resume_task j x)) s)"
| Called_Back: "http_at i s = Some x \<Longrightarrow> j < length (futures x) \<Longrightarrow> futures x ! j = Finished r \<Longrightarrow>
     service_step env (Task_Done i j) s (put_http i (snd (call_back (parser env) j r x)) s)"

inductive_cases service_stepE: "service_step env hp s s'"

inductive service_run :: "'p environment \<Rightarrow> 'p service \<Rightarrow> happening list \<Rightarrow> 'p service \<Rightarrow> bool" for env s where
  Idle: "service_run env s [] s"
| Next: "service_run env s hps s1 \<Longrightarrow> service_step env hp s1 s2 \<Longrightarrow> service_run env s (hps @ [hp]) s2"

section \<open>Every protocol object is new\<close>

text \<open>A consumer belongs to a protocol object there has been, so a new connection takes over nobody's.\<close>

definition owned :: "nat list \<Rightarrow> broker \<Rightarrow> bool" where
  "owned cs b \<longleftrightarrow> (\<forall>q xs. consumer_list b q = Some xs \<longrightarrow> (\<forall>x\<in>set xs. protocol (snd x) \<in> set cs))"

lemma owned_fresh: "owned cs (the_broker w) \<Longrightarrow> c \<notin> set cs \<Longrightarrow> fresh c w"
  by (force simp: owned_def fresh_def)

lemma owned_update:
  assumes "owned cs b" and "c \<in> set cs"
  shows "owned cs (snd (register_consumer c tg q ch b))"
proof -
  have "protocol (snd x) \<in> set cs"
    if "x \<in> set (AList.update tg \<lparr>protocol = c, consumer_channel = ch\<rparr> xs)" "\<forall>x\<in>set xs. protocol (snd x) \<in> set cs" for x xs
    using that assms(2) by (induction xs) (auto split: if_splits)
  with assms(1) show ?thesis by (fastforce simp: owned_def consumer_list_view split: if_splits)
qed

lemma keeps_owned:
  "keeps (owned cs) (declare_exchange n ty)" "keeps (owned cs) (declare_queue q)"
  "keeps (owned cs) (delete_messages_of_queue q)" "keeps (owned cs) (delete_messages_of_exchange e)"
  "keeps (owned cs) (reset u p)" "keeps (owned cs) (append_to_exchange m e)" "keeps (owned cs) (append_to_queue m q)"
  "keeps (owned cs) (check_credentials u p)" "keeps (owned cs) (bind_queue q e)"
  "keeps (owned cs) (message_ack t)" "keeps (owned cs) (message_nack t rq)"
  by (auto simp: keeps_def owned_def consumer_list_view delete_views reset_state init_state_def split: if_splits)
    (simp_all add: consumer_list_def)

lemma set_fold_delete: "set (fold AList.delete ks xs) \<subseteq> set xs"
proof (induction ks arbitrary: xs)
  case (Cons k ks)
  then have "set (fold AList.delete (k # ks) xs) \<subseteq> set (AList.delete k xs)" by simp
  also have "\<dots> \<subseteq> set xs" by (auto simp: AList.delete_eq)
  finally show ?case .
qed simp

lemma keeps_owned_remove: "keeps (owned cs) (remove_consumers q dead)"
  using set_fold_delete [of dead] by (fastforce simp: keeps_def owned_def remove_consumers_view split: if_splits)

lemma keeps_owned_world:
  "keeps (\<lambda>w. owned cs (the_broker w)) (publish_message so e hdrs data is_binary)"
  "keeps (\<lambda>w. owned cs (the_broker w)) (publish_message_in_queue q hdrs data is_binary)"
  using keeps_publish [OF keeps_owned_remove keeps_owned(6)] keeps_publish_in_queue [OF keeps_owned_remove keeps_owned(7)]
  unfolding keeps_def by blast+

interpretation owners: connection_invariant "\<lambda>w. me \<in> set cs \<and> owned cs (the_broker w)" so me
  by unfold_locales
    (simp_all add: world_simps owned_update keepsD [OF keeps_owned(1)] keepsD [OF keeps_owned(2)]
      keepsD [OF keeps_owned(8)] keepsD [OF keeps_owned(9)] keepsD [OF keeps_owned(10)] keepsD [OF keeps_owned(11)]
      keepsD [OF keeps_store_message [OF keeps_owned(6,7)]])

interpretation http_owners: http_connection_invariant "\<lambda>x. owned cs (the_broker (server x))" h cfg
  by unfold_locales (rule server_only keeps_owned_world keeps_on_broker keeps_owned)+

section \<open>The service and the mock broker\<close>

text \<open>What a step of the service may ask of the mock broker.\<close>

fun may_ask :: "happening \<Rightarrow> request \<Rightarrow> bool" where
  "may_ask (Amqp_Sends _ _) = amqp_request"
| "may_ask (Http_Sends _ _) = http_request"
| "may_ask _ = (\<lambda>_. False)"

interpretation http_playing: http_connection_invariant
  "\<lambda>x. plays so (default_user cfg) (default_password cfg) http_request m (the_broker (server x))" h cfg
  for so m h cfg
  by unfold_locales
    (rule server_only keeps_plays_world keeps_on_broker keeps_plays_http keeps_plays_reset, assumption?)+

lemma http_at_server: "http_at i s = Some x \<Longrightarrow> server x = shared s"
  by (auto simp: http_at_def)

lemma put_http_simps [simp]:
  "shared (put_http i x s) = server x" "amqp_objects (put_http i x s) = amqp_objects s"
  "http_objects (put_http i x s) = (http_objects s)(i \<mapsto> x)"
  by (simp_all add: put_http_def)

lemma http_broken_server [simp]: "server (http_broken x) = server x"
  by (simp add: http_broken_def)

lemma server_of_case [simp]: "server (case r of Inl e \<Rightarrow> http_broken x | Inr u \<Rightarrow> x) = server x"
  by (simp split: sum.split)

lemma amqp_data_broker: "the_broker (amqp_data so c data w) = the_broker (snd (data_received so c data w))"
  by (simp add: amqp_data_def broken_def split: prod.split sum.split)

lemma call_back_server: "server (snd (call_back h j r x)) = server x"
proof -
  have "keeps (\<lambda>s. server s = w) (call_back h j r)" for w
    unfolding call_back_def by (intro keeps_http_rules answers.keeps_on_get_done) (simp add: keeps_def)
  then show ?thesis by (simp add: keeps_def)
qed

lemma resume_task_server: "server (snd (resume_task j x)) = server x"
  by (simp add: resume_task_def)

text \<open>
  Whatever happens on an HTTP connection, its data, its waits and their callbacks, with any parser, the
  server behind it takes no steps but its own, and the AMQP protocol objects stay as they are.
\<close>

lemma http_acts_as_clients:
  assumes "reachable (set_order cfg) (default_user cfg) (default_password cfg) ds (server x)"
  shows "(http_data_received h cfg data x = Some (r, x') \<longrightarrow>
      reachable (set_order cfg) (default_user cfg) (default_password cfg) ds (server x')
        \<and> trackers (server x') = trackers (server x))
    \<and> server (snd (resume_task j x)) = server x \<and> server (snd (call_back h j v x)) = server x"
  using steps.http_data_received_keeps [of h cfg data x "(r, x')" ds] assms
    amqp_side.http_data_received_keeps [of h cfg data x "(r, x')" "trackers (server x)"]
  by (simp add: resume_task_server call_back_server)

text \<open>The shared world of a service is reachable as a server, and its consumers are its connections'.\<close>

definition service_ok :: "settings \<Rightarrow> (nat \<Rightarrow> int) \<Rightarrow> 'p service \<Rightarrow> bool" where
  "service_ok cfg ds s \<longleftrightarrow>
     reachable (set_order cfg) (default_user cfg) (default_password cfg) ds (shared s)
     \<and> owned (amqp_objects s) (the_broker (shared s))"

lemma service_start_ok: "service_ok cfg ds (service_start cfg ds)"
  by (simp add: service_ok_def service_start_def Start)
    (simp add: owned_def consumer_list_def initial_world_def init_state_def)

lemma amqp_data_reachable:
  "reachable so u p ds w \<Longrightarrow> reachable so u p ds (amqp_data so c data w)"
proof -
  assume "reachable so u p ds w"
  moreover obtain r w' where r: "data_received so c data w = (r, w')" by fastforce
  ultimately have "reachable so u p ds w'" by (blast intro: reachable.Step server_step.Receive)
  with r show ?thesis
    by (cases r) (auto simp: amqp_data_def broken_def intro: reachable.Step server_step.Lost)
qed

lemma service_step_ok:
  assumes "service_step env hp s s'" and "service_ok (config env) ds s"
  shows "service_ok (config env) ds s'"
proof -
  let ?R = "reachable (set_order (config env)) (default_user (config env)) (default_password (config env)) ds"
  from assms(2) have R: "?R (shared s)" and o: "owned (amqp_objects s) (the_broker (shared s))"
    by (simp_all add: service_ok_def)
  from assms(1) show ?thesis
  proof cases
    case (Amqp_Accept c)
    from owned_fresh [OF o Amqp_Accept(3)] R have "?R (connection_made c (shared s))"
      by (blast intro: reachable.Step server_step.Connect)
    with o Amqp_Accept show ?thesis by (auto simp: service_ok_def connection_made_def owned_def)
  next
    case (Amqp_Data c data)
    with keepsD [OF owners.keeps_data_received [of c "amqp_objects s" _ data], of "shared s"] o
      amqp_data_reachable [OF R] show ?thesis by (simp add: service_ok_def amqp_data_broker)
  next
    case (Amqp_Gone c)
    with R o show ?thesis by (auto simp: service_ok_def broken_def intro: reachable.Step server_step.Lost)
  next
    case (Http_Accept i)
    with R o show ?thesis by (simp add: service_ok_def new_http_def)
  next
    case (Http_Data i x data r x')
    with http_at_server [OF Http_Data(3)] http_acts_as_clients [of "config env" ds x]
      http_owners.http_data_received_keeps [OF Http_Data(5), of "amqp_objects s"] R o
    show ?thesis by (simp add: service_ok_def)
  next
    case (Http_Gone i x)
    with http_at_server [OF Http_Gone(3)] R o show ?thesis by (simp add: service_ok_def)
  next
    case (Resumed i x j y n)
    with http_at_server [OF Resumed(3)] R o show ?thesis by (simp add: service_ok_def resume_task_server)
  next
    case (Called_Back i x j r)
    with http_at_server [OF Called_Back(3)] R o show ?thesis by (simp add: service_ok_def call_back_server)
  qed
qed

lemma service_run_ok:
  "service_run env s hps s' \<Longrightarrow> service_ok (config env) ds s \<Longrightarrow> service_ok (config env) ds s'"
  by (induction rule: service_run.induct) (auto intro: service_step_ok)

text \<open>A step plays the mock broker with requests of its kind, and so does a run, step by step.\<close>

abbreviation asked :: "settings \<Rightarrow> (request \<Rightarrow> bool) \<Rightarrow> mock \<Rightarrow> mock \<Rightarrow> bool" where
  "asked cfg \<equiv> asks (default_user cfg) (default_password cfg)"

lemma service_ok_playable:
  assumes "service_ok cfg ds s" and "\<forall>xs. mset (set_order cfg xs) = mset xs"
  shows "playable cfg (the_broker (shared s))"
  using reachable_plays [of "set_order cfg" "default_user cfg" "default_password cfg" ds "shared s"] assms by (simp add: service_ok_def playable_def plays_def)

lemma service_step_plays:
  assumes "service_step env hp s s'" and order: "\<forall>xs. mset (set_order (config env) xs) = mset xs"
    and "playable (config env) (the_broker (shared s))"
  shows "playable (config env) (the_broker (shared s'))
    \<and> asked (config env) (may_ask hp) (mock_of (the_broker (shared s))) (mock_of (the_broker (shared s')))"
proof -
  let ?P = "plays (set_order (config env)) (default_user (config env)) (default_password (config env)) (may_ask hp)
      (mock_of (the_broker (shared s)))"
  have s: "?P (the_broker (shared s))" using assms(3) by (simp add: plays_def playable_def)
  have "?P (the_broker (shared s'))"
    using assms(1)
  proof cases
    case (Amqp_Accept c)
    with s show ?thesis by (simp add: connection_made_def)
  next
    case (Amqp_Data c data)
    from s have "plays (set_order (config env)) (default_user (config env)) (default_password (config env)) amqp_request
      (mock_of (the_broker (shared s))) (the_broker (shared s))" by (simp add: Amqp_Data)
    from keepsD [OF playing.connected.keeps_data_received this, of c data] show ?thesis
      by (simp add: Amqp_Data amqp_data_broker)
  next
    case (Amqp_Gone c)
    with s show ?thesis by (simp add: broken_def)
  next
    case (Http_Accept i)
    with s show ?thesis by (simp add: new_http_def)
  next
    case (Http_Data i x data r x')
    with http_at_server [OF Http_Data(3)] s http_playing.http_data_received_keeps [OF Http_Data(5),
        of "set_order (config env)" "mock_of (the_broker (shared s))"]
    show ?thesis by simp
  next
    case (Http_Gone i x)
    with http_at_server [OF Http_Gone(3)] s show ?thesis by simp
  next
    case (Resumed i x j y n)
    with http_at_server [OF Resumed(3)] s show ?thesis by (simp add: resume_task_server)
  next
    case (Called_Back i x j r)
    with http_at_server [OF Called_Back(3)] s show ?thesis by (simp add: call_back_server)
  qed
  with order show ?thesis by (simp add: plays_def playable_def)
qed

lemma service_run_plays:
  assumes "service_run env s hps s'" and order: "\<forall>xs. mset (set_order (config env) xs) = mset xs"
    and "playable (config env) (the_broker (shared s))"
  shows "playable (config env) (the_broker (shared s'))
    \<and> (\<exists>rss. list_all2 (\<lambda>hp rs. list_all (may_ask hp) rs) hps rss
        \<and> mock_of (the_broker (shared s'))
          = answers (default_user (config env)) (default_password (config env)) (concat rss) (mock_of (the_broker (shared s))))"
  using assms(1)
proof (induction rule: service_run.induct)
  case Idle
  with assms(3) show ?case by (intro conjI exI [of _ "[]"]) simp_all
next
  case (Next hps s1 hp s2)
  from Next.IH obtain rss where s1: "playable (config env) (the_broker (shared s1))"
    and l: "list_all2 (\<lambda>hp rs. list_all (may_ask hp) rs) hps rss"
    and m: "mock_of (the_broker (shared s1))
      = answers (default_user (config env)) (default_password (config env)) (concat rss) (mock_of (the_broker (shared s)))" by blast
  from service_step_plays [OF Next.hyps(2) order s1] obtain rs where s2: "playable (config env) (the_broker (shared s2))"
    and rs: "list_all (may_ask hp) rs"
    and "mock_of (the_broker (shared s2))
      = answers (default_user (config env)) (default_password (config env)) rs (mock_of (the_broker (shared s1)))"
    by (auto simp: asks_def)
  with l m show ?case
    by (intro conjI exI [of _ "rss @ [rs]"]) (auto intro: list_all2_appendI)
qed

text \<open>What the mock broker knows is all that a wait looks at, and all that an inspection shows.\<close>

fun m_look :: "wait \<Rightarrow> mock \<Rightarrow> bool option result" where
  "m_look (Authentication u) m = bindE (utf8_decode False u) (\<lambda>name. Inr (m_tried m name))"
| "m_look (Acknowledged t) m = Inr (if t \<in> m_acked m then Some True else None)"
| "m_look (Not_Acknowledged t) m = Inr (if t \<in> m_nacked m then Some True else None)"
| "m_look (Requeued t) m = Inr (if t \<in> m_requeued m then Some True else None)"
| "m_look (Queue_Bound q e) m = Inr (if (e, q) \<in> c_bound (m_contract m) then Some True else None)"

definition m_messages :: "stored list option \<Rightarrow> stored list option result" where
  "m_messages log = (case log of None \<Rightarrow> Inr None | Some ms \<Rightarrow> bindE (base64encode_messages ms) (\<lambda>ms. Inr (Some ms)))"

definition m_queue :: "mock \<Rightarrow> pystr \<Rightarrow> stored list option" where
  "m_queue m = c_queue (m_contract m)"

definition m_exchange :: "mock \<Rightarrow> pystr \<Rightarrow> stored list option" where
  "m_exchange m = c_exchange (m_contract m)"

lemma mock_observed:
  "look x b = m_look x (mock_of b)"
  "get_messages_of_queue q b = m_messages (m_queue (mock_of b) q)"
  "get_messages_of_exchange e b = m_messages (m_exchange (mock_of b) e)"
proof -
  show "look x b = m_look x (mock_of b)"
    by (cases x) (simp_all add: mock_of_def contract_of_def wait_authentication_performed_on_def
        wait_message_acknowledged_def wait_message_not_acknowledged_def wait_message_requeued_def wait_queue_bound_def)
  show "get_messages_of_queue q b = m_messages (m_queue (mock_of b) q)"
    "get_messages_of_exchange e b = m_messages (m_exchange (mock_of b) e)"
    by (simp_all add: mock_of_def contract_of_def m_queue_def m_exchange_def m_messages_def get_messages_of_queue_def
        get_messages_of_exchange_def view_defs split: option.split)
qed

section \<open>What stays on record\<close>

text \<open>Nothing but a flush takes a verdict on a delivery back, and a flush comes over HTTP.\<close>

fun verdict_of :: "wait \<Rightarrow> mock \<Rightarrow> bool" where
  "verdict_of (Acknowledged t) m = (t \<in> m_acked m)"
| "verdict_of (Not_Acknowledged t) m = (t \<in> m_nacked m)"
| "verdict_of (Requeued t) m = (t \<in> m_requeued m)"
| "verdict_of _ m = False"

lemma verdict_answer: "r \<noteq> Start_Over \<Longrightarrow> verdict_of x m \<Longrightarrow> verdict_of x (answer user password r m)"
  by (cases x; cases r) (auto simp: on_contract_def)

lemma verdict_answers:
  "Start_Over \<notin> set rs \<Longrightarrow> verdict_of x m \<Longrightarrow> verdict_of x (answers user password rs m)"
  by (induction rs arbitrary: m) (auto simp: verdict_answer)

lemma verdict_look: "verdict_of x (mock_of b) \<Longrightarrow> look x b = Inr (Some True)"
  by (cases x) (simp_all add: mock_observed)

fun sent_over_http :: "happening \<Rightarrow> bool" where
  "sent_over_http (Http_Sends _ _) = True"
| "sent_over_http _ = False"

lemma no_flush: "may_ask hp r \<Longrightarrow> \<not> sent_over_http hp \<Longrightarrow> r \<noteq> Start_Over"
  by (cases hp; cases r) simp_all

lemma verdict_kept:
  assumes "service_run env s hps s'" and "\<forall>xs. mset (set_order (config env) xs) = mset xs"
    and "playable (config env) (the_broker (shared s))" and "\<forall>hp\<in>set hps. \<not> sent_over_http hp"
    and "verdict_of x (mock_of (the_broker (shared s)))"
  shows "verdict_of x (mock_of (the_broker (shared s')))"
proof -
  from service_run_plays [OF assms(1-3)] obtain rss
    where l: "list_all2 (\<lambda>hp rs. list_all (may_ask hp) rs) hps rss"
      and m: "mock_of (the_broker (shared s')) = answers (default_user (config env)) (default_password (config env))
        (concat rss) (mock_of (the_broker (shared s)))" by blast
  have "Start_Over \<notin> set (concat rss)"
    using l assms(4)
    by (induction rule: list_all2_induct) (auto simp: list_all_iff dest: no_flush)
  with m assms(5) verdict_answers show ?thesis by simp
qed

text \<open>Over AMQP, messages only come to a queue, behind those that are there.\<close>

lemma queue_answer:
  assumes "m_queue m q = Some ms" and "amqp_request r"
  shows "\<exists>more. m_queue (answer user password r m) q = Some (ms @ more)"
  using assms
  by (cases r) (auto simp: m_queue_def on_contract_def c_declare_exchange_def c_declare_queue_def c_bind_def c_store_def)

lemma queue_answers:
  "m_queue m q = Some ms \<Longrightarrow> list_all amqp_request rs \<Longrightarrow>
     \<exists>more. m_queue (answers user password rs m) q = Some (ms @ more)"
proof (induction rs arbitrary: m ms)
  case (Cons r rs)
  then obtain more where "m_queue (answer user password r m) q = Some (ms @ more)"
    using queue_answer [of m q ms r user password] by auto
  from Cons.IH [OF this] Cons.prems(2) show ?case by auto
qed simp

lemma no_purge: "may_ask hp r \<Longrightarrow> \<not> sent_over_http hp \<Longrightarrow> amqp_request r"
  by (cases hp) simp_all

lemma queue_kept:
  assumes "service_run env s hps s'" and "\<forall>xs. mset (set_order (config env) xs) = mset xs"
    and "playable (config env) (the_broker (shared s))" and "\<forall>hp\<in>set hps. \<not> sent_over_http hp"
    and "queue_log (the_broker (shared s)) q = Some ms"
  shows "\<exists>more. queue_log (the_broker (shared s')) q = Some (ms @ more)"
proof -
  have log: "m_queue (mock_of b) = queue_log b" for b by (simp add: m_queue_def mock_of_def contract_of_def)
  from service_run_plays [OF assms(1-3)] obtain rss
    where l: "list_all2 (\<lambda>hp rs. list_all (may_ask hp) rs) hps rss"
      and m: "mock_of (the_broker (shared s')) = answers (default_user (config env)) (default_password (config env))
        (concat rss) (mock_of (the_broker (shared s)))" by blast
  have "list_all amqp_request (concat rss)"
    using l assms(4)
    by (induction rule: list_all2_induct) (auto simp: list_all_iff intro: no_purge)
  from queue_answers [OF _ this, of "mock_of (the_broker (shared s))" q ms "default_user (config env)" "default_password (config env)"]
  show ?thesis by (simp add: assms(5) log flip: m)
qed

end
