(* ===== verification/Sessions.thy ===== *)
theory Sessions
  imports Mock_Broker Frame_Runs Handshake
begin

text \<open>
  The AMQP side of the mock broker: which requests the bytes of a connection make of it. An abstract
  session, the stage of the handshake and one talk per channel, hears the frames one after the other; it
  knows neither the state's dictionaries, nor consumers, nor replies. \<open>data_received\<close> refines it.
\<close>

section \<open>The session\<close>

text \<open>
  Where a channel is: closed or never used, open, or in the middle of a publication, with the exchange it
  is for, then with the size and the properties its header announced and the content so far.
\<close>

datatype talk =
    Unopened
  | Ready
  | Header_Due pystr
  | Body_Due pystr int pydict bytes

record session =
  stage :: connection_state
  talks :: "int \<Rightarrow> talk"

definition new_session :: session where
  "new_session = \<lparr>stage = WAITING_PROTOCOL_HEADER, talks = (\<lambda>_. Unopened)\<rparr>"

text \<open>What a method on an open channel asks for, by its arguments.\<close>

definition method_requests :: "frame \<Rightarrow> request list" where
  "method_requests f =
     (let str = (\<lambda>key. bindE (properties f) (\<lambda>d. get_str d key));
          tag = bindE (properties f) (\<lambda>d. get_int d ''delivery-tag'')
      in if is_method f EXCHANGE_DECLARE then
           asking (bindE (str ''exchange-name'') (\<lambda>e. bindE (str ''type'') (\<lambda>ty. Inr (Declare_Exchange e ty))))
         else if is_method f QUEUE_DECLARE then
           asking (bindE (str ''queue-name'') (\<lambda>q. Inr (Declare_Queue q)))
         else if is_method f QUEUE_BIND then
           asking (bindE (str ''queue-name'') (\<lambda>q. bindE (str ''exchange-name'') (\<lambda>e. Inr (Bind q e))))
         else if is_method f BASIC_ACK then asking (bindE tag (\<lambda>t. Inr (Acknowledge t)))
         else if is_method f BASIC_NACK then
           asking (bindE tag (\<lambda>t. bindE (bindE (properties f) (\<lambda>d. get_bool d ''requeue'')) (\<lambda>rq. Inr (Reject t rq))))
         else [])"

text \<open>
  A frame on a channel: the requests it makes, where it leaves the channel, and whether the connection
  goes on. A publication is one request, made with the body frame that completes it.
\<close>

fun converse :: "mock \<Rightarrow> frame \<Rightarrow> talk \<Rightarrow> request list \<times> talk \<times> bool" where
  "converse m f Unopened =
     (if \<not> is_method f CHANNEL_OPEN then ([], Unopened, True)
      else if channel_number f < 256 then ([], Ready, True)
      else ([], Unopened, False))"
| "converse m f Ready =
     (if is_method f CHANNEL_CLOSE then ([], Unopened, True)
      else if is_method f BASIC_PUBLISH then
        (case bindE (properties f) (\<lambda>d. get_str d ''exchange-name'') of
           Inl _ \<Rightarrow> ([], Ready, False)
         | Inr e \<Rightarrow> ([], Header_Due e, True))
      else (method_requests f, Ready, True))"
| "converse m f (Header_Due e) =
     (case f of
        HeaderFrame _ _ _ sz props \<Rightarrow> ([], Body_Due e sz props [], True)
      | _ \<Rightarrow> ([], if is_method f CHANNEL_CLOSE then Unopened else Header_Due e, True))"
| "converse m f (Body_Due e sz props c) =
     (case f of
        BodyFrame _ _ x \<Rightarrow>
          if int (length (c @ x)) = sz \<and> c_type (m_contract m) e \<noteq> None
          then ([Store e \<lparr>stored_headers = PDict props, stored_body = PBytes (c @ x)\<rparr>], Ready, True)
          else ([], Body_Due e sz props (c @ x), True)
      | _ \<Rightarrow> ([], if is_method f CHANNEL_CLOSE then Unopened else Body_Due e sz props c, True))"

definition hear :: "pystr \<Rightarrow> pystr \<Rightarrow> mock \<Rightarrow> session \<Rightarrow> frame \<Rightarrow> request list \<times> session \<times> bool" where
  "hear user password m s f =
     (case f of
        HeartBeat _ \<Rightarrow> ([], s, True)
      | _ \<Rightarrow>
          if channel_number f \<noteq> 0 then
            (case converse m f (talks s (channel_number f)) of
               (rs, t, go_on) \<Rightarrow> (rs, s\<lparr>talks := (talks s)(channel_number f := t)\<rparr>, go_on))
          else if is_method f CLOSE then ([], s, False)
          else
            case stage s of
              WAITING_START_OK \<Rightarrow>
                (case login f of
                   Inl _ \<Rightarrow> ([], s, False)
                 | Inr (u, p) \<Rightarrow>
                     ([Log_In u p], if u = user \<and> p = password then s\<lparr>stage := WAITING_TUNE_OK\<rparr> else s, False))
            | WAITING_TUNE_OK \<Rightarrow>
                if is_method f TUNE_OK then ([], s\<lparr>stage := WAITING_OPEN\<rparr>, True) else ([], s, False)
            | WAITING_OPEN \<Rightarrow>
                if is_method f OPEN then ([], s\<lparr>stage := OPENED\<rparr>, True) else ([], s, False)
            | _ \<Rightarrow> ([], s, True))"

text \<open>Some bytes: frame after frame, each answered by the mock before the next, and what is left unread.\<close>

function attend ::
  "pystr \<Rightarrow> pystr \<Rightarrow> mock \<Rightarrow> session \<Rightarrow> bytes \<Rightarrow> request list \<times> session \<times> bytes" where
  "attend user password m s bs =
     (case read_frame bs of
        Inr (Some f) \<Rightarrow>
          (case hear user password m s f of
             (rs, s', go_on) \<Rightarrow>
               if go_on then
                 (case attend user password (answers user password rs m) s' (drop (frame_size f) bs) of
                    (rs', s'', unread) \<Rightarrow> (rs @ rs', s'', unread))
               else (rs, s', drop (frame_size f) bs))
      | _ \<Rightarrow> ([], s, bs))"
  by pat_completeness auto
termination
  by (relation "measure (\<lambda>(_, _, _, _, bs). length bs)")
    (use read_frame_Some(2,3) in \<open>auto, fastforce\<close>)

declare attend.simps [simp del]

definition listen ::
  "pystr \<Rightarrow> pystr \<Rightarrow> mock \<Rightarrow> session \<Rightarrow> bytes \<Rightarrow> bytes \<Rightarrow> request list \<times> session \<times> bytes" where
  "listen user password m s unread data =
     (if stage s \<noteq> WAITING_PROTOCOL_HEADER then attend user password m s (unread @ data)
      else if length (unread @ data) < length PROTOCOL_HEADER then ([], s, unread @ data)
      else if unread @ data = PROTOCOL_HEADER then ([], s\<lparr>stage := WAITING_START_OK\<rparr>, [])
      else ([], s, []))"

section \<open>A tracker as a session\<close>

definition talk_of :: "channel option \<Rightarrow> talk" where
  "talk_of c =
     (case c of
        None \<Rightarrow> Unopened
      | Some ch \<Rightarrow>
          let e = (case ch_exchange ch of None \<Rightarrow> [] | Some e \<Rightarrow> e)
          in case ch_state ch of
               CH_WAITING_OPEN \<Rightarrow> Unopened
             | CH_OPENED \<Rightarrow> Ready
             | CH_WAITING_HEADER \<Rightarrow> Header_Due e
             | CH_WAITING_BODY \<Rightarrow>
                 (case ch_on_going ch of
                    None \<Rightarrow> Header_Due e
                  | Some g \<Rightarrow> Body_Due e (body_size (headers g)) (the_properties (headers g)) (msg_content g)))"

definition session_of :: "tracker \<Rightarrow> session" where
  "session_of t = \<lparr>stage = parser_state t, talks = (\<lambda>n. talk_of (map_of (channels t) n))\<rparr>"

lemma session_of_simps [simp]:
  "session_of (t\<lparr>buffer := x\<rparr>) = session_of t"
  "session_of (t\<lparr>channels := AList.update n ch (channels t)\<rparr>)
     = session_of t\<lparr>talks := (talks (session_of t))(n := talk_of (Some ch))\<rparr>"
  "session_of (t\<lparr>channels := AList.delete n (channels t)\<rparr>)
     = session_of t\<lparr>talks := (talks (session_of t))(n := Unopened)\<rparr>"
  "session_of (t\<lparr>parser_state := p\<rparr>) = session_of t\<lparr>stage := p\<rparr>"
  "stage (session_of t) = parser_state t" "session_of new_tracker = new_session"
  by (auto simp: session_of_def AList.update_conv' AList.delete_conv' talk_of_def new_tracker_def new_session_def)

text \<open>A computation that leaves the session in some state and has made some requests of the mock.\<close>

definition heard ::
  "pystr \<Rightarrow> pystr \<Rightarrow> nat \<Rightarrow> request list \<Rightarrow> session \<Rightarrow> world \<Rightarrow> (world, unit) eff \<Rightarrow> bool" where
  "heard user password me rs s w m \<longleftrightarrow>
     returns m (\<lambda>_ w'. mock_of (the_broker w') = answers user password rs (mock_of (the_broker w))
       \<and> session_of (trackers w' me) = s) w"

abbreviation (input) still :: "pystr \<Rightarrow> pystr \<Rightarrow> nat \<Rightarrow> request list \<Rightarrow> world \<Rightarrow> (world, unit) eff \<Rightarrow> bool" where
  "still user password me rs w \<equiv> heard user password me rs (session_of (trackers w me)) w"

section \<open>Methods on an open channel\<close>

lemma other_methods: "is_method f m \<Longrightarrow> m' \<noteq> m \<Longrightarrow> \<not> is_method f m'"
  by (auto simp: is_method_def)

lemmas heard_simps = heard_def method_requests_def asking_def Let_def returns_world returns_ops returns_sends

lemma hear_exchange_declare:
  assumes m: "is_method f EXCHANGE_DECLARE" and f: "frame_typed f" and n: "sendable_on n"
    and b: "broker_ok (the_broker w)" "users (the_broker w) = [(user, password)]"
  shows "still user password me (method_requests f) w (on_exchange_declare me n f)"
proof -
  obtain sz d where d: "f = MethodFrame (channel_number f) sz (id_of EXCHANGE_DECLARE) d"
    and t: "args_typed EXCHANGE_DECLARE d" using is_methodE [OF m f] .
  have p: "properties f = Inr d" by (subst d) simp
  obtain e ty where "get_str d ''exchange-name'' = Inr e" "get_str d ''type'' = Inr ty"
    using short_args [OF t] by (metis list.set_intros str_args.simps(2))
  with n m show ?thesis
    by (simp add: heard_simps on_exchange_declare_def returns_prop [OF d] p operations_answer(2) [OF b])
qed

lemma hear_queue_declare:
  assumes m: "is_method f QUEUE_DECLARE" and f: "frame_typed f" and n: "sendable_on n"
    and b: "broker_ok (the_broker w)" "users (the_broker w) = [(user, password)]"
  shows "still user password me (method_requests f) w (on_queue_declare me n f)"
proof -
  obtain sz d where d: "f = MethodFrame (channel_number f) sz (id_of QUEUE_DECLARE) d"
    and t: "args_typed QUEUE_DECLARE d" using is_methodE [OF m f] .
  have p: "properties f = Inr d" by (subst d) simp
  obtain q where "get_str d ''queue-name'' = Inr q" "short_str q"
    using short_args [OF t] by (metis list.set_intros str_args.simps(3))
  with n m other_methods [OF m] show ?thesis
    by (simp add: heard_simps on_queue_declare_def returns_prop [OF d] p operations_answer(3) [OF b])
qed

lemma hear_queue_bind:
  assumes m: "is_method f QUEUE_BIND" and f: "frame_typed f" and n: "sendable_on n"
    and b: "broker_ok (the_broker w)" "users (the_broker w) = [(user, password)]"
  shows "still user password me (method_requests f) w (on_queue_bind me n f)"
proof -
  obtain sz d where d: "f = MethodFrame (channel_number f) sz (id_of QUEUE_BIND) d"
    and t: "args_typed QUEUE_BIND d" using is_methodE [OF m f] .
  have p: "properties f = Inr d" by (subst d) simp
  obtain q e where "get_str d ''queue-name'' = Inr q" "get_str d ''exchange-name'' = Inr e"
    using short_args [OF t] by (metis list.set_intros str_args.simps(4))
  with n m other_methods [OF m] show ?thesis
    by (simp add: heard_simps on_queue_bind_def returns_prop [OF d] p operations_answer(4) [OF b])
qed

lemma hear_basic_ack:
  assumes m: "is_method f BASIC_ACK" and f: "frame_typed f"
    and b: "broker_ok (the_broker w)" "users (the_broker w) = [(user, password)]"
  shows "still user password me (method_requests f) w (on_basic_ack f)"
proof -
  obtain sz d where d: "f = MethodFrame (channel_number f) sz (id_of BASIC_ACK) d"
    and "args_typed BASIC_ACK d" using is_methodE [OF m f] .
  then obtain v where "get_int d ''delivery-tag'' = Inr v" by (auto simp: args_typed_def)
  moreover have "properties f = Inr d" by (subst d) simp
  ultimately show ?thesis
    using m other_methods [OF m]
    by (simp add: heard_simps on_basic_ack_def returns_prop [OF d] operations_answer(5) [OF b])
qed

lemma hear_basic_nack:
  assumes m: "is_method f BASIC_NACK" and f: "frame_typed f"
    and b: "broker_ok (the_broker w)" "users (the_broker w) = [(user, password)]"
  shows "still user password me (method_requests f) w (on_basic_nack f)"
proof -
  obtain sz d where d: "f = MethodFrame (channel_number f) sz (id_of BASIC_NACK) d"
    and "args_typed BASIC_NACK d" using is_methodE [OF m f] .
  then obtain v rq where "get_int d ''delivery-tag'' = Inr v" "get_bool d ''requeue'' = Inr rq"
    by (auto simp: args_typed_def)
  moreover have "properties f = Inr d" by (subst d) simp
  ultimately show ?thesis
    using m other_methods [OF m]
    by (simp add: heard_simps on_basic_nack_def returns_prop [OF d] operations_answer(6) [OF b])
qed

lemma hear_basic_consume:
  assumes m: "is_method f BASIC_CONSUME" and f: "frame_typed f" and n: "sendable_on n"
    and b: "broker_ok (the_broker w)" "users (the_broker w) = [(user, password)]"
  shows "still user password me (method_requests f) w (on_basic_consume me n f)"
proof -
  obtain sz d where d: "f = MethodFrame (channel_number f) sz (id_of BASIC_CONSUME) d"
    and t: "args_typed BASIC_CONSUME d" using is_methodE [OF m f] .
  obtain q c where "get_str d ''queue-name'' = Inr q" "get_str d ''consumer-tag'' = Inr c" "short_str c"
    using short_args [OF t] by (metis list.set_intros str_args.simps(6))
  with n m other_methods [OF m] show ?thesis
    by (simp add: heard_simps on_basic_consume_def returns_prop [OF d] operations_answer(13) [OF b])
qed

lemma hear_other:
  "\<forall>m\<in>{EXCHANGE_DECLARE, QUEUE_DECLARE, QUEUE_BIND, BASIC_ACK, BASIC_NACK}. \<not> is_method f m \<Longrightarrow>
     method_requests f = []"
  by (simp add: method_requests_def Let_def)

lemma hear_basic_cancel:
  assumes m: "is_method f BASIC_CANCEL" and f: "frame_typed f" and n: "sendable_on n"
  shows "still user password me (method_requests f) w (on_basic_cancel me n f)"
proof -
  obtain sz d where d: "f = MethodFrame (channel_number f) sz (id_of BASIC_CANCEL) d"
    and t: "args_typed BASIC_CANCEL d" using is_methodE [OF m f] .
  obtain c where "get_str d ''consumer-tag'' = Inr c" "short_str c"
    using short_args [OF t] by (metis list.set_intros str_args.simps(7))
  with n m other_methods [OF m] show ?thesis
    by (simp add: heard_simps on_basic_cancel_def returns_prop [OF d])
qed

lemma hear_basic_publish:
  assumes ch: "map_of (channels (trackers w me)) n = Some ch"
    and m: "is_method f BASIC_PUBLISH" and f: "frame_typed f"
  shows "\<exists>e. bindE (properties f) (\<lambda>d. get_str d ''exchange-name'') = Inr e
    \<and> heard user password me [] (session_of (trackers w me)\<lparr>talks := (talks (session_of (trackers w me)))(n := Header_Due e)\<rparr>)
        w (on_basic_publish me n f)"
proof -
  obtain sz d where d: "f = MethodFrame (channel_number f) sz (id_of BASIC_PUBLISH) d"
    and t: "args_typed BASIC_PUBLISH d" using is_methodE [OF m f] .
  have p: "properties f = Inr d" by (subst d) simp
  obtain e k where "get_str d ''exchange-name'' = Inr e" "get_str d ''routing-key'' = Inr k"
    using short_args [OF t] by (metis list.set_intros str_args.simps(5))
  with ch show ?thesis
    by (simp add: heard_def on_basic_publish_def returns_channel returns_prop [OF d] p AList.update_conv'
        session_of_def talk_of_def fun_eq_iff)
qed

abbreviation (input) spoken :: "nat \<Rightarrow> int \<Rightarrow> talk \<Rightarrow> world \<Rightarrow> session" where
  "spoken me n t w \<equiv> session_of (trackers w me)\<lparr>talks := (talks (session_of (trackers w me)))(n := t)\<rparr>"

lemma hear_opened:
  assumes ch: "map_of (channels (trackers w me)) n = Some ch" "ch_state ch = CH_OPENED"
    and f: "frame_typed f" and n: "sendable_on n" and c: "\<not> is_method f CHANNEL_CLOSE"
    and b: "broker_ok (the_broker w)" "users (the_broker w) = [(user, password)]"
  shows "\<exists>rs t. converse m f Ready = (rs, t, True)
    \<and> heard user password me rs (spoken me n t w) w (on_opened me n f)"
proof (cases "is_method f BASIC_PUBLISH")
  case True
  have "on_opened me n f = on_basic_publish me n f"
    using True other_methods [OF True] by (simp add: on_opened_def)
  with hear_basic_publish [OF ch(1) True f, of user password] True c show ?thesis by auto
next
  case False
  have "talks (session_of (trackers w me)) n = Ready"
    using ch by (simp add: session_of_def talk_of_def)
  then have same: "spoken me n Ready w = session_of (trackers w me)" by (simp add: fun_upd_idem)
  have "still user password me (method_requests f) w (on_opened me n f)"
  proof -
    consider m' where "m' \<in> {EXCHANGE_DECLARE, QUEUE_DECLARE, QUEUE_BIND, BASIC_QOS, BASIC_CONSUME, BASIC_ACK,
        BASIC_NACK, BASIC_CANCEL}" "is_method f m'"
      | "\<forall>m'\<in>{EXCHANGE_DECLARE, QUEUE_DECLARE, QUEUE_BIND, BASIC_QOS, BASIC_CONSUME, BASIC_ACK,
        BASIC_NACK, BASIC_CANCEL}. \<not> is_method f m'" by blast
    then show ?thesis
    proof cases
      case (1 m')
      note o = other_methods [OF 1(2)]
      have q: "still user password me (method_requests f) w (on_transport me (send_basic_qos_ok n))" if "m' = BASIC_QOS"
        using that hear_other [of f] o n by (simp add: heard_def returns_world returns_sends)
      from 1 o q hear_exchange_declare [OF _ f n b] hear_queue_declare [OF _ f n b] hear_queue_bind [OF _ f n b]
        hear_basic_consume [OF _ f n b] hear_basic_ack [OF _ f b] hear_basic_nack [OF _ f b] hear_basic_cancel [OF _ f n]
      show ?thesis by (auto simp: on_opened_def)
    next
      case 2
      with False hear_other [of f] show ?thesis by (simp add: on_opened_def heard_def)
    qed
  qed
  with same False c show ?thesis by auto
qed

lemma hear_body:
  assumes ch: "map_of (channels (trackers w me)) n = Some ch" and ok: "channel_ok n ch"
    and state: "ch_state ch = CH_WAITING_BODY" and c: "\<not> is_method f CHANNEL_CLOSE"
    and b: "broker_ok (the_broker w)" "users (the_broker w) = [(user, password)]"
    and order: "\<forall>xs. mset (set_order xs) = mset xs"
  shows "\<exists>rs t. converse (mock_of (the_broker w)) f (talk_of (Some ch)) = (rs, t, True)
    \<and> heard user password me rs (spoken me n t w) w (on_waiting_body set_order me n f)"
proof -
  from ok state obtain g e where g: "ch_on_going ch = Some g" "is_header (headers g)" and e: "ch_exchange ch = Some e"
    by (auto simp: channel_ok_def split: option.splits)
  have d: "properties (headers g) = Inr (the_properties (headers g))" using g(2) by (cases "headers g") simp_all
  have t: "talk_of (Some ch) = Body_Due e (body_size (headers g)) (the_properties (headers g)) (msg_content g)"
    by (simp add: talk_of_def state g e)
  show ?thesis
  proof (cases "is_body f")
    case False
    have "talks (session_of (trackers w me)) n = talk_of (Some ch)" using ch by (simp add: session_of_def)
    with False c show ?thesis
      by (cases f) (simp_all add: t on_waiting_body_def heard_def fun_upd_idem)
  next
    case True
    then obtain k sz x where f: "f = BodyFrame k sz x" by (cases f) simp_all
    have tc: "c_type (m_contract (mock_of b')) e = type_of b' e" for b' by (simp add: mock_of_def contract_of_def)
    have no_store: "on_contract (c_store e y) (mock_of (the_broker w)) = mock_of (the_broker w)"
      if "type_of (the_broker w) e = None" for y
      using that by (simp add: on_contract_def c_store_def mock_of_def contract_of_def)
    from g(2) order show ?thesis
      by (auto simp: t f on_waiting_body_def heard_def returns_channel ch the_key_def g e d Let_def returns_world
          store_message_returns b(1) AList.update_conv' add_content_def is_complete_def state tc
          operations_answer(7) [OF b] no_store talk_of_def session_of_def fun_eq_iff)
  qed
qed

section \<open>A frame\<close>

lemma treat_heard:
  assumes ch: "map_of (channels (trackers w me)) (channel_number f) = Some ch" and ok: "tracker_ok (trackers w me)"
    and f: "frame_typed f" and n: "sendable_on (channel_number f)"
    and b: "broker_ok (the_broker w)" "users (the_broker w) = [(user, password)]"
    and order: "\<forall>xs. mset (set_order xs) = mset xs"
  shows "\<exists>rs t. converse (mock_of (the_broker w)) f (talk_of (Some ch)) = (rs, t, True)
    \<and> heard user password me rs (spoken me (channel_number f) t w) w (treat_channel_frame set_order me f)"
proof -
  let ?n = "channel_number f"
  have ch_ok: "channel_ok ?n ch" by (rule this_channel_ok [OF ch ok])
  then have num: "ch_number ch = ?n" "?n < 256" using n by (simp_all add: channel_ok_def sendable_on_def)
  have same: "spoken me ?n (talk_of (Some ch)) w = session_of (trackers w me)"
    using ch by (simp add: session_of_def fun_upd_idem)
  let ?m = "if ch_state ch = CH_WAITING_OPEN then on_channel_open me ch ?n f
      else if is_method f CHANNEL_CLOSE then on_channel_close me ?n
      else if ch_state ch = CH_OPENED then on_opened me ?n f
      else if ch_state ch = CH_WAITING_HEADER then on_waiting_header set_order me ?n f
      else on_waiting_body set_order me ?n f"
  have "treat_channel_frame set_order me f w = ?m w"
    by (simp add: treat_channel_frame_def Let_def bindS_apply get_channel_def ch)
  then have by_handler: "heard user password me rs s w (treat_channel_frame set_order me f) = heard user password me rs s w ?m" for rs s
    by (simp only: heard_def returns_def)
  have "\<exists>rs t. converse (mock_of (the_broker w)) f (talk_of (Some ch)) = (rs, t, True)
    \<and> heard user password me rs (spoken me ?n t w) w ?m"
  proof (cases "ch_state ch = CH_WAITING_OPEN")
    case True
    have t: "talk_of (Some ch) = Unopened" using True by (simp add: talk_of_def)
    have "talk_of (Some (ch\<lparr>ch_state := CH_OPENED\<rparr>)) = Ready" by (simp add: talk_of_def)
    then show ?thesis
      using True same n num unfolding t
      by (auto simp: heard_def on_channel_open_def check_channel_open_def returns_world
          returns_sends returns_channel ch)
  next
    case False
    show ?thesis
    proof (cases "is_method f CHANNEL_CLOSE")
      case True
      then have c: "converse (mock_of (the_broker w)) f (talk_of (Some ch)) = ([], Unopened, True)"
        using False by (cases "ch_state ch"; cases f)
          (auto simp: talk_of_def is_method_def split: option.split)
      have "heard user password me [] (spoken me ?n Unopened w) w (on_channel_close me ?n)"
        using n by (simp add: heard_def on_channel_close_def returns_world returns_sends returns_del_channel)
      with c False True show ?thesis by auto
    next
      case c: False
      consider (opened) "ch_state ch = CH_OPENED" | (header) "ch_state ch = CH_WAITING_HEADER"
        | (body) "ch_state ch = CH_WAITING_BODY" using False by (cases "ch_state ch") simp_all
      then show ?thesis
      proof cases
        case opened
        then have "talk_of (Some ch) = Ready" by (simp add: talk_of_def)
        with hear_opened [OF ch opened f n c b] opened c show ?thesis by simp
      next
        case header
        then obtain e where e: "ch_exchange ch = Some e" using ch_ok by (auto simp: channel_ok_def)
        then have t: "talk_of (Some ch) = Header_Due e" using header by (simp add: talk_of_def)
        show ?thesis
        proof (cases f)
          case (HeaderFrame k sz cid size props)
          with header c ch e show ?thesis
            by (simp add: t on_waiting_header_def on_waiting_body_def heard_def returns_channel
                AList.update_conv' session_of_def talk_of_def new_message_def fun_eq_iff)
        qed (use header c same in \<open>auto simp: t on_waiting_header_def heard_def\<close>)
      next
        case body
        with hear_body [OF ch ch_ok body c b order] c show ?thesis by simp
      qed
    qed
  qed
  then show ?thesis by (simp only: by_handler)
qed

lemma upsert_silent:
  assumes "tracker_ok (trackers w me)"
  obtains ch w1 where "upsert_channel me n w = (Inr (), w1)"
    and "map_of (channels (trackers w1 me)) n = Some ch" and "tracker_ok (trackers w1 me)"
    and "the_broker w1 = the_broker w" and "session_of (trackers w1 me) = session_of (trackers w me)"
    and "talk_of (Some ch) = talks (session_of (trackers w me)) n"
proof -
  from upsert_channel_run [OF assms] obtain ch w1 where u: "upsert_channel me n w = (Inr (), w1)"
    and ch: "map_of (channels (trackers w1 me)) n = Some ch" and "tracker_ok (trackers w1 me)"
    and "the_broker w1 = the_broker w" .
  moreover from u have "session_of (trackers w1 me) = session_of (trackers w me)"
    by (auto simp: upsert_channel_def session_of_def AList.update_conv' talk_of_def fun_eq_iff split: if_splits)
  moreover from this ch have "talk_of (Some ch) = talks (session_of (trackers w me)) n"
    by (simp add: session_of_def fun_eq_iff) (metis ch)
  ultimately show thesis using that by blast
qed

lemma channel_frame_heard:
  assumes ok: "tracker_ok (trackers w me)" and f: "frame_typed f" and n: "0 < channel_number f"
    and b: "broker_ok (the_broker w)" "users (the_broker w) = [(user, password)]"
    and order: "\<forall>xs. mset (set_order xs) = mset xs"
    and run: "thenS (upsert_channel me (channel_number f)) (treat_channel_frame set_order me f) w = (r, w')"
    and c: "converse (mock_of (the_broker w)) f (talks (session_of (trackers w me)) (channel_number f)) = (rs, t, go_on)"
  shows "mock_of (the_broker w') = answers user password rs (mock_of (the_broker w))
    \<and> session_of (trackers w' me) = spoken me (channel_number f) t w \<and> (r = Inr () \<longleftrightarrow> go_on)"
proof -
  obtain ch w1 where u: "upsert_channel me (channel_number f) w = (Inr (), w1)"
    and ch: "map_of (channels (trackers w1 me)) (channel_number f) = Some ch"
    and ok1: "tracker_ok (trackers w1 me)" and b1: "the_broker w1 = the_broker w"
    and s1: "session_of (trackers w1 me) = session_of (trackers w me)"
    and t1: "talk_of (Some ch) = talks (session_of (trackers w me)) (channel_number f)"
    using upsert_silent [OF ok] .
  from run u have run1: "treat_channel_frame set_order me f w1 = (r, w')" by (simp add: bindS_def)
  show ?thesis
  proof (cases "channel_number f < 256")
    case True
    with n have "sendable_on (channel_number f)" by (simp add: sendable_on_def)
    from treat_heard [OF ch ok1 f this _ _ order, of user password] b c show ?thesis
      by (auto simp: b1 s1 t1 heard_def returns_def run1 split: sum.splits)
  next
    case False
    then have "ch_state ch = CH_WAITING_OPEN" using this_channel_ok [OF ch ok1] by (simp add: channel_ok_def)
    then have "talks (session_of (trackers w me)) (channel_number f) = Unopened"
      using t1 by (simp add: talk_of_def)
    moreover from this have "spoken me (channel_number f) Unopened w = session_of (trackers w me)"
      by (simp add: fun_upd_idem)
    ultimately show ?thesis
      using treat_channel_frame_refused [OF ch ok1, of set_order] run1 False c s1 b1
      by (auto simp: on_transport_def transport_close_def split: if_splits)
  qed
qed

lemma start_ok_unreadable:
  assumes "login f = Inl e"
  shows "\<exists>r. check_start_ok f w = (r, w) \<and> r \<noteq> Inr True"
  using assms
  by (auto simp: login_def check_start_ok_def bindS_def liftE_def split: sum.splits if_splits prod.splits)

lemma handshake_heard:
  assumes users: "users (the_broker w) = [(user, password)]"
    and b: "broker_ok (the_broker w)" and f: "\<nexists>k. f = HeartBeat k" "channel_number f = 0" "\<not> is_method f CLOSE"
    and run: "on_handshake me f w = (r, w')"
    and h: "hear user password (mock_of (the_broker w)) (session_of (trackers w me)) f = (rs, s, go_on)"
  shows "mock_of (the_broker w') = answers user password rs (mock_of (the_broker w))
    \<and> session_of (trackers w' me) = s \<and> (r = Inr True \<longleftrightarrow> go_on)"
proof (cases "parser_state (trackers w me) = WAITING_START_OK")
  case False
  have h': "(case parser_state (trackers w me) of
              WAITING_TUNE_OK \<Rightarrow> if is_method f TUNE_OK then ([], session_of (trackers w me)\<lparr>stage := WAITING_OPEN\<rparr>, True)
                else ([], session_of (trackers w me), False)
            | WAITING_OPEN \<Rightarrow> if is_method f OPEN then ([], session_of (trackers w me)\<lparr>stage := OPENED\<rparr>, True)
                else ([], session_of (trackers w me), False)
            | _ \<Rightarrow> ([], session_of (trackers w me), True)) = (rs, s, go_on)"
    using h f False unfolding hear_def
    by (cases f; cases "parser_state (trackers w me)") simp_all
  from run False h' show ?thesis
    by (cases "parser_state (trackers w me)")
      (auto simp: on_handshake_def on_tune_ok_def on_open_def check_open_def bindS_apply on_transport_apply
        transport_close_def connection_sends_ok set_parser_state_apply split: if_splits)
next
  case True
  from run True have run': "on_start_ok me f w = (r, w')" by (simp add: on_handshake_def)
  have h': "(case login f of Inl _ \<Rightarrow> ([], session_of (trackers w me), False)
      | Inr (u, p) \<Rightarrow> ([Log_In u p], if u = user \<and> p = password
          then session_of (trackers w me)\<lparr>stage := WAITING_TUNE_OK\<rparr> else session_of (trackers w me), False)) = (rs, s, go_on)"
    using h f True unfolding hear_def by (cases f) simp_all
  show ?thesis
  proof (cases "login f")
    case (Inl e)
    from start_ok_unreadable [OF this, of w] run' h' Inl show ?thesis
      by (auto simp: on_start_ok_def bindS_apply on_transport_apply transport_close_def split: sum.splits)
  next
    case (Inr up)
    then obtain u p where l: "login f = Inr (u, p)" by (cases up) simp
    have "fst (check_credentials u p (the_broker w)) = Inr (u = user \<and> p = password)"
      by (auto simp: check_credentials_def Let_def users)
    with run' h' l operations_answer(1) [OF b users, of u p] show ?thesis
      by (auto simp: on_start_ok_def check_start_ok_login [OF l] bindS_apply on_broker_apply on_transport_apply
          transport_close_def connection_sends_ok set_parser_state_apply split: if_splits)
  qed
qed

text \<open>A round of the loop is heard as the session hears the frame.\<close>

lemma on_frame_heard:
  assumes ok: "connection_ok me w" and users: "users (the_broker w) = [(user, password)]"
    and f: "frame_ok f" and order: "\<forall>xs. mset (set_order xs) = mset xs"
    and run: "on_frame set_order me f w = (r, w')"
    and h: "hear user password (mock_of (the_broker w)) (session_of (trackers w me)) f = (rs, s, go_on)"
  shows "mock_of (the_broker w') = answers user password rs (mock_of (the_broker w))
    \<and> session_of (trackers w' me) = s \<and> (r = Inr True \<longleftrightarrow> go_on)"
proof (cases "\<exists>k. f = HeartBeat k")
  case True
  with run h show ?thesis
    by (auto simp: on_frame_def hear_def bindS_apply on_transport_apply connection_sends_ok)
next
  case False
  have b: "broker_ok (the_broker w)" and t: "tracker_ok (trackers w me)" using ok by (simp_all add: connection_ok_def)
  note run' = run [unfolded on_frame_cases [OF False]]
  consider (channel) "channel_number f \<noteq> 0" | (close) "channel_number f = 0" "is_method f CLOSE"
    | (handshake) "channel_number f = 0" "\<not> is_method f CLOSE" by blast
  then show ?thesis
  proof cases
    case channel
    with False f have n: "0 < channel_number f" and ty: "frame_typed f" by (cases f; auto simp: frame_ok_def)+
    from run' channel obtain r0 where
      r0: "thenS (upsert_channel me (channel_number f)) (treat_channel_frame set_order me f) w = (r0, w')"
      and r: "r = Inr True \<and> r0 = Inr () \<or> (\<exists>e. r = Inl e \<and> r0 = Inl e)"
      by (auto dest: then_continue)
    obtain rs' t' go' where c: "converse (mock_of (the_broker w)) f (talks (session_of (trackers w me)) (channel_number f)) = (rs', t', go')"
      by (rule prod_cases3)
    then have "hear user password (mock_of (the_broker w)) (session_of (trackers w me)) f = (rs', spoken me (channel_number f) t' w, go')"
      using channel False unfolding hear_def by (cases f) simp_all
    with h have "rs = rs'" "s = spoken me (channel_number f) t' w" "go_on = go'" by simp_all
    with channel_frame_heard [OF t ty n b users order r0 c] r show ?thesis by blast
  next
    case close
    with False have "(rs, s, go_on) = ([], session_of (trackers w me), False)"
      using h unfolding hear_def by (cases f) auto
    with run' close show ?thesis
      by (auto simp: bindS_apply on_transport_apply connection_sends_ok transport_close_def)
  next
    case handshake
    with run' have "on_handshake me f w = (r, w')" by simp
    from handshake_heard [OF users b False handshake this h] show ?thesis .
  qed
qed

section \<open>A connection\<close>

lemma attend_step:
  "read_frame bs = Inr (Some f) \<Longrightarrow> hear user password m s f = (rs, s', go_on) \<Longrightarrow>
     attend user password m s bs =
       (if go_on then
          (case attend user password (answers user password rs m) s' (drop (frame_size f) bs) of
             (rs', s'', unread) \<Rightarrow> (rs @ rs', s'', unread))
        else (rs, s', drop (frame_size f) bs))"
  by (subst attend.simps) simp

lemma attend_end: "(\<nexists>f. read_frame bs = Inr (Some f)) \<Longrightarrow> attend user password m s bs = ([], s, bs)"
  by (subst attend.simps) (auto split: sum.split option.split)

lemma attend_nothing: "attend user password m s [] = ([], s, [])"
  by (rule attend_end) (simp add: read_frame_alt frame_head_def unpack_BHL_def)

lemma attend_frame:
  assumes "reads_as b f" and "hear user password m s f = (rs, s', True)"
  shows "attend user password m s (b @ x) =
    (case attend user password (answers user password rs m) s' x of (rs', s'', unread) \<Rightarrow> (rs @ rs', s'', unread))"
  using attend_step [OF reads_as_append [OF assms(1)] assms(2), of x] assms(1) by (simp add: reads_as_def)

lemma serve_heard:
  assumes ok: "connection_ok me w" and users: "users (the_broker w) = [(user, password)]"
    and order: "\<forall>xs. mset (set_order xs) = mset xs"
    and "serve set_order me (holding me bs w) = (r, w')"
    and "attend user password (mock_of (the_broker w)) (session_of (trackers w me)) bs = (rs, s, unread)"
  shows "mock_of (the_broker w') = answers user password rs (mock_of (the_broker w))
    \<and> session_of (trackers w' me) = s \<and> buffer (trackers w' me) = unread"
  using assms(1,2,4,5)
proof (induction bs arbitrary: w rs rule: frames_of.induct)
  case (1 bs)
  have s: "session_of (trackers (holding me x v) me) = session_of (trackers v me)" for x v
    by (simp add: holding_def change_def)
  show ?case
  proof (cases "\<exists>f. read_frame bs = Inr (Some f)")
    case False
    with "1.prems"(3,4) show ?thesis
      by (auto simp: attend_end s serve_step [of set_order me bs] split: sum.splits option.splits)
  next
    case True
    then obtain f where f: "read_frame bs = Inr (Some f)" by blast
    obtain r0 w0 where o: "on_frame set_order me f w = (r0, w0)" by fastforce
    obtain rs0 s0 go_on where h: "hear user password (mock_of (the_broker w)) (session_of (trackers w me)) f = (rs0, s0, go_on)"
      by (rule prod_cases3)
    have ok0: "connection_ok me w0" by (rule on_frame_ok(1) [OF "1.prems"(1) read_frame_ok [OF f] order o])
    have u0: "users (the_broker w0) = [(user, password)]"
      using keepsD [OF accounts.connected.keeps_on_frame [of "[(user, password)]" set_order me f] "1.prems"(2)] o by simp
    note heard0 = on_frame_heard [OF "1.prems"(1,2) read_frame_ok [OF f] order o h]
    show ?thesis
    proof (cases "r0 = Inr True")
      case True
      then have run: "serve set_order me (holding me (drop (frame_size f) bs) w0) = (r, w')"
        using "1.prems"(3) by (simp add: serve_step [of set_order me bs] f o)
      obtain rs1 where a: "attend user password (mock_of (the_broker w0)) (session_of (trackers w0 me)) (drop (frame_size f) bs)
          = (rs1, s, unread)" and rs: "rs = rs0 @ rs1"
        using "1.prems"(4) heard0 True by (auto simp: attend_step [OF f h] split: prod.splits)
      from "1.IH" [OF f refl ok0 u0 run a] heard0 rs show ?thesis by simp
    next
      case False
      then have "w' = holding me (drop (frame_size f) bs) w0"
        using "1.prems"(3) by (auto simp: serve_step [of set_order me bs] f o split: sum.splits)
      with "1.prems"(4) heard0 False show ?thesis by (auto simp: attend_step [OF f h] s)
    qed
  qed
qed

lemma connection_heard:
  assumes "connection_ok me w" and "users (the_broker w) = [(user, password)]"
    and "\<forall>xs. mset (set_order xs) = mset xs"
    and "data_received set_order me data w = (r, w')"
    and "listen user password (mock_of (the_broker w)) (session_of (trackers w me)) (buffer (trackers w me)) data
      = (rs, s, unread)"
  shows "mock_of (the_broker w') = answers user password rs (mock_of (the_broker w))
    \<and> session_of (trackers w' me) = s \<and> buffer (trackers w' me) = unread"
proof (cases "parser_state (trackers w me) = WAITING_PROTOCOL_HEADER")
  case False
  with assms(4,5) serve_heard [OF assms(1-3), of "buffer (trackers w me) @ data" r w' rs s unread] show ?thesis
    by (simp add: data_received_more more_holding listen_def)
next
  case True
  with assms(4,5) show ?thesis
    by (auto simp: data_received_def check_protocol_header_def bindS_apply on_transport_apply transport_close_def
        listen_def set_parser_state_apply send_connection_start_ok dest: arg_cong [where f = length] split: if_splits)
qed

end
