(* ===== verification/Abstract_Service.thy ===== *)
theory Abstract_Service
  imports Service Sessions
begin

text \<open>
  The service as a test may think of it: the requests made so far, which determine the mock broker; of each
  AMQP connection its session and the bytes it has not read yet; of each HTTP connection the request it is
  reading. What happens to the service moves this machine by the bytes received over AMQP and by the events
  that the HTTP parser gives, and the state of the real service is at every moment the one it predicts.
\<close>

section \<open>The machine\<close>

record mock_service =
  m_log :: "request list"
  m_sessions :: "nat \<Rightarrow> session \<times> bytes"
  m_lines :: "nat \<Rightarrow> request_line"

definition m_start :: mock_service where
  "m_start = \<lparr>m_log = [], m_sessions = (\<lambda>_. (new_session, [])), m_lines = (\<lambda>_. no_request)\<rparr>"

definition m_state :: "settings \<Rightarrow> mock_service \<Rightarrow> mock" where
  "m_state cfg a = answers (default_user cfg) (default_password cfg) (m_log a) mock_start"

fun m_step :: "settings \<Rightarrow> happening \<times> event list \<Rightarrow> mock_service \<Rightarrow> mock_service" where
  "m_step cfg (Amqp_Connects c, _) a = a\<lparr>m_sessions := (m_sessions a)(c := (new_session, []))\<rparr>"
| "m_step cfg (Amqp_Sends c data, _) a =
     (case m_sessions a c of (se, unread) \<Rightarrow>
       case listen (default_user cfg) (default_password cfg) (m_state cfg a) se unread data of
         (rs, se', unread') \<Rightarrow>
           a\<lparr>m_log := m_log a @ rs, m_sessions := (m_sessions a)(c := (se', unread'))\<rparr>)"
| "m_step cfg (Http_Connects i, _) a = a\<lparr>m_lines := (m_lines a)(i := no_request)\<rparr>"
| "m_step cfg (Http_Sends i _, evs) a =
     a\<lparr>m_log := m_log a @ tell (m_lines a i) evs, m_lines := (m_lines a)(i := foldl follow (m_lines a i) evs)\<rparr>"
| "m_step cfg _ a = a"

definition m_run :: "settings \<Rightarrow> (happening \<times> event list) list \<Rightarrow> mock_service" where
  "m_run cfg tr = fold (m_step cfg) tr m_start"

section \<open>Runs with the parser's events\<close>

definition events_at :: "'p environment \<Rightarrow> happening \<Rightarrow> 'p service \<Rightarrow> event list" where
  \<comment> \<open>what the parser of an HTTP connection makes of the data\<close>
  "events_at env hp s =
     (case hp of
        Http_Sends i data \<Rightarrow>
          (case http_at i s of
             None \<Rightarrow> []
           | Some x \<Rightarrow>
               (case events_received (parser env) (config env) data x of None \<Rightarrow> [] | Some evs \<Rightarrow> evs))
      | _ \<Rightarrow> [])"

inductive service_trace ::
  "'p environment \<Rightarrow> 'p service \<Rightarrow> (happening \<times> event list) list \<Rightarrow> 'p service \<Rightarrow> bool" for env s where
  Untouched: "service_trace env s [] s"
| Onwards: "service_trace env s tr s1 \<Longrightarrow> service_step env hp s1 s2 \<Longrightarrow>
     service_trace env s (tr @ [(hp, events_at env hp s1)]) s2"

text \<open>Every run has its trace.\<close>

lemma trace_run: "service_trace env s tr s' \<Longrightarrow> service_run env s (map fst tr) s'"
  by (induction rule: service_trace.induct) (simp_all add: service_run.intros)

lemma run_traced: "service_run env s hps s' \<longleftrightarrow> (\<exists>tr. service_trace env s tr s' \<and> map fst tr = hps)"
proof
  assume "service_run env s hps s'"
  then show "\<exists>tr. service_trace env s tr s' \<and> map fst tr = hps"
  proof (induction rule: service_run.induct)
    case Idle
    show ?case using Untouched [of env s] by fastforce
  next
    case (Next hps s1 hp s2)
    then obtain tr where "service_trace env s tr s1" "map fst tr = hps" by blast
    with Onwards [OF this(1) Next.hyps(2)] show ?case by fastforce
  qed
qed (use trace_run in blast)

section \<open>The service follows it\<close>

definition follows :: "settings \<Rightarrow> mock_service \<Rightarrow> 'p service \<Rightarrow> bool" where
  "follows cfg a s \<longleftrightarrow>
     mock_of (the_broker (shared s)) = m_state cfg a
     \<and> (\<forall>c. m_sessions a c = (session_of (trackers (shared s) c), buffer (trackers (shared s) c)))
     \<and> (\<forall>i x. http_objects s i = Some x \<longrightarrow> m_lines a i = request_fields x)"

lemma follows_start: "follows cfg m_start (service_start cfg ds)"
  by (simp add: follows_def m_start_def m_state_def service_start_def initial_world_def mock_of_init)
    (simp add: new_tracker_def)

lemma request_fields_server: "http_at i s = Some x \<Longrightarrow> \<exists>y. http_objects s i = Some y \<and> request_fields x = request_fields y"
  by (auto simp: http_at_def request_fields_def)

lemma call_back_fields: "request_fields (snd (call_back h j r x)) = request_fields x"
proof -
  have "keeps (\<lambda>s. request_fields s = y) (call_back h j r)" for y
    unfolding call_back_def
    by (intro keeps_http_rules own_request.keeps_on_get_done) (simp add: keeps_def request_fields_def)
  then show ?thesis by (simp add: keeps_def)
qed

lemma m_state_more:
  "m_log a' = m_log a @ rs \<Longrightarrow> m_state cfg a' = answers (default_user cfg) (default_password cfg) rs (m_state cfg a)"
  by (simp add: m_state_def)

lemma follows_amqp:
  assumes a: "follows (config env) a s" and ok: "service_ok (config env) ds s"
    and order: "\<forall>xs. mset (set_order (config env) xs) = mset xs"
  shows "follows (config env) (m_step (config env) (Amqp_Sends c data, evs) a)
    (s\<lparr>shared := amqp_data (set_order (config env)) c data (shared s)\<rparr>)"
proof -
  let ?cfg = "config env" and ?w = "shared s"
  obtain r w' where run: "data_received (set_order ?cfg) c data ?w = (r, w')" by fastforce
  obtain rs se unread where l: "listen (default_user ?cfg) (default_password ?cfg) (mock_of (the_broker ?w))
      (session_of (trackers ?w c)) (buffer (trackers ?w c)) data = (rs, se, unread)" by (rule prod_cases3)
  have "connection_ok c ?w" "users (the_broker ?w) = [(default_user ?cfg, default_password ?cfg)]"
    using reachable_ok [OF _ order] ok service_ok_playable [OF ok order]
    by (auto simp: service_ok_def server_ok_def connection_ok_def playable_def)
  note heard = connection_heard [OF this order run l]
  have other: "trackers w' c' = trackers ?w c'" if "c' \<noteq> c" for c'
    using keepsD [OF elsewhere.keeps_data_received [of c' c "trackers ?w c'" "transports ?w c'"], of ?w] that run
    by (metis snd_conv)
  have w: "the_broker (amqp_data (set_order ?cfg) c data ?w) = the_broker w'"
    "trackers (amqp_data (set_order ?cfg) c data ?w) = trackers w'"
    using run by (simp_all add: amqp_data_def broken_def split: sum.split)
  from a have m: "m_state ?cfg a = mock_of (the_broker ?w)"
    "m_sessions a c = (session_of (trackers ?w c), buffer (trackers ?w c))" by (simp_all add: follows_def)
  with a heard l other show ?thesis
    by (auto simp: follows_def w m_state_def)
qed

lemma follows_step:
  assumes step: "service_step env hp s s'" and a: "follows (config env) a s" and ok: "service_ok (config env) ds s"
    and order: "\<forall>xs. mset (set_order (config env) xs) = mset xs"
  shows "follows (config env) (m_step (config env) (hp, events_at env hp s) a) s'"
  using step
proof cases
  case (Amqp_Accept c)
  with a show ?thesis
    by (auto simp: follows_def connection_made_def m_state_def) (simp add: new_tracker_def)
next
  case (Amqp_Data c data)
  with follows_amqp [OF a ok order] show ?thesis by simp
next
  case (Amqp_Gone c)
  with a show ?thesis by (simp add: follows_def broken_def)
next
  case (Http_Accept i)
  with a show ?thesis
    by (auto simp: follows_def m_state_def request_fields_def new_http_def no_request_def)
next
  case (Http_Data i x data r x')
  let ?cfg = "config env"
  note x = http_at_server [OF Http_Data(3)]
  have "playable ?cfg (the_broker (server x))" using service_ok_playable [OF ok order] x by simp
  from http_data_plays [OF Http_Data(5) this] obtain evs where e: "events_received (parser env) ?cfg data x = Some evs"
    and p: "plays_events ?cfg evs x x'" by blast
  have at: "events_at env hp s = evs" using Http_Data e by (simp add: events_at_def)
  have "trackers (server x') = trackers (shared s)"
    using amqp_side.http_data_received_keeps [OF Http_Data(5), of "trackers (shared s)"] x by simp
  moreover have "m_lines a i = request_fields x"
    using request_fields_server [OF Http_Data(3)] a by (auto simp: follows_def)
  moreover have "request_fields (http_broken x') = request_fields x'" by (simp add: http_broken_def request_fields_def)
  ultimately show ?thesis
    using a p x Http_Data(1,2) at by (auto simp: follows_def plays_events_def m_state_def split: sum.split)
next
  case (Http_Gone i x)
  with a http_at_server [OF Http_Gone(3)] request_fields_server [OF Http_Gone(3)] show ?thesis
    by (auto simp: follows_def http_broken_def request_fields_def)
next
  case (Resumed i x j y n)
  with a http_at_server [OF Resumed(3)] request_fields_server [OF Resumed(3)] show ?thesis
    by (auto simp: follows_def resume_task_def request_fields_def)
next
  case (Called_Back i x j r)
  with a http_at_server [OF Called_Back(3)] request_fields_server [OF Called_Back(3)] show ?thesis
    by (auto simp: follows_def call_back_server call_back_fields)
qed

lemma trace_followed:
  assumes "service_trace env (service_start (config env) ds) tr s"
    and order: "\<forall>xs. mset (set_order (config env) xs) = mset xs"
  shows "follows (config env) (m_run (config env) tr) s"
  using assms(1)
proof (induction rule: service_trace.induct)
  case Untouched
  show ?case by (simp add: m_run_def follows_start)
next
  case (Onwards tr s1 hp s2)
  have "service_ok (config env) ds s1"
    by (rule service_run_ok [OF trace_run [OF Onwards.hyps(1)] service_start_ok])
  from follows_step [OF Onwards.hyps(2) Onwards.IH this order] show ?case by (simp add: m_run_def)
qed

end
