(* ===== verification/Service_Properties.thy ===== *)
theory Service_Properties
  imports Abstract_Service Http_Properties Connection_Properties
begin

text \<open>
  What the service as a whole promises to a test: it is the mock broker, whatever its clients do in
  whatever order; and what a client does to a delivery is what the test that waits for it is told.
\<close>

section \<open>A verdict on a delivery\<close>

definition verdict_in :: "frame \<Rightarrow> wait option" where
  \<comment> \<open>the wait that an acknowledgement or a rejection answers\<close>
  "verdict_in f =
     (case bindE (properties f) (\<lambda>d. get_int d ''delivery-tag'') of
        Inl _ \<Rightarrow> None
      | Inr t \<Rightarrow>
          if is_method f BASIC_ACK then Some (Acknowledged t)
          else if is_method f BASIC_NACK then
            (case bindE (properties f) (\<lambda>d. get_bool d ''requeue'') of
               Inl _ \<Rightarrow> None
             | Inr requeue \<Rightarrow> Some (if requeue then Requeued t else Not_Acknowledged t))
          else None)"

lemma verdict_in_cases:
  assumes "verdict_in f = Some x"
  obtains (ack) t where "is_method f BASIC_ACK" "bindE (properties f) (\<lambda>d. get_int d ''delivery-tag'') = Inr t"
      "x = Acknowledged t"
  | (nack) t rq where "is_method f BASIC_NACK" "bindE (properties f) (\<lambda>d. get_int d ''delivery-tag'') = Inr t"
      "bindE (properties f) (\<lambda>d. get_bool d ''requeue'') = Inr rq" "x = (if rq then Requeued t else Not_Acknowledged t)"
  using assms by (auto simp: verdict_in_def split: sum.splits if_splits)

lemma verdict_recorded:
  assumes "channel_at w me (channel_number f) = Some ch" and "ch_state ch = CH_OPENED" and "verdict_in f = Some x"
  shows "\<exists>w'. channel_frame so me f w = (Inr (), w') \<and> verdict_of x (mock_of (the_broker w'))
    \<and> transports w' = transports w \<and> trackers w' = trackers w"
proof -
  have other: "\<not> is_method f m'" if "is_method f m" "m' \<noteq> m" for m m'
    using that by (auto simp: is_method_def)
  have op: "channel_frame so me f w = on_opened me (channel_number f) f w"
    if "\<not> is_method f CHANNEL_CLOSE"
    using assms(1,2) that frame_on_known [OF assms(1)]
    by (simp add: treat_channel_frame_def Let_def bindS_apply get_channel_def channel_at_def)
  from assms(3) show ?thesis
  proof (cases rule: verdict_in_cases)
    case (ack t)
    then have "on_opened me (channel_number f) f w = on_basic_ack f w"
      using other [OF ack(1)] by (simp add: on_opened_def)
    with ack op other [OF ack(1)] show ?thesis
      by (simp add: on_basic_ack_def int_prop_def bindS_apply on_broker_def message_ack_def mock_of_def)
  next
    case (nack t rq)
    then have "on_opened me (channel_number f) f w = on_basic_nack f w"
      using other [OF nack(1)] by (simp add: on_opened_def)
    with nack op other [OF nack(1)] show ?thesis
      by (simp add: on_basic_nack_def int_prop_def bool_prop_def bindS_apply on_broker_def message_nack_def mock_of_def)
  qed
qed

lemma verdict_frame: "verdict_in f = Some x \<Longrightarrow> (\<nexists>k. f = HeartBeat k)"
  by (auto simp: verdict_in_def is_method_def split: sum.splits if_splits)

text \<open>Its bytes on an open channel put it on record.\<close>

lemma verdict_received:
  assumes "channel_at w me (channel_number f) = Some ch" and "ch_state ch = CH_OPENED" and "channel_number f \<noteq> 0"
    and "buffer (trackers w me) = []" and "parser_state (trackers w me) \<noteq> WAITING_PROTOCOL_HEADER"
    and "reads_as bs f" and "verdict_in f = Some x"
  shows "verdict_of x (mock_of (the_broker (amqp_data so me bs w)))"
proof -
  from verdict_recorded [OF assms(1,2,7)] obtain w' where "channel_frame so me f w = (Inr (), w')"
    and v: "verdict_of x (mock_of (the_broker w'))" by blast
  then have "treat_frames so me [f] w = (Inr (), w')" by (simp add: bindS_apply)
  from data_received_frames [OF _ _ assms(4,5) this, of "[bs]"] assms(3,6) verdict_frame [OF assms(7)]
  have "data_received so me bs w = (Inr (), w')" by simp
  with v show ?thesis by (simp add: amqp_data_broker)
qed

lemma http_at_put [simp]: "http_at i (put_http i x s) = Some x"
  by (cases x) (simp add: http_at_def)

text \<open>A task that waits for what is on record is done with its next round, and its request is answered.\<close>

lemma wait_answered_with:
  assumes "http_at i s = Some y" and "j < length (futures y)" and "futures y ! j = Waiting x (Suc k)"
    and "look x (the_broker (shared s)) = Inr (Some v)"
  shows "\<exists>s' y'. service_step env (Task_Resumes i j) s s' \<and> http_at i s' = Some y'
    \<and> service_step env (Task_Done i j) s' (put_http i (snd (on_get_done (parser env) (Inr v)
        (y'\<lparr>futures := take j (futures y') @ drop (Suc j) (futures y')\<rparr>))) s')"
proof -
  let ?y = "snd (resume_task j y)"
  have "resume (the_broker_of y) (futures y ! j) = Finished (Inr v)"
    using assms(4) http_at_server [OF assms(1)] assms(3) by (simp add: the_broker_of_def)
  then have f: "j < length (futures ?y)" "futures ?y ! j = Finished (Inr v)"
    using assms(2) by (simp_all add: resume_task_def)
  have "call_back (parser env) j (Inr v) ?y
      = on_get_done (parser env) (Inr v) (?y\<lparr>futures := take j (futures ?y) @ drop (Suc j) (futures ?y)\<rparr>)"
    by (simp add: call_back_def)
  with Called_Back [OF http_at_put f, of env i s] Resumed [OF assms(1-3), of env] show ?thesis by auto
qed

lemma wait_answered_at_once:
  assumes "http_at i s = Some y" and "j < length (futures y)" and "futures y ! j = Waiting x (Suc k)"
    and "verdict_of x (mock_of (the_broker (shared s)))"
  shows "\<exists>s' y'. service_step env (Task_Resumes i j) s s' \<and> http_at i s' = Some y'
    \<and> service_step env (Task_Done i j) s' (put_http i (snd (send_http_response_no_content (parser env)
        (y'\<lparr>futures := take j (futures y') @ drop (Suc j) (futures y')\<rparr>))) s')"
  using wait_answered_with [OF assms(1-3) verdict_look [OF assms(4)], of env] by (simp add: on_get_done_def)


section \<open>A service to try it on\<close>

definition plain_environment :: "event list \<Rightarrow> event list environment" where
  "plain_environment es =
     \<lparr>parser = prepared, fresh_parser = es, config = plain_settings, clock = (\<lambda>_ _. b_lit ''today'')\<rparr>"

lemma plain_environment_simps [simp]:
  "parser (plain_environment es) = prepared" "config (plain_environment es) = plain_settings"
  "fresh_parser (plain_environment es) = es" "clock (plain_environment es) i = (\<lambda>_. b_lit ''today'')"
  "set_order plain_settings = id" "default_user plain_settings = lit ''guest''"
  "default_password plain_settings = lit ''guest''"
  by (simp_all add: plain_environment_def plain_settings_def)

lemma service_run_one: "service_step env hp s s' \<Longrightarrow> service_run env s [hp] s'"
  using Next [OF Idle] by fastforce

definition ack_bytes :: bytes where
  \<comment> \<open>\<open>basic.ack\<close> of the delivery tag 7, on channel 1\<close>
  "ack_bytes = frame_bytes 1 1 [0, 60, 0, 80, 0, 0, 0, 0, 0, 0, 0, 7, 0]"

definition ack_frame :: frame where
  "ack_frame = MethodFrame 1 21 (id_of BASIC_ACK)
     [(lit ''delivery-tag'', PInt 7), (lit ''multiple'', PBool False)]"

lemma ack_bytes_read: "reads_as ack_bytes ack_frame"
  unfolding ack_bytes_def ack_frame_def
  by (rule reads_as_frame_bytes)
    (simp_all add: build_frame_def frame_consts new_method_def unpack_I_def unpack_Q_def unpack_u_def py_slice_def
      id_of.simps decode_method_def decode_basic_ack_def decode_args_def loads_def loads_field_def
      unpack_B_def ord_at_def idx_def drop_bit_Suc)

lemma ack_frame_verdict: "verdict_in ack_frame = Some (Acknowledged 7)"
  by (simp add: verdict_in_def ack_frame_def get_int_def py_get_def is_method_def)

definition waiting_service :: "event list service" where
  \<comment> \<open>the world with an open channel, and a test that waits for the acknowledgement of delivery 7\<close>
  "waiting_service = \<lparr>shared = open_world, amqp_objects = [0], http_objects =
     (\<lambda>_. None)(0 \<mapsto> (prepared_http [] open_world)\<lparr>futures := [new_task (Acknowledged 7)]\<rparr>)\<rparr>"

lemma waiting_service_playable: "playable plain_settings (the_broker (shared waiting_service))"
proof -
  have "users (the_broker open_world) = [(lit ''guest'', lit ''guest'')]"
    using keepsD [OF accounts.keeps_declare_queue, of "init_state (lit ''guest'') (lit ''guest'')" _ "lit ''q''"]
    by (simp add: open_world_def init_state_def)
  with open_world_broker(1) show ?thesis by (simp add: playable_def waiting_service_def)
qed

lemma flushed_service:
  obtains s where "service_run (plain_environment [Request (b_lit ''MOCK_FLUSH'') (b_lit ''/'') []])
      (service_start plain_settings ds) [Amqp_Connects 0, Http_Connects 0, Http_Sends 0 []] s"
proof -
  let ?env = "plain_environment [Request (b_lit ''MOCK_FLUSH'') (b_lit ''/'') []]"
  let ?s = "service_start plain_settings ds :: event list service"
  obtain s1 where s1: "service_step ?env (Amqp_Connects 0) ?s s1" "http_objects s1 = (\<lambda>_. None)"
    using Amqp_Accept [of 0 ?s ?env] by (fastforce simp: service_start_def)
  let ?x = "prepared_http [Request (b_lit ''MOCK_FLUSH'') (b_lit ''/'') []] (shared s1)"
  have s2: "service_step ?env (Http_Connects 0) s1 (put_http 0 ?x s1)"
    using Http_Accept [of s1 0 ?env] s1(2) by (simp add: prepared_http_def)
  obtain x' where "http_data_received prepared plain_settings [] ?x = Some (Inr (), x')" by (rule flush_request)
  with Http_Data [of 0 "put_http 0 ?x s1" ?x ?env "[]" "Inr ()" x']
  have "service_step ?env (Http_Sends 0 []) (put_http 0 ?x s1) (put_http 0 x' (put_http 0 ?x s1))"
    by (simp add: prepared_http_def new_http_def new_transport_def)
  from that [OF Next [OF Next [OF service_run_one [OF s1(1)] s2, simplified] this, simplified]] show thesis .
qed

text \<open>A client that sends credentials that are not the default user's.\<close>

definition login_trace :: "(happening \<times> event list) list" where
  "login_trace = [(Amqp_Connects 0, []), (Amqp_Sends 0 PROTOCOL_HEADER, []), (Amqp_Sends 0 start_ok_bytes, [])]"

lemma login_log: "m_log (m_run plain_settings login_trace) = [Log_In (lit ''u'') (lit ''p'')]"
proof -
  let ?f = "MethodFrame 0 31 (id_of START_OK) start_ok_args"
  let ?s = "new_session\<lparr>stage := WAITING_START_OK\<rparr>"
  have u: "lit ''u'' \<noteq> lit ''guest''" by (simp add: lit_def)
  have rf: "read_frame start_ok_bytes = Inr (Some ?f)" "drop (frame_size ?f) start_ok_bytes = []"
    using start_ok_bytes_read by (simp_all add: reads_as_def)
  have "\<not> is_method ?f CLOSE" by (simp add: is_method_def id_of.simps)
  with u have h: "hear (lit ''guest'') (lit ''guest'') m ?s ?f = ([Log_In (lit ''u'') (lit ''p'')], ?s, False)" for m
    by (simp add: hear_def start_ok_args_login)
  have "listen (lit ''guest'') (lit ''guest'') m new_session [] PROTOCOL_HEADER = ([], ?s, [])" for m
    by (simp add: listen_def new_session_def)
  moreover have "listen (lit ''guest'') (lit ''guest'') m ?s [] start_ok_bytes = ([Log_In (lit ''u'') (lit ''p'')], ?s, [])" for m
    using rf by (simp add: listen_def attend_step [OF rf(1) h])
  ultimately show ?thesis
    by (simp add: m_run_def login_trace_def m_start_def plain_settings_def)
qed

lemma login_traced:
  obtains s :: "event list service" where "service_trace (plain_environment es) (service_start plain_settings ds) login_trace s"
    and "http_objects s = (\<lambda>_. None)"
proof -
  let ?env = "plain_environment es"
  let ?s0 = "service_start plain_settings ds :: event list service"
  let ?s1 = "?s0\<lparr>shared := connection_made 0 (shared ?s0), amqp_objects := [0]\<rparr>"
  let ?s2 = "?s1\<lparr>shared := amqp_data id 0 PROTOCOL_HEADER (shared ?s1)\<rparr>"
  let ?s3 = "?s2\<lparr>shared := amqp_data id 0 start_ok_bytes (shared ?s2)\<rparr>"
  have s1: "service_step ?env (Amqp_Connects 0) ?s0 ?s1"
    using Amqp_Accept [of 0 ?s0 ?env] by (simp add: service_start_def)
  have s2: "service_step ?env (Amqp_Sends 0 PROTOCOL_HEADER) ?s1 ?s2"
    using Amqp_Data [of 0 ?s1 ?env PROTOCOL_HEADER] by (simp add: connection_made_def new_transport_def)
  have new: "trackers (shared ?s1) 0 = new_tracker" by (simp add: connection_made_def)
  obtain w where "data_received id 0 PROTOCOL_HEADER (shared ?s1) = (Inr (), w)"
    and "is_closing (transports w 0) = is_closing (transports (shared ?s1) 0)"
    using protocol_header_received [OF new, of id thesis] by blast
  then have "\<not> is_closing (transports (shared ?s2) 0)"
    by (simp add: amqp_data_def connection_made_def new_transport_def)
  then have s3: "service_step ?env (Amqp_Sends 0 start_ok_bytes) ?s2 ?s3"
    using Amqp_Data [of 0 ?s2 ?env start_ok_bytes] by simp
  from Onwards [OF Onwards [OF Onwards [OF Untouched s1] s2] s3]
  have "service_trace ?env ?s0 login_trace ?s3" by (simp add: login_trace_def events_at_def)
  with that show thesis by (simp add: service_start_def)
qed







section \<open>Properties\<close>

text \<open>C4: When the bytes of an acknowledgement or of a rejection arrive on an open channel, a test that
  waits for this verdict on this delivery is told so: whatever happens on the AMQP connections
  afterwards, which may close or break, and in whatever order, a wait that is then resumed ends, and its
  request is answered with 204.\<close>

theorem verdict_reaches_test:
  assumes "\<forall>xs. mset (set_order (config env) xs) = mset xs" and "playable (config env) (the_broker (shared s))"
    and "channel_at (shared s) c (channel_number f) = Some ch" "ch_state ch = CH_OPENED" "channel_number f \<noteq> 0"
    and "buffer (trackers (shared s) c) = []" "parser_state (trackers (shared s) c) \<noteq> WAITING_PROTOCOL_HEADER"
    and "reads_as bs f" "verdict_in f = Some x"
    and "service_step env (Amqp_Sends c bs) s s1"
    and "service_run env s1 hps s2" "\<forall>hp\<in>set hps. \<not> sent_over_http hp"
    and "http_at i s2 = Some y" "j < length (futures y)" "futures y ! j = Waiting x (Suc k)"
  shows "\<exists>s3 y'. service_step env (Task_Resumes i j) s2 s3 \<and> http_at i s3 = Some y'
    \<and> service_step env (Task_Done i j) s3 (put_http i (snd (send_http_response_no_content (parser env)
        (y'\<lparr>futures := take j (futures y') @ drop (Suc j) (futures y')\<rparr>))) s3)"
proof -
  have "shared s1 = amqp_data (set_order (config env)) c bs (shared s)"
    using assms(10) by (cases rule: service_step.cases) simp_all
  with verdict_received [OF assms(3-9)] have "verdict_of x (mock_of (the_broker (shared s1)))" by simp
  with verdict_kept [OF assms(11,1) _ assms(12)] service_step_plays [OF assms(10,1,2)]
  have "verdict_of x (mock_of (the_broker (shared s2)))" by blast
  from wait_answered_at_once [OF assms(13-15) this] show ?thesis .
qed

lemma verdict_reaches_test_witness:
  "\<exists>s1 s2 s3 y'. service_step (plain_environment []) (Amqp_Sends 0 ack_bytes) waiting_service s1
     \<and> service_run (plain_environment []) s1 [Amqp_Leaves 0] s2
     \<and> service_step (plain_environment []) (Task_Resumes 0 0) s2 s3 \<and> http_at 0 s3 = Some y'
     \<and> service_step (plain_environment []) (Task_Done 0 0) s3 (put_http 0 (snd (send_http_response_no_content prepared
         (y'\<lparr>futures := take 0 (futures y') @ drop (Suc 0) (futures y')\<rparr>))) s3)"
proof -
  let ?env = "plain_environment []" and ?s = waiting_service
  let ?s1 = "?s\<lparr>shared := amqp_data id 0 ack_bytes (shared ?s)\<rparr>"
  let ?s2 = "?s1\<lparr>shared := broken 0 (shared ?s1)\<rparr>"
  have s1: "service_step ?env (Amqp_Sends 0 ack_bytes) ?s ?s1"
    using Amqp_Data [of 0 ?s ?env ack_bytes] by (simp add: waiting_service_def new_transport_def)
  have s2: "service_run ?env ?s1 [Amqp_Leaves 0] ?s2"
    using service_run_one [OF Amqp_Gone [of 0 ?s1 ?env]] by (simp add: waiting_service_def)
  obtain y where y: "http_at 0 ?s2 = Some y" and f: "futures y = [Waiting (Acknowledged 7) (Suc 9)]"
    by (simp add: http_at_def waiting_service_def new_task_def numeral_eq_Suc)
  have "\<exists>s3 y'. service_step ?env (Task_Resumes 0 0) ?s2 s3 \<and> http_at 0 s3 = Some y'
    \<and> service_step ?env (Task_Done 0 0) s3 (put_http 0 (snd (send_http_response_no_content (parser ?env)
        (y'\<lparr>futures := take 0 (futures y') @ drop (Suc 0) (futures y')\<rparr>))) s3)"
    by (rule verdict_reaches_test [where c = 0 and f = ack_frame and ch = open_channel, OF _ _ _ _ _ _ _ ack_bytes_read
          ack_frame_verdict s1 s2 _ y])
      (use waiting_service_playable f in \<open>simp_all add: waiting_service_def ack_frame_def\<close>)
  with s1 s2 show ?thesis by auto
qed

text \<open>C3: The service is the mock broker: whatever connects, sends, waits and leaves, in whatever order, its
  state is the one that the abstract broker reaches by answering, one after the other, exactly the requests
  that the abstract sessions hear in the bytes received over AMQP and that the events of the HTTP parser
  spell out, no more and no fewer; and what a wait or an inspection finds is what the abstract broker knows.\<close>

theorem service_refines_mock_broker:
  assumes "service_trace env (service_start (config env) ds) tr s"
    and "\<forall>xs. mset (set_order (config env) xs) = mset xs"
  shows "let b = the_broker (shared s);
      m = answers (default_user (config env)) (default_password (config env)) (m_log (m_run (config env) tr)) mock_start
    in mock_of b = m \<and> (\<forall>x. look x b = m_look x m)
      \<and> (\<forall>q. get_messages_of_queue q b = m_messages (m_queue m q))
      \<and> (\<forall>e. get_messages_of_exchange e b = m_messages (m_exchange m e))"
  using trace_followed [OF assms] mock_observed by (simp add: follows_def m_state_def Let_def)

lemma service_refines_mock_broker_witness:
  "\<exists>s :: event list service. service_trace (plain_environment []) (service_start plain_settings (\<lambda>_. 1))
      [(Amqp_Connects 0, []), (Amqp_Sends 0 PROTOCOL_HEADER, []), (Amqp_Sends 0 start_ok_bytes, [])] s
    \<and> m_tried (mock_of (the_broker (shared s))) (lit ''u'') = Some False"
proof -
  obtain s :: "event list service" where s: "service_trace (plain_environment []) (service_start plain_settings (\<lambda>_. 1)) login_trace s"
    by (rule login_traced)
  have "lit ''u'' \<noteq> lit ''guest''" by (simp add: lit_def)
  with service_refines_mock_broker [OF s [folded plain_environment_simps(2) [of "[]"]]] s login_log show ?thesis
    by (auto simp: login_trace_def Let_def)
qed

text \<open>C28: One connection, in any well-formed state: what \<open>data_received\<close> does to the state is what answering the
  requests does that the connection's session hears in its unread bytes and the new ones; the tracker is
  then, as a session, the one the abstract session has become, and holds the bytes it has left unread. This
  holds for every input, also where the code closes the connection or raises.\<close>

theorem connection_refines_session:
  assumes "broker_ok (the_broker w)" and "tracker_ok (trackers w me)"
    and "users (the_broker w) = [(user, password)]" and "\<forall>xs. mset (so xs) = mset xs"
    and "data_received so me data w = (r, w')"
    and "listen user password (mock_of (the_broker w)) (session_of (trackers w me)) (buffer (trackers w me)) data
      = (rs, s, unread)"
  shows "mock_of (the_broker w') = answers user password rs (mock_of (the_broker w))
    \<and> session_of (trackers w' me) = s \<and> buffer (trackers w' me) = unread"
  using connection_heard [OF _ assms(3-6)] assms(1,2) by (simp add: connection_ok_def)

lemma connection_refines_session_witness:
  "m_queue (mock_of (the_broker (snd (data_received id 0 (publish_bytes @ header_bytes 1 @ frame_bytes 3 1 [104]) open_world))))
     (lit ''q'') = Some [\<lparr>stored_headers = PDict [], stored_body = PBytes [104]\<rparr>]"
proof -
  let ?data = "publish_bytes @ header_bytes 1 @ frame_bytes 3 1 [104]" and ?g = "lit ''guest''"
  let ?m = "mock_of (the_broker open_world)" and ?x = "\<lparr>stored_headers = PDict [], stored_body = PBytes [104]\<rparr>"
  let ?s = "\<lambda>t. session_of (trackers open_world 0)\<lparr>talks := (talks (session_of (trackers open_world 0)))(1 := t)\<rparr>"
  have known: "type_of (the_broker open_world) [] \<noteq> None" "lit ''q'' \<in> set (bound_queues (the_broker open_world) [])"
    "queue_log (the_broker open_world) (lit ''q'') = Some []"
    by (simp_all add: open_world_def declare_queue_view) (simp_all add: init_state_def view_defs set_add_def new_exchange_def)
  have "talks (session_of (trackers open_world 0)) 1 = Ready"
    by (simp add: session_of_def talk_of_def open_world_def open_channel_def)
  moreover have "\<not> is_method (MethodFrame 1 17 (id_of BASIC_PUBLISH) publish_args) CHANNEL_CLOSE"
    by (simp add: is_method_def id_of.simps)
  ultimately have h1: "hear ?g ?g ?m (session_of (trackers open_world 0)) (MethodFrame 1 17 (id_of BASIC_PUBLISH) publish_args)
      = ([], ?s (Header_Due []), True)"
    by (simp add: hear_def is_method_def publish_args_def get_str_def py_get_def)
  have h2: "hear ?g ?g ?m (?s (Header_Due [])) (HeaderFrame 1 22 60 (int 1) []) = ([], ?s (Body_Due [] 1 [] []), True)"
    by (simp add: hear_def)
  have h3: "hear ?g ?g ?m (?s (Body_Due [] 1 [] [])) (BodyFrame 1 9 [104]) = ([Store [] ?x], ?s Ready, True)"
    using known(1) by (simp add: hear_def mock_of_def contract_of_def)
  have "attend ?g ?g ?m (session_of (trackers open_world 0)) ?data = ([Store [] ?x], ?s Ready, [])"
    using attend_frame [OF publish_bytes_read h1] attend_frame [OF header_bytes_read h2]
      attend_frame [OF body_bytes_read, of "[104]" ?g ?g ?m _ _ _ "[]"] h3
    by (simp add: attend_nothing)
  then have l: "listen ?g ?g ?m (session_of (trackers open_world 0)) (buffer (trackers open_world 0)) ?data = ([Store [] ?x], ?s Ready, [])"
    by (simp add: listen_def)
  have t: "tracker_ok (trackers open_world 0)"
    by (simp add: open_world_def tracker_ok_def channel_ok_def open_channel_def)
  have u: "users (the_broker open_world) = [(?g, ?g)]"
    using waiting_service_playable by (simp add: playable_def waiting_service_def)
  from connection_refines_session [OF open_world_broker(1) t u _ surjective_pairing l] known show ?thesis
    by (simp add: m_queue_def on_contract_def c_store_def mock_of_def contract_of_def)
qed



text \<open>C10: Whatever happens to the service, the world its connections share is in a state that the server's own
  steps reach, hence well formed, with consumers of its own connections only, so that no new connection
  takes over a consumer; and what arrives over HTTP touches no AMQP connection's protocol object.\<close>

theorem service_stays_a_server:
  assumes "service_run env (service_start (config env) ds) hps s"
    and "\<forall>xs. mset (set_order (config env) xs) = mset xs"
  shows "reachable (set_order (config env)) (default_user (config env)) (default_password (config env)) ds (shared s)
    \<and> server_ok (shared s) \<and> owned (amqp_objects s) (the_broker (shared s))
    \<and> (service_step env (Http_Sends i data) s s' \<longrightarrow> trackers (shared s') = trackers (shared s))"
proof -
  have ok: "service_ok (config env) ds s" by (rule service_run_ok [OF assms(1) service_start_ok])
  have "trackers (shared s') = trackers (shared s)" if "service_step env (Http_Sends i data) s s'"
    using that
  proof cases
    case (Http_Data x r x')
    with http_at_server [OF Http_Data(2)] amqp_side.http_data_received_keeps [OF Http_Data(4), of "trackers (shared s)"] show ?thesis by simp
  qed
  with ok reachable_ok [OF _ assms(2)] show ?thesis by (auto simp: service_ok_def)
qed

lemma service_stays_a_server_witness:
  "\<exists>s :: event list service. reachable id (lit ''guest'') (lit ''guest'') (\<lambda>_. 1) (shared s) \<and> server_ok (shared s)
     \<and> owned (amqp_objects s) (the_broker (shared s))"
proof -
  let ?env = "plain_environment [Request (b_lit ''MOCK_FLUSH'') (b_lit ''/'') []]"
  obtain s where "service_run ?env (service_start (config ?env) (\<lambda>_. 1)) [Amqp_Connects 0, Http_Connects 0, Http_Sends 0 []] s"
    using flushed_service by auto
  from service_stays_a_server [OF this, of 0 "[]" s] show ?thesis by auto
qed

text \<open>C5: What is published stays: when the bytes of a publication have arrived on an open channel, then whatever
  happens on the AMQP connections afterwards, in whatever order, every queue bound to the exchange has the
  messages it had, then the published one, then what came later.\<close>

theorem publication_outlives_traffic:
  assumes "\<forall>xs. mset (set_order (config env) xs) = mset xs" and "playable (config env) (the_broker (shared s))"
    and "channel_at (shared s) c n = Some ch" "ch_state ch = CH_OPENED" "n \<noteq> 0"
    and "buffer (trackers (shared s) c) = []" "parser_state (trackers (shared s) c) \<noteq> WAITING_PROTOCOL_HEADER"
    and "get_str d ''exchange-name'' = Inr e" "get_str d ''routing-key'' = Inr k"
    and "type_of (the_broker (shared s)) e \<noteq> None" "q \<in> set (bound_queues (the_broker (shared s)) e)"
    and "bodies \<noteq> []" "snd (last bodies) \<noteq> []"
    and "list_all2 reads_as bss (publication n sz1 sz2 d props bodies)"
    and "queue_log (the_broker (shared s)) q = Some ms"
    and "service_step env (Amqp_Sends c (concat bss)) s s1"
    and "service_run env s1 hps s2" "\<forall>hp\<in>set hps. \<not> sent_over_http hp"
  shows "\<exists>later. queue_log (the_broker (shared s2)) q
    = Some (ms @ \<lparr>stored_headers = PDict props, stored_body = PBytes (concat (map snd bodies))\<rparr> # later)"
proof -
  let ?m = "\<lparr>stored_headers = PDict props, stored_body = PBytes (concat (map snd bodies))\<rparr>"
  have ok: "broker_ok (the_broker (shared s))" using assms(2) by (simp add: playable_def)
  from publication_received [OF assms(3-7) ok assms(1) assms(8-10,12-14)] obtain w'
    where r: "data_received (set_order (config env)) c (concat bss) (shared s) = (Inr (), w')"
      and w': "contract_of (the_broker w') = c_store e ?m (contract_of (the_broker (shared s)))" by blast
  have "shared s1 = w'"
    using assms(16) r by (cases rule: service_step.cases) (simp_all add: amqp_data_def)
  moreover have "queue_log (the_broker w') q = c_queue (contract_of (the_broker w')) q" by (simp add: contract_of_def)
  ultimately have log: "queue_log (the_broker (shared s1)) q = Some (ms @ [?m])"
    using assms(10,11,15) unfolding w' by (simp add: c_store_def contract_of_def)
  have "playable (config env) (the_broker (shared s1))" using service_step_plays [OF assms(16,1,2)] by blast
  from queue_kept [OF assms(17,1) this assms(18) log] show ?thesis by simp
qed

lemma publication_outlives_traffic_witness:
  "\<exists>s1 s2 later. service_step (plain_environment [])
        (Amqp_Sends 0 (concat [publish_bytes, header_bytes 2, frame_bytes 3 1 [104], frame_bytes 3 1 [105]])) waiting_service s1
     \<and> service_run (plain_environment []) s1 [Amqp_Leaves 0] s2
     \<and> queue_log (the_broker (shared s2)) (lit ''q'')
        = Some ([] @ \<lparr>stored_headers = PDict [], stored_body = PBytes [104, 105]\<rparr> # later)"
proof -
  let ?env = "plain_environment []" and ?s = waiting_service
  let ?bss = "[publish_bytes, header_bytes 2, frame_bytes 3 1 [104], frame_bytes 3 1 [105]]"
  let ?bodies = "[(9, [104]), (9, [105])] :: (nat \<times> bytes) list"
  let ?s1 = "?s\<lparr>shared := amqp_data id 0 (concat ?bss) (shared ?s)\<rparr>"
  let ?s2 = "?s1\<lparr>shared := broken 0 (shared ?s1)\<rparr>"
  have s1: "service_step ?env (Amqp_Sends 0 (concat ?bss)) ?s ?s1"
    using Amqp_Data [of 0 ?s ?env "concat ?bss"] by (simp add: waiting_service_def new_transport_def)
  have s2: "service_run ?env ?s1 [Amqp_Leaves 0] ?s2"
    using service_run_one [OF Amqp_Gone [of 0 ?s1 ?env]] by (simp add: waiting_service_def)
  have bytes: "list_all2 reads_as ?bss (publication 1 17 22 publish_args [] ?bodies)"
    using publish_bytes_read header_bytes_read [of 2] body_bytes_read [of "[104]"] body_bytes_read [of "[105]"]
    by (simp add: publication_def)
  have q: "lit ''q'' \<in> set (bound_queues (the_broker open_world) [])" "queue_log (the_broker open_world) (lit ''q'') = Some []"
    by (simp_all add: open_world_def declare_queue_view) (simp_all add: init_state_def view_defs set_add_def new_exchange_def)
  have "\<exists>later. queue_log (the_broker (shared ?s2)) (lit ''q'')
      = Some ([] @ \<lparr>stored_headers = PDict [], stored_body = PBytes (concat (map snd ?bodies))\<rparr> # later)"
    by (rule publication_outlives_traffic [where c = 0 and ch = open_channel and e = "[]" and k = "[]",
          OF _ _ _ _ _ _ _ _ _ _ _ _ _ bytes _ s1 s2])
      (use waiting_service_playable q in \<open>simp_all add: waiting_service_def publish_args_def get_str_def py_get_def
        open_world_broker\<close>)
  then obtain later where "queue_log (the_broker (shared ?s2)) (lit ''q'')
      = Some ([] @ \<lparr>stored_headers = PDict [], stored_body = PBytes [104, 105]\<rparr> # later)" by auto
  with s1 s2 show ?thesis by blast
qed

end
