(* ===== verification/Self_Test.thy ===== *)
theory Self_Test
  imports Codec
begin

text \<open>
  The sample at the end of \<open>service/serialization.py\<close>: the arguments of a \<open>connection.start\<close> of RabbitMQ,
  which the module decodes and prints when it is run, and a table of its properties, which it encodes.
\<close>

definition sample_data :: bytes where
  "sample_data =
     [
      0x00, 0x00, 0x01,
      0xc7, 0x0c, 0x63, 0x61, 0x70, 0x61, 0x62, 0x69,
      0x6c, 0x69, 0x74, 0x69, 0x65, 0x73, 0x46, 0x00,
      0x00, 0x00, 0xc7, 0x12, 0x70, 0x75, 0x62, 0x6c,
      0x69, 0x73, 0x68, 0x65, 0x72, 0x5f, 0x63, 0x6f,
      0x6e, 0x66, 0x69, 0x72, 0x6d, 0x73, 0x74, 0x01,
      0x1a, 0x65, 0x78, 0x63, 0x68, 0x61, 0x6e, 0x67,
      0x65, 0x5f, 0x65, 0x78, 0x63, 0x68, 0x61, 0x6e,
      0x67, 0x65, 0x5f, 0x62, 0x69, 0x6e, 0x64, 0x69,
      0x6e, 0x67, 0x73, 0x74, 0x01, 0x0a, 0x62, 0x61,
      0x73, 0x69, 0x63, 0x2e, 0x6e, 0x61, 0x63, 0x6b,
      0x74, 0x01, 0x16, 0x63, 0x6f, 0x6e, 0x73, 0x75,
      0x6d, 0x65, 0x72, 0x5f, 0x63, 0x61, 0x6e, 0x63,
      0x65, 0x6c, 0x5f, 0x6e, 0x6f, 0x74, 0x69, 0x66,
      0x79, 0x74, 0x01, 0x12, 0x63, 0x6f, 0x6e, 0x6e,
      0x65, 0x63, 0x74, 0x69, 0x6f, 0x6e, 0x2e, 0x62,
      0x6c, 0x6f, 0x63, 0x6b, 0x65, 0x64, 0x74, 0x01,
      0x13, 0x63, 0x6f, 0x6e, 0x73, 0x75, 0x6d, 0x65,
      0x72, 0x5f, 0x70, 0x72, 0x69, 0x6f, 0x72, 0x69,
      0x74, 0x69, 0x65, 0x73, 0x74, 0x01, 0x1c, 0x61,
      0x75, 0x74, 0x68, 0x65, 0x6e, 0x74, 0x69, 0x63,
      0x61, 0x74, 0x69, 0x6f, 0x6e, 0x5f, 0x66, 0x61,
      0x69, 0x6c, 0x75, 0x72, 0x65, 0x5f, 0x63, 0x6c,
      0x6f, 0x73, 0x65, 0x74, 0x01, 0x10, 0x70, 0x65,
      0x72, 0x5f, 0x63, 0x6f, 0x6e, 0x73, 0x75, 0x6d,
      0x65, 0x72, 0x5f, 0x71, 0x6f, 0x73, 0x74, 0x01,
      0x0f, 0x64, 0x69, 0x72, 0x65, 0x63, 0x74, 0x5f,
      0x72, 0x65, 0x70, 0x6c, 0x79, 0x5f, 0x74, 0x6f,
      0x74, 0x01, 0x0c, 0x63, 0x6c, 0x75, 0x73, 0x74,
      0x65, 0x72, 0x5f, 0x6e, 0x61, 0x6d, 0x65, 0x53,
      0x00, 0x00, 0x00, 0x13, 0x72, 0x61, 0x62, 0x62,
      0x69, 0x74, 0x40, 0x36, 0x30, 0x62, 0x35, 0x38,
      0x34, 0x63, 0x62, 0x34, 0x63, 0x31, 0x62, 0x09,
      0x63, 0x6f, 0x70, 0x79, 0x72, 0x69, 0x67, 0x68,
      0x74, 0x53, 0x00, 0x00, 0x00, 0x2e, 0x43, 0x6f,
      0x70, 0x79, 0x72, 0x69, 0x67, 0x68, 0x74, 0x20,
      0x28, 0x43, 0x29, 0x20, 0x32, 0x30, 0x30, 0x37,
      0x2d, 0x32, 0x30, 0x31, 0x38, 0x20, 0x50, 0x69,
      0x76, 0x6f, 0x74, 0x61, 0x6c, 0x20, 0x53, 0x6f,
      0x66, 0x74, 0x77, 0x61, 0x72, 0x65, 0x2c, 0x20,
      0x49, 0x6e, 0x63, 0x2e, 0x0b, 0x69, 0x6e, 0x66,
      0x6f, 0x72, 0x6d, 0x61, 0x74, 0x69, 0x6f, 0x6e,
      0x53, 0x00, 0x00, 0x00, 0x35, 0x4c, 0x69, 0x63,
      0x65, 0x6e, 0x73, 0x65, 0x64, 0x20, 0x75, 0x6e,
      0x64, 0x65, 0x72, 0x20, 0x74, 0x68, 0x65, 0x20,
      0x4d, 0x50, 0x4c, 0x2e, 0x20, 0x20, 0x53, 0x65,
      0x65, 0x20, 0x68, 0x74, 0x74, 0x70, 0x3a, 0x2f,
      0x2f, 0x77, 0x77, 0x77, 0x2e, 0x72, 0x61, 0x62,
      0x62, 0x69, 0x74, 0x6d, 0x71, 0x2e, 0x63, 0x6f,
      0x6d, 0x2f, 0x08, 0x70, 0x6c, 0x61, 0x74, 0x66,
      0x6f, 0x72, 0x6d, 0x53, 0x00, 0x00, 0x00, 0x11,
      0x45, 0x72, 0x6c, 0x61, 0x6e, 0x67, 0x2f, 0x4f,
      0x54, 0x50, 0x20, 0x32, 0x30, 0x2e, 0x32, 0x2e,
      0x34, 0x07, 0x70, 0x72, 0x6f, 0x64, 0x75, 0x63,
      0x74, 0x53, 0x00, 0x00, 0x00, 0x08, 0x52, 0x61,
      0x62, 0x62, 0x69, 0x74, 0x4d, 0x51, 0x07, 0x76,
      0x65, 0x72, 0x73, 0x69, 0x6f, 0x6e, 0x53, 0x00,
      0x00, 0x00, 0x05, 0x33, 0x2e, 0x37, 0x2e, 0x34,
      0x00, 0x00, 0x00, 0x0e, 0x50, 0x4c, 0x41, 0x49,
      0x4e, 0x20, 0x41, 0x4d, 0x51, 0x50, 0x4c, 0x41,
      0x49, 0x4e, 0x00, 0x00, 0x00, 0x05, 0x65, 0x6e,
      0x5f, 0x55, 0x53, 0xce
     ]"

definition sample_properties :: pydict where
  "sample_properties =
     [(lit ''capabilities'', PDict
        [(lit ''authentication_failure_close'', PBool True),
         (lit ''consumer_priorities'', PBool True),
         (lit ''exchange_exchange_bindings'', PBool True),
         (lit ''direct_reply_to'', PBool True),
         (lit ''per_consumer_qos'', PBool True),
         (lit ''basic.nack'', PBool True),
         (lit ''publisher_confirms'', PBool True),
         (lit ''consumer_cancel_notify'', PBool True),
         (lit ''connection.blocked'', PBool True)]),
      (lit ''information'', PStr (lit ''Licensed under the MPL. See http://www.rabbitmq.com/'')),
      (lit ''cluster_name'', PStr (lit ''rabbit@60b584cb4c1b'')),
      (lit ''product'', PStr (lit ''RabbitMQ'')),
      (lit ''version'', PStr (lit ''3.7.4'')),
      (lit ''copyright'', PStr (lit ''Copyright (C) 2007-2018 Pivotal Software, Inc.'')),
      (lit ''platform'', PStr (lit ''Erlang/OTP 20.2.4''))]"

text \<open>What the module prints: the values and the offset it decodes, and the bytes it encodes.\<close>

definition self_test :: "(pyval list \<times> nat) result \<times> bytes result" where
  "self_test =
     (loads ''FSS'' sample_data 0,
      dumps ''ooF'' [PInt 0, PInt 9, PDict sample_properties])"

text \<open>
  The sample is, but for the end marker of its frame behind it, what \<open>dumps\<close> writes for a table of the
  server's properties, the mechanisms and the locales; so that is what it decodes to.
\<close>

definition sample_table :: pydict where
  "sample_table =
     [(lit ''capabilities'', PDict
        [(lit ''publisher_confirms'', PBool True),
         (lit ''exchange_exchange_bindings'', PBool True),
         (lit ''basic.nack'', PBool True),
         (lit ''consumer_cancel_notify'', PBool True),
         (lit ''connection.blocked'', PBool True),
         (lit ''consumer_priorities'', PBool True),
         (lit ''authentication_failure_close'', PBool True),
         (lit ''per_consumer_qos'', PBool True),
         (lit ''direct_reply_to'', PBool True)]),
      (lit ''cluster_name'', PStr (lit ''rabbit@60b584cb4c1b'')),
      (lit ''copyright'', PStr (lit ''Copyright (C) 2007-2018 Pivotal Software, Inc.'')),
      (lit ''information'', PStr (lit ''Licensed under the MPL.  See http://www.rabbitmq.com/'')),
      (lit ''platform'', PStr (lit ''Erlang/OTP 20.2.4'')),
      (lit ''product'', PStr (lit ''RabbitMQ'')),
      (lit ''version'', PStr (lit ''3.7.4''))]"

lemmas eval_writing = write_table_def write_str_def encode_str_def or_else_def py_len_def as_buffer_def
  dumps_def dumps_field_def flushbits_def emit_def Let_def
  str_to_bytes_def lit_def utf8_encode_cp_def byte_of_def valid_cp_def pack_B_def pack_H_def
  pack_I_def pack_i_def pack_u_def pack_s_def be_bytes_eval tag_def with_length_def value_error_as_syntax_def

lemma sample_written:
  "dumps ''FSS'' [PDict sample_table, PStr (lit ''PLAIN AMQPLAIN''), PStr (lit ''en_US'')] = Inr (butlast sample_data)"
  unfolding sample_table_def sample_data_def by (simp add: eval_writing del: be_bytes.simps)

lemma sample_ends: "sample_data = butlast sample_data @ [0xCE]"
  by (simp add: sample_data_def)

lemma self_test_reads:
  "fst self_test = Inr ([PDict sample_table, PStr (lit ''PLAIN AMQPLAIN''), PStr (lit ''en_US'')], 486)"
proof -
  have "list_all2 field_ok ''FSS'' [PDict sample_table, PStr (lit ''PLAIN AMQPLAIN''), PStr (lit ''en_US'')]"
    by (simp add: field_ok_def sample_table_def lit_def valid_cp_def)
  moreover have "length (butlast sample_data) = 486" by (simp add: sample_data_def)
  moreover have "holds_at sample_data 0 (butlast sample_data)"
    using holds_at_start(1) [of "butlast sample_data" "[0xCE]"] sample_ends by simp
  ultimately show ?thesis
    using loads_dumps_at [OF sample_written _ _, of sample_data 0] by (simp add: self_test_def)
qed

lemma self_test_writes:
  "\<exists>bs. snd self_test = Inr bs \<and> loads ''ooF'' bs 0 = Inr ([PInt 0, PInt 9, PDict sample_properties], length bs)"
proof -
  let ?vs = "[PInt 0, PInt 9, PDict sample_properties]"
  obtain bs where bs: "dumps ''ooF'' ?vs = Inr bs"
    unfolding sample_properties_def by (simp add: eval_writing del: be_bytes.simps)
  moreover have "list_all2 field_ok ''ooF'' ?vs"
    by (simp add: field_ok_def sample_properties_def lit_def valid_cp_def)
  ultimately show ?thesis
    using loads_dumps_at [OF bs _ _, of bs 0] by (simp add: self_test_def)
qed

end
