(* ===== verification/Spec2Isabelle.thy ===== *)
theory Spec2Isabelle
  imports Wire_Properties Broker_Properties Traffic_Properties Http_Properties Generic_Properties Delivery_Properties
    Service_Properties Self_Test
begin

text \<open>
  A verification development for \<open>mock-amqp-server\<close>, an AMQP 0.9.1 server written in Python that stands
  in for a broker in tests. A client under test connects over AMQP; the test drives and inspects the
  server over HTTP.

  \<^bold>\<open>The program.\<close> \<open>service/__main__.py\<close> starts one \<open>State\<close> and two listening sockets on one asyncio event
  loop. Every AMQP connection has a \<open>TrackerProtocol\<close> (\<open>service/protocol.py\<close>), every HTTP connection an
  \<open>HTTPProtocol\<close> (\<open>service/http_protocol.py\<close>); both call the methods of the shared \<open>State\<close>
  (\<open>service/state.py\<close>). \<open>TrackerProtocol.data_received\<close> takes frames off its buffer with \<open>read_frame\<close>
  (\<open>service/frame.py\<close>), which decodes methods and content headers (\<open>service/method.py\<close>) with
  \<open>service/serialization.py\<close>; it answers with the functions of \<open>service/sender.py\<close>. A publish over HTTP
  ends in \<open>push_message\<close> of a consumer's \<open>TrackerProtocol\<close>.

  \<^bold>\<open>How the code is rendered.\<close> A function that may raise returns a sum, \<open>Inl\<close> of the exception class or
  \<open>Inr\<close> of the value (\<open>bindE\<close> is sequencing); a method that also mutates objects is a function from the
  state to the outcome and the state after it (\<open>bindS\<close>, \<open>thenS\<close>), so what was changed before an exception
  stays changed. Bytes are lists of 8-bit words, a \<open>str\<close> the list of its code points (lone surrogates
  included), Python integers \<open>int\<close>, a float the bit pattern of its double, dictionaries association lists
  in insertion order, objects records. An asyncio transport is the sequence of the calls made on it and
  the flag \<open>is_closing\<close>. Mutable objects shared between components live in one record \<open>world\<close>: the
  state, one tracker and one transport for each connection, and the numbers \<open>randint\<close> will draw. The
  order in which a set gives its elements is a parameter (\<open>set_order\<close>, \<open>tag_order\<close>), of which the
  theorems assume at most that it permutes them.

  \<^bold>\<open>Theories\<close>, bottom up.
  \<^item> \<open>Prelude\<close>: exceptions, results, computations with \<open>keeps\<close> (invariants), \<open>returns\<close> (no exception)
    and \<open>commutes\<close> (blind to a change), slices of bytes, \<open>split\<close> and \<open>replace\<close>.
  \<^item> \<open>Utf8\<close>, \<open>Struct_Codec\<close>, \<open>Ieee\<close>, \<open>Py_Value\<close>: what the source uses of the language and its library:
    UTF-8 with and without \<open>surrogatepass\<close>, the formats of \<open>struct\<close>, rounding to doubles and singles,
    the dynamic values with truth value, \<open>int()\<close>, \<open>in\<close>, subscription, \<open>Decimal\<close> and \<open>datetime\<close>.
  \<^item> \<open>Loads\<close>, \<open>Dumps\<close>, \<open>Codec\<close>, \<open>Generic_Content\<close>, \<open>Self_Test\<close>: \<open>service/serialization.py\<close>: reading
    (\<open>loads\<close>, \<open>_read_item\<close>, \<open>decode_properties_basic\<close>), writing (\<open>dumps\<close>, \<open>_write_table\<close>, \<open>_write_array\<close>,
    \<open>_write_item\<close>), how the two agree, the class \<open>GenericContent\<close>, and the sample of the self-test.
  \<^item> \<open>Methods\<close>, \<open>Frames\<close>: \<open>service/method.py\<close>, \<open>service/heartbeat.py\<close>, \<open>service/frame.py\<close> and
    \<open>service/message.py\<close>.
  \<^item> \<open>Sender\<close>: every function of \<open>service/sender.py\<close> as the writes it makes.
  \<^item> \<open>Broker_State\<close>, \<open>Waits\<close>: the class \<open>State\<close> with its views, its well-formedness and the contract of
    each operation; its waits and its debug view.
  \<^item> \<open>World\<close>, \<open>Delivery\<close>, \<open>Tracker_Protocol\<close>: the objects together; publishing to consumers;
    \<open>TrackerProtocol\<close> with the handshake, the state machine of a channel and the loop over the buffer.
  \<^item> \<open>Channels\<close>, \<open>Chunks\<close>, \<open>Contents\<close>, \<open>Streams\<close>, \<open>Handshake\<close>, \<open>Frame_Runs\<close>: what the handlers keep, what
    they do not look at, what the frames of a message and of the handshake do, what is read from the bytes
    that frames are made of, and the loop over the buffer as the handling of frame after frame.
  \<^item> \<open>Server\<close>: all connections and the other clients of the state as a transition system.
  \<^item> \<open>Json\<close>, \<open>Json_Codec\<close>: \<open>json.dumps\<close> and \<open>json.loads\<close> with their defaults, and their round trip.
  \<^item> \<open>Http\<close>, \<open>Http_Steps\<close>: \<open>HTTPProtocol\<close>, and what its requests, tasks and callbacks keep.
  \<^item> \<open>Mock_Broker\<close>: the abstract specification of the state: a broker without connections, bytes and
    consumers, a machine that answers requests; every operation is one of them or none.
  \<^item> \<open>Sessions\<close>, \<open>Http_Requests\<close>: which requests a client makes. An abstract session (the stage of the
    handshake, one talk per channel) hears the frames in the bytes of an AMQP connection; of an HTTP
    connection, the request that its parser's events spell out. \<open>data_received\<close> makes these and no others.
  \<^item> \<open>Service\<close>: \<open>service/__main__.py\<close> (\<open>main\<close>, \<open>exception_handler\<close>, the variables of the environment), and
    all AMQP and HTTP connections over one shared world, as a transition system whose labels
    (\<open>happening\<close>) are what asyncio calls: connections made, data received, tasks resumed, callbacks.
  \<^item> \<open>Abstract_Service\<close>: the service as a test may think of it: the requests made so far and the sessions;
    what happens moves it, and the service follows it.
  \<^item> \<open>Wire_Properties\<close>, \<open>Broker_Properties\<close>, \<open>Content_Properties\<close>, \<open>Connection_Properties\<close>,
    \<open>Traffic_Properties\<close>, \<open>Http_Properties\<close>, \<open>Generic_Properties\<close>, \<open>Delivery_Properties\<close>,
    \<open>Service_Properties\<close>: the properties, by subject.

  \<^bold>\<open>Interfaces.\<close> \<open>broker_invariant\<close> says which operations of the state an AMQP connection uses; its
  interpretations give well-formedness, the consumers' tags, what only grows, the table of users, and the
  states of the mock broker that its clients' requests reach.
  \<open>channel_invariant\<close> and \<open>handler_invariant\<close> are the same for the steps of a handler, \<open>channel_blind\<close> for
  what handlers do not see; \<open>http_responses\<close>, \<open>http_readers\<close>, \<open>http_handlers\<close>, \<open>http_invariant\<close> and
  \<open>http_connection_invariant\<close> for HTTP, interpreted with the reachable states of the server, with the
  AMQP side, with the owners of consumers, with the mock broker and with the fields of a request. An invariant of the system is one interpretation, not one
  induction over the handlers.

  \<^bold>\<open>What is shown.\<close> On the wire: values, arguments and content headers that are written are read back;
  decoded methods have arguments of the right types; the two decoders of properties agree; every sender
  writes one frame; frames are read alike whatever follows them. In the state: the declarations and the
  storing of messages refine contracts over maps and sets, a publish reaches the first live consumer and
  nobody else, who can read from its bytes what was published. On a connection: every frame of the input is
  handled in its order, and what the handlers do is what an abstract session hears; a publication whose bytes arrive is
  stored in the exchange and in exactly the queues bound to it, however the body is cut into frames and
  the stream into pieces; the handshake completes with valid credentials and only with them; connections do not touch each
  other; every reachable state is well formed. Over HTTP: posted messages are the published ones; what an inspection answers is what was
  stored, from the bytes of the publication on; waits are answered. Of the whole: whatever connects, sends, waits and leaves, the
  state is the one that a mock broker reaches with exactly the requests in the bytes and events received; a
  published message stays in its queues and an acknowledgement that arrives reaches the test that waits for
  it, whatever AMQP traffic comes in between, and so does the verdict on the last login of a user. The class \<open>GenericContent\<close> reads back what it writes and what the sender sends. The error properties state what the code does where it does not do what it means to.

  \<^bold>\<open>Termination, bounds, fuel.\<close> No fuel is used. The recursions of the decoders and of JSON terminate
  because every step consumes input, \<open>serve\<close> because every round takes a frame off the buffer, a wait
  because its ten rounds are counted. The loop of \<open>HTTPProtocol._data_received\<close> depends on the parser, so it
  is a partial function in the option type, where None is a loop that does not end: it is shown not to end
  with a parser that stays paused. What is said of requests over HTTP is said of those that return, with or
  without an exception; a step of the service that does not end is a service that is stuck.

  \<^bold>\<open>Parameters.\<close> The package h11 is not part of the repository: its parser is the record \<open>h11\<close> of three
  functions on an abstract state. The environment gives the default user and password, the date of a
  response, the delivery tags and the order of sets.

  \<^bold>\<open>Not modelled.\<close> The sockets and the scheduling of the event loop, which are asyncio's: any order of
  steps is allowed, and for \<open>_main\<close> the loop is the sequence of calls made on it, with any outcome.
  The calls of \<open>print\<close> for debugging, which only write to the console. Of the interpreter: memory and recursion limits,
  identity of objects beyond the sharing described above, and decimal digits outside ASCII in \<open>int()\<close>. A timestamp is
  a number of seconds; floats in JSON are written and read, but the round trip is shown without them.
\<close>

end
